theory Spec2Isabelle
  imports Complex_Main "HOL-Library.Word" "HOL-Library.Stream" "HOL-Library.AList"
    "HOL-Library.Sublist"
begin

section \<open>The Solidity demo contracts\<close>

text \<open>
  \<^verbatim>\<open>contracts/Counter.sol\<close> and \<^verbatim>\<open>contracts/ParallelCounter.sol\<close>, compiled
  with \<^verbatim>\<open>pragma solidity ^0.8.24\<close>: \<^verbatim>\<open>uint256\<close> arithmetic outside
  \<^verbatim>\<open>assembly\<close> is checked and an overflow aborts the call with \<^verbatim>\<open>Panic(0x11)\<close>.
  A failed \<^verbatim>\<open>require\<close> aborts with \<^verbatim>\<open>Error(string)\<close>. An aborted call leaves the
  storage as it was, so a call returns either the error or the new storage together
  with the events it emitted.
\<close>

type_synonym uint256 = "256 word"
type_synonym address = "160 word"

datatype sol_error = Revert string | Panic nat

record tx_env =
  msg_sender :: address
  block_timestamp :: uint256

definition checked_add :: "uint256 \<Rightarrow> uint256 \<Rightarrow> sol_error + uint256" where
  "checked_add a b = (if unat a + unat b < 2 ^ 256 then Inr (a + b) else Inl (Panic 17))"

subsection \<open>Counter\<close>

record Counter =
  c_count :: uint256
  c_lastIncrement :: uint256
  c_owner :: address

datatype Counter_event =
  Incremented uint256 address uint256
| Decremented uint256 address uint256
| Reset uint256 address uint256

definition Counter_constructor :: "tx_env \<Rightarrow> Counter" where
  "Counter_constructor env =
     \<lparr>c_count = 0, c_lastIncrement = block_timestamp env, c_owner = msg_sender env\<rparr>"

definition Counter_incrementBy ::
  "tx_env \<Rightarrow> uint256 \<Rightarrow> Counter \<Rightarrow> sol_error + (Counter \<times> Counter_event list)" where
  "Counter_incrementBy env amount s =
     (if \<not> amount > 0 then Inl (Revert ''Counter: amount must be greater than 0'')
      else
        (case checked_add (c_count s) amount of
           Inl e \<Rightarrow> Inl e
         | Inr c \<Rightarrow>
             (let s1 = s\<lparr>c_count := c, c_lastIncrement := block_timestamp env\<rparr>
              in Inr (s1, [Incremented (c_count s1) (msg_sender env) (block_timestamp env)]))))"

text \<open>
  The loop of \<^verbatim>\<open>batchIncrement\<close>:
  \<^verbatim>\<open>for (uint256 i = 0; i < iterations; i++) { _count++; }\<close>
  Both \<^verbatim>\<open>_count++\<close> and \<^verbatim>\<open>i++\<close> are checked increments.
\<close>

function Counter_batchIncrement_loop ::
  "uint256 \<Rightarrow> uint256 \<Rightarrow> Counter \<Rightarrow> sol_error + Counter" where
  "Counter_batchIncrement_loop i iterations s =
     (if i < iterations then
        (case checked_add (c_count s) 1 of
           Inl e \<Rightarrow> Inl e
         | Inr c \<Rightarrow>
             (case checked_add i 1 of
                Inl e \<Rightarrow> Inl e
              | Inr i' \<Rightarrow> Counter_batchIncrement_loop i' iterations (s\<lparr>c_count := c\<rparr>)))
      else Inr s)"
  by pat_completeness auto
termination
proof (relation "measure (\<lambda>(i, iterations, s). unat iterations - unat i)")
  show "wf (measure (\<lambda>(i, iterations, s). unat iterations - unat i))" by simp
next
  fix i iterations :: uint256 and s :: Counter and c i' :: uint256
  assume lt: "i < iterations" and step: "checked_add i 1 = Inr i'"
  from step have "unat i' = unat i + 1"
    by (auto simp: checked_add_def unat_word_ariths split: if_splits)
  moreover from lt have "unat i < unat iterations" by (simp add: word_less_nat_alt)
  ultimately show "((i', iterations, s\<lparr>c_count := c\<rparr>), (i, iterations, s))
      \<in> measure (\<lambda>(i, iterations, s). unat iterations - unat i)"
    by simp
qed

declare Counter_batchIncrement_loop.simps [simp del]

definition Counter_batchIncrement ::
  "tx_env \<Rightarrow> uint256 \<Rightarrow> Counter \<Rightarrow> sol_error + (Counter \<times> Counter_event list)" where
  "Counter_batchIncrement env iterations s =
     (if \<not> iterations > 0 then Inl (Revert ''Counter: iterations must be greater than 0'')
      else if \<not> iterations \<le> 100 then Inl (Revert ''Counter: iterations cannot exceed 100'')
      else
        (case Counter_batchIncrement_loop 0 iterations s of
           Inl e \<Rightarrow> Inl e
         | Inr s1 \<Rightarrow>
             (let s2 = s1\<lparr>c_lastIncrement := block_timestamp env\<rparr>
              in Inr (s2, [Incremented (c_count s2) (msg_sender env) (block_timestamp env)]))))"

subsection \<open>ParallelCounter\<close>

record ParallelCounter =
  pc_count :: uint256
  pc_lastIncrement :: uint256
  pc_totalIncrements :: uint256
  pc_owner :: address

datatype ParallelCounter_event =
  PIncremented uint256 address uint256 uint256
| BatchIncremented uint256 uint256 address uint256
| ParallelExecution uint256 uint256 address

definition ParallelCounter_batchIncrement ::
  "tx_env \<Rightarrow> uint256 \<Rightarrow> ParallelCounter
     \<Rightarrow> sol_error + (ParallelCounter \<times> ParallelCounter_event list)" where
  "ParallelCounter_batchIncrement env iterations s =
     (if \<not> iterations > 0 then
        Inl (Revert ''ParallelCounter: iterations must be greater than 0'')
      else if \<not> iterations \<le> 100 then
        Inl (Revert ''ParallelCounter: iterations cannot exceed 100'')
      else
        (case checked_add (pc_count s) iterations of
           Inl e \<Rightarrow> Inl e
         | Inr c \<Rightarrow>
             (case checked_add (pc_totalIncrements s) iterations of
                Inl e \<Rightarrow> Inl e
              | Inr t \<Rightarrow>
                  (let s1 = s\<lparr>pc_count := c, pc_totalIncrements := t,
                              pc_lastIncrement := block_timestamp env\<rparr>
                   in Inr (s1, [BatchIncremented iterations (pc_count s1) (msg_sender env)
                                  (block_timestamp env)])))))"

section \<open>The JavaScript side: values, the runtime and the event loop\<close>

text \<open>
  The TypeScript and JavaScript sources are embedded with these conventions.
  \<^item> A JavaScript \<^verbatim>\<open>number\<close> that holds a count, an index or a millisecond timestamp is
    an \<open>int\<close>; a \<^verbatim>\<open>number\<close> that a division produced is a \<open>jsnum\<close>, which adds the
    IEEE values \<^verbatim>\<open>Infinity\<close>, \<^verbatim>\<open>-Infinity\<close> and \<^verbatim>\<open>NaN\<close> to the reals. Arithmetic is
    exact: the rounding of doubles is not modelled, and neither is the negative zero.
  \<^item> A \<^verbatim>\<open>bigint\<close>, and a decimal string printed from one, is the \<open>int\<close> it denotes.
  \<^item> \<^verbatim>\<open>Math.random()\<close> and the clock (\<^verbatim>\<open>Date.now()\<close>, \<^verbatim>\<open>new Date()\<close>) are input
    streams held in the world; each call takes the head of its stream.
  \<^item> \<^verbatim>\<open>console.log\<close> and the spinner have no effect on any value and are left out.
\<close>

subsection \<open>Numbers and strings\<close>

datatype jsnum = Num real | Infinity bool | NaN

text \<open>\<open>Infinity True\<close> is \<^verbatim>\<open>+Infinity\<close>, \<open>Infinity False\<close> is \<^verbatim>\<open>-Infinity\<close>.\<close>

fun js_div :: "jsnum \<Rightarrow> jsnum \<Rightarrow> jsnum" where
  "js_div NaN _ = NaN"
| "js_div _ NaN = NaN"
| "js_div (Infinity _) (Infinity _) = NaN"
| "js_div (Infinity p) (Num b) = Infinity (p = (0 \<le> b))"
| "js_div (Num a) (Infinity _) = Num 0"
| "js_div (Num a) (Num b) =
     (if b \<noteq> 0 then Num (a / b)
      else if a = 0 then NaN
      else Infinity (0 < a))"

fun js_mul :: "jsnum \<Rightarrow> jsnum \<Rightarrow> jsnum" where
  "js_mul NaN _ = NaN"
| "js_mul _ NaN = NaN"
| "js_mul (Infinity p) (Infinity q) = Infinity (p = q)"
| "js_mul (Infinity p) (Num b) = (if b = 0 then NaN else Infinity (p = (0 < b)))"
| "js_mul (Num a) (Infinity q) = (if a = 0 then NaN else Infinity (q = (0 < a)))"
| "js_mul (Num a) (Num b) = Num (a * b)"

fun js_sub :: "jsnum \<Rightarrow> jsnum \<Rightarrow> jsnum" where
  "js_sub NaN _ = NaN"
| "js_sub _ NaN = NaN"
| "js_sub (Infinity p) (Infinity q) = (if p = q then NaN else Infinity p)"
| "js_sub (Infinity p) (Num b) = Infinity p"
| "js_sub (Num a) (Infinity q) = Infinity (\<not> q)"
| "js_sub (Num a) (Num b) = Num (a - b)"

fun js_ceil :: "jsnum \<Rightarrow> jsnum" where
  "js_ceil (Num a) = Num (of_int \<lceil>a\<rceil>)"
| "js_ceil x = x"

text \<open>\<^verbatim>\<open>x || 0\<close> on a number: \<^verbatim>\<open>0\<close> and \<^verbatim>\<open>NaN\<close> are falsy.\<close>

fun js_or_zero :: "jsnum \<Rightarrow> jsnum" where
  "js_or_zero NaN = Num 0"
| "js_or_zero x = x"

text \<open>
  \<^verbatim>\<open>s || d\<close> on a string that may be missing: \<^verbatim>\<open>undefined\<close> and \<^verbatim>\<open>""\<close> are
  falsy. The right operand is evaluated, with its effects, only for a falsy left operand.
\<close>

fun string_or :: "string option \<Rightarrow> string \<Rightarrow> string" where
  "string_or None d = d"
| "string_or (Some s) d = (if s \<noteq> [] then s else d)"

fun string_or_else :: "string option \<Rightarrow> ('w \<Rightarrow> string \<times> 'w) \<Rightarrow> 'w \<Rightarrow> string \<times> 'w" where
  "string_or_else None d w = d w"
| "string_or_else (Some s) d w = (if s \<noteq> [] then (s, w) else d w)"

text \<open>
  How often the body of \<^verbatim>\<open>for (let b = 0; b < bound; b++)\<close> runs: never when the
  bound is \<^verbatim>\<open>NaN\<close> or not positive; the loop does not end when the bound is
  \<^verbatim>\<open>+Infinity\<close>, which is \<open>None\<close>.
\<close>

fun loop_count :: "jsnum \<Rightarrow> nat option" where
  "loop_count (Num x) = Some (nat \<lceil>x\<rceil>)"
| "loop_count NaN = Some 0"
| "loop_count (Infinity p) = (if p then None else Some 0)"

text \<open>Decimal printing of an index or a timestamp inside a template string.\<close>

function dec_nat :: "nat \<Rightarrow> string" where
  "dec_nat n =
     (if n < 10 then [''0123456789'' ! n]
      else dec_nat (n div 10) @ [''0123456789'' ! (n mod 10)])"
  by pat_completeness auto
termination
  by (relation "measure (\<lambda>n. n)") auto

declare dec_nat.simps [simp del]

definition dec_int :: "int \<Rightarrow> string" where
  "dec_int i = (if i < 0 then CHR ''-'' # dec_nat (nat (- i)) else dec_nat (nat i))"

text \<open>\<^verbatim>\<open>s.substr(start, length)\<close> with a start inside the string or past its end.\<close>

definition substr :: "nat \<Rightarrow> nat \<Rightarrow> string \<Rightarrow> string" where
  "substr start len s = take len (drop start s)"

text \<open>
  \<^verbatim>\<open>array.slice(start, end)\<close> on integers: a negative index counts from the end, and
  both are clamped to the array.
\<close>

definition js_slice :: "'a list \<Rightarrow> int \<Rightarrow> int \<Rightarrow> 'a list" where
  "js_slice array start end =
     (let len = int (length array);
          k = (if start < 0 then max (len + start) 0 else min start len);
          final = (if end < 0 then max (len + end) 0 else min end len)
      in take (nat (final - k)) (drop (nat k) array))"

text \<open>
  \<^verbatim>\<open>path.join\<close> and \<^verbatim>\<open>path.normalize\<close> of Node on a POSIX system. The segments
  between the slashes are read from left to right: an empty segment and \<^verbatim>\<open>.\<close> are
  dropped, \<^verbatim>\<open>..\<close> removes the segment before it, and where there is none it is kept in
  a relative path and dropped in an absolute one.
\<close>

fun split_on :: "char \<Rightarrow> string \<Rightarrow> string list" where
  "split_on c [] = [[]]"
| "split_on c (x # xs) =
     (if x = c then [] # split_on c xs
      else (case split_on c xs of [] \<Rightarrow> [[x]] | s # ss \<Rightarrow> (x # s) # ss))"

fun intercalate :: "string \<Rightarrow> string list \<Rightarrow> string" where
  "intercalate sep [] = []"
| "intercalate sep [s] = s"
| "intercalate sep (s # t # ss) = s @ sep @ intercalate sep (t # ss)"

text \<open>\<open>res\<close> holds the segments kept so far, the last one first.\<close>

fun normalizeString :: "bool \<Rightarrow> string list \<Rightarrow> string list \<Rightarrow> string list" where
  "normalizeString allowAboveRoot [] res = rev res"
| "normalizeString allowAboveRoot (seg # segs) res =
     (if seg = [] \<or> seg = ''.'' then normalizeString allowAboveRoot segs res
      else if seg = ''..'' then
        (case res of
           r # rs \<Rightarrow>
             if r \<noteq> ''..'' then normalizeString allowAboveRoot segs rs
             else normalizeString allowAboveRoot segs (if allowAboveRoot then seg # res else res)
         | [] \<Rightarrow> normalizeString allowAboveRoot segs (if allowAboveRoot then seg # res else res))
      else normalizeString allowAboveRoot segs (seg # res))"

definition path_normalize :: "string \<Rightarrow> string" where
  "path_normalize path =
     (if path = [] then ''.''
      else
        (let isAbsolute = (hd path = CHR ''/'');
             trailingSeparator = (last path = CHR ''/'');
             p = intercalate ''/'' (normalizeString (\<not> isAbsolute) (split_on CHR ''/'' path) [])
         in if p = [] then (if isAbsolute then ''/'' else if trailingSeparator then ''./'' else ''.'')
            else (if isAbsolute then ''/'' else []) @ p @ (if trailingSeparator then ''/'' else [])))"

definition path_join :: "string list \<Rightarrow> string" where
  "path_join args =
     (case filter (\<lambda>arg. arg \<noteq> []) args of
        [] \<Rightarrow> ''.''
      | joined \<Rightarrow> path_normalize (intercalate ''/'' joined))"

text \<open>
  What the sources take from the runtime without computing it: the text of
  \<^verbatim>\<open>Number.prototype.toString(radix)\<close> on a random draw, the text of
  \<^verbatim>\<open>Date.prototype.toISOString()\<close> on a clock reading, and \<^verbatim>\<open>process.cwd()\<close>.
\<close>

record runtime =
  toString_radix :: "nat \<Rightarrow> real \<Rightarrow> string"
  toISOString :: "int \<Rightarrow> string"
  cwd :: string

subsection \<open>The data model\<close>

text \<open>
  A plain object with the six instance fields, any of which may be missing: what
  \<^verbatim>\<open>fs.readJson\<close> returns for an instance file and what the constructor of
  \<^verbatim>\<open>EVVMInstance\<close> takes.
\<close>

record instance_obj =
  o_id :: "string option"
  o_name :: "string option"
  o_contractAddress :: "string option"
  o_status :: "string option"
  o_createdAt :: "string option"
  o_lastActivity :: "string option"

record EVVMInstance =
  i_id :: string
  i_name :: string
  i_contractAddress :: string
  i_status :: string
  i_createdAt :: string
  i_lastActivity :: string

definition obj_of :: "EVVMInstance \<Rightarrow> instance_obj" where
  "obj_of i = \<lparr>o_id = Some (i_id i), o_name = Some (i_name i),
     o_contractAddress = Some (i_contractAddress i), o_status = Some (i_status i),
     o_createdAt = Some (i_createdAt i), o_lastActivity = Some (i_lastActivity i)\<rparr>"

record BenchmarkResult =
  mode :: string
  totalTransactions :: int
  successfulTransactions :: int
  failedTransactions :: int
  totalTimeMs :: int
  averageLatencyMs :: jsnum
  tps :: jsnum
  totalGasUsed :: int
  averageGasPerTx :: int
  errors :: "string list"
  timestamp :: string

text \<open>The object that the \<^verbatim>\<open>benchmark\<close> command writes to \<^verbatim>\<open>benchmark-results/\<close>.\<close>

record report_config =
  rc_txCount :: int
  rc_mode :: string
  rc_demo :: bool

record report =
  r_instanceId :: "string option"
  r_config :: report_config
  r_results :: "BenchmarkResult list"
  r_timestamp :: string

text \<open>
  What a path holds: a directory, or a file whose content is the JSON text of an object
  with some of the instance fields, the JSON text of a benchmark report, the JSON text
  \<^verbatim>\<open>null\<close>, or text that is not JSON. Another JSON value (a number, a string, an array)
  reads like an object with none of the fields.
\<close>

datatype json_file = JInstance instance_obj | JReport report | JNull | NotJson string

datatype node = Directory | File json_file

subsection \<open>The world\<close>

text \<open>
  Everything outside the program that it reads or changes: the two input streams and the
  disk, a list of normalised paths with what each holds; the first entry of a path
  counts. The record is extensible, and the extension stands for the rest
  of the environment (network, other processes).
\<close>

record world =
  random_src :: "real stream"
  clock :: "int stream"
  files :: "(string \<times> node) list"

definition Math_random :: "'e world_scheme \<Rightarrow> real \<times> 'e world_scheme" where
  "Math_random w = (shd (random_src w), w\<lparr>random_src := stl (random_src w)\<rparr>)"

definition Date_now :: "'e world_scheme \<Rightarrow> int \<times> 'e world_scheme" where
  "Date_now w = (shd (clock w), w\<lparr>clock := stl (clock w)\<rparr>)"

text \<open>\<^verbatim>\<open>new Date().toISOString()\<close>\<close>

definition new_Date_toISOString :: "runtime \<Rightarrow> 'e world_scheme \<Rightarrow> string \<times> 'e world_scheme" where
  "new_Date_toISOString rt w = (let (t, w1) = Date_now w in (toISOString rt t, w1))"

subsection \<open>Awaiting in sequence and \<^verbatim>\<open>Promise.all\<close>\<close>

text \<open>A \<^verbatim>\<open>for\<close> loop that awaits its body and collects one value per element.\<close>

fun for_await :: "('x \<Rightarrow> 'w \<Rightarrow> 'y \<times> 'w) \<Rightarrow> 'x list \<Rightarrow> 'w \<Rightarrow> 'y list \<times> 'w" where
  "for_await body [] w = ([], w)"
| "for_await body (x # xs) w =
     (let (y, w1) = body x w;
          (ys, w2) = for_await body xs w1
      in (y # ys, w2))"

text \<open>A \<^verbatim>\<open>for\<close> loop that awaits its body and updates local variables \<open>s\<close>.\<close>

fun for_loop :: "('x \<Rightarrow> 's \<Rightarrow> 'w \<Rightarrow> 's \<times> 'w) \<Rightarrow> 'x list \<Rightarrow> 's \<Rightarrow> 'w \<Rightarrow> 's \<times> 'w" where
  "for_loop body [] s w = (s, w)"
| "for_loop body (x # xs) s w =
     (let (s1, w1) = body x s w in for_loop body xs s1 w1)"

text \<open>
  \<^verbatim>\<open>setTimeout(resolve, ms)\<close> in Node: the delay is cut to whole milliseconds, and a
  delay below 1 or above \<open>2^31 - 1\<close> becomes 1.
\<close>

definition timer_ms :: "real \<Rightarrow> nat" where
  "timer_ms ms = (if 1 \<le> ms \<and> ms \<le> 2147483647 then nat \<lfloor>ms\<rfloor> else 1)"

text \<open>
  \<^verbatim>\<open>await Promise.all(xs.map(async (x, index) => { A; await delay(ms); B }))\<close>.
  The call of \<^verbatim>\<open>map\<close> runs every callback up to its first \<^verbatim>\<open>await\<close>, in the order of
  the array: that is \<open>start\<close>, which returns the delay it asked for and the local
  variables it keeps. Nothing else is pending, so the callbacks then resume, each running
  \<open>resume\<close> to its end, in the order in which their timers fire: by whole-millisecond
  delay, and in the order of creation among timers with the same delay. The promise
  resolves to the results in the order of the array.
\<close>

definition firing_order :: "real list \<Rightarrow> nat list" where
  "firing_order delays = sort_key (\<lambda>i. timer_ms (delays ! i)) [0..<length delays]"

definition promise_all ::
  "(nat \<Rightarrow> 'x \<Rightarrow> 'w \<Rightarrow> (real \<times> 'c) \<times> 'w) \<Rightarrow> (nat \<Rightarrow> 'c \<Rightarrow> 'w \<Rightarrow> 'r \<times> 'w)
     \<Rightarrow> 'x list \<Rightarrow> 'w \<Rightarrow> 'r list \<times> 'w" where
  "promise_all start resume xs w =
     (let (started, w1) = for_await (\<lambda>(index, x). start index x) (zip [0..<length xs] xs) w;
          order = firing_order (map fst started);
          (finished, w2) = for_await (\<lambda>i. resume i (snd (started ! i))) order w1
      in (map snd (sort_key fst (zip order finished)), w2))"

text \<open>\<^verbatim>\<open>Promise.allSettled\<close> reports each promise; none of the promises here can reject.\<close>

datatype 'a settled = Fulfilled 'a | Rejected string

definition promise_allSettled ::
  "(nat \<Rightarrow> 'x \<Rightarrow> 'w \<Rightarrow> (real \<times> 'c) \<times> 'w) \<Rightarrow> (nat \<Rightarrow> 'c \<Rightarrow> 'w \<Rightarrow> 'r \<times> 'w)
     \<Rightarrow> 'x list \<Rightarrow> 'w \<Rightarrow> 'r settled list \<times> 'w" where
  "promise_allSettled start resume xs w =
     (let (rs, w1) = promise_all start resume xs w in (map Fulfilled rs, w1))"

section \<open>The plugin: \<^verbatim>\<open>EVVMConfig\<close>, \<^verbatim>\<open>EVVMInstance\<close>, \<^verbatim>\<open>BenchmarkResult\<close>, \<^verbatim>\<open>EVVMPlugin\<close>\<close>

text \<open>
  The numeric fields of \<^verbatim>\<open>EVVMConfig\<close>. Its constructor fills each missing or zero
  field with the default (\<^verbatim>\<open>config.defaultConcurrency || 4\<close>), so no field of a
  configuration is zero; the string fields are never read and are left out.
\<close>

record EVVMConfig_args =
  arg_defaultTxCount :: "int option"
  arg_defaultConcurrency :: "int option"
  arg_defaultTimeout :: "int option"

record EVVMConfig =
  defaultTxCount :: int
  defaultConcurrency :: int
  defaultTimeout :: int

fun int_or :: "int option \<Rightarrow> int \<Rightarrow> int" where
  "int_or None d = d"
| "int_or (Some n) d = (if n = 0 then d else n)"

definition EVVMConfig_new :: "EVVMConfig_args \<Rightarrow> EVVMConfig" where
  "EVVMConfig_new config =
     \<lparr>defaultTxCount = int_or (arg_defaultTxCount config) 100,
      defaultConcurrency = int_or (arg_defaultConcurrency config) 4,
      defaultTimeout = int_or (arg_defaultTimeout config) 30000\<rparr>"

definition defaultEVVMConfig :: EVVMConfig where
  "defaultEVVMConfig = EVVMConfig_new
     \<lparr>arg_defaultTxCount = None, arg_defaultConcurrency = None, arg_defaultTimeout = None\<rparr>"

text \<open>
  The constructor of \<^verbatim>\<open>BenchmarkResult\<close>, called with every field given. A falsy field
  takes its default; the timestamp default reads the clock only when it is needed.
\<close>

definition BenchmarkResult_new ::
  "runtime \<Rightarrow> BenchmarkResult \<Rightarrow> 'e world_scheme \<Rightarrow> BenchmarkResult \<times> 'e world_scheme" where
  "BenchmarkResult_new rt result w =
     (let (ts, w1) = string_or_else (Some (timestamp result)) (new_Date_toISOString rt) w
      in (\<lparr>mode = string_or (Some (mode result)) ''serial'',
           totalTransactions = totalTransactions result,
           successfulTransactions = successfulTransactions result,
           failedTransactions = failedTransactions result,
           totalTimeMs = totalTimeMs result,
           averageLatencyMs = js_or_zero (averageLatencyMs result),
           tps = js_or_zero (tps result),
           totalGasUsed = totalGasUsed result,
           averageGasPerTx = averageGasPerTx result,
           errors = errors result,
           timestamp = ts\<rparr>, w1))"

text \<open>
  The constructor of \<^verbatim>\<open>EVVMInstance\<close>. The fields are set in the order of the source,
  and a default is computed, reading the streams, only for a falsy field.
\<close>

definition fresh_id :: "runtime \<Rightarrow> 'e world_scheme \<Rightarrow> string \<times> 'e world_scheme" where
  "fresh_id rt w =
     (let (t, w1) = Date_now w;
          (r, w2) = Math_random w1
      in (''evvm-'' @ dec_int t @ ''-'' @ substr 2 9 (toString_radix rt 36 r), w2))"

definition EVVMInstance_new ::
  "runtime \<Rightarrow> instance_obj \<Rightarrow> 'e world_scheme \<Rightarrow> EVVMInstance \<times> 'e world_scheme" where
  "EVVMInstance_new rt instance w =
     (let (id, w1) = string_or_else (o_id instance) (fresh_id rt) w;
          name = string_or (o_name instance) ''test-instance'';
          contractAddress = string_or (o_contractAddress instance) [];
          status = string_or (o_status instance) ''initialized'';
          (createdAt, w2) = string_or_else (o_createdAt instance) (new_Date_toISOString rt) w1;
          (lastActivity, w3) =
            string_or_else (o_lastActivity instance) (new_Date_toISOString rt) w2
      in (\<lparr>i_id = id, i_name = name, i_contractAddress = contractAddress, i_status = status,
           i_createdAt = createdAt, i_lastActivity = lastActivity\<rparr>, w3))"

text \<open>\<^verbatim>\<open>EVVMPlugin.initInstance(name)\<close>; a missing argument is \<open>None\<close>.\<close>

definition initInstance ::
  "runtime \<Rightarrow> string option \<Rightarrow> 'e world_scheme \<Rightarrow> EVVMInstance \<times> 'e world_scheme" where
  "initInstance rt name w =
     EVVMInstance_new rt
       \<lparr>o_id = None, o_name = name, o_contractAddress = None, o_status = Some ''initialized'',
        o_createdAt = None, o_lastActivity = None\<rparr> w"

text \<open>
  \<^verbatim>\<open>EVVMPlugin.deployContract(instance, contractName)\<close>. The object literal spreads the
  given instance and then sets three fields, drawing the address and reading the clock,
  before the constructor runs.
\<close>

definition deployContract ::
  "runtime \<Rightarrow> instance_obj \<Rightarrow> string \<Rightarrow> 'e world_scheme \<Rightarrow> EVVMInstance \<times> 'e world_scheme" where
  "deployContract rt instance contractName w =
     (let (r, w1) = Math_random w;
          (now, w2) = new_Date_toISOString rt w1
      in EVVMInstance_new rt
           (instance\<lparr>o_contractAddress := Some (''0x'' @ substr 2 40 (toString_radix rt 16 r)),
                     o_status := Some ''deployed'',
                     o_lastActivity := Some now\<rparr>) w2)"

subsection \<open>\<^verbatim>\<open>EVVMPlugin.runBenchmark\<close>\<close>

text \<open>The local variables \<^verbatim>\<open>errors\<close>, \<^verbatim>\<open>successfulTxs\<close> and \<^verbatim>\<open>totalGasUsed\<close>.\<close>

record tally =
  t_errors :: "string list"
  t_successfulTxs :: int
  t_totalGasUsed :: int

text \<open>
  One round of the serial loop: the delay is drawn and awaited, then the counter and the
  gas are updated. Nothing in the \<^verbatim>\<open>try\<close> block can throw, so the \<^verbatim>\<open>catch\<close> branch
  that would record an error is never taken.
\<close>

definition serial_round :: "nat \<Rightarrow> tally \<Rightarrow> 'e world_scheme \<Rightarrow> tally \<times> 'e world_scheme" where
  "serial_round i t w =
     (let (delay, w1) = Math_random w;
          (g, w2) = Math_random w1
      in (t\<lparr>t_successfulTxs := t_successfulTxs t + 1,
            t_totalGasUsed := t_totalGasUsed t + (21000 + \<lfloor>g * 1000\<rfloor>)\<rparr>, w2))"

text \<open>\<^verbatim>\<open>simulateParallelTx\<close> and \<^verbatim>\<open>simulateAsyncTx\<close>, before and after their \<^verbatim>\<open>await\<close>.\<close>

definition simulateParallelTx_start ::
  "nat \<Rightarrow> int \<Rightarrow> 'e world_scheme \<Rightarrow> (real \<times> unit) \<times> 'e world_scheme" where
  "simulateParallelTx_start k index w =
     (let (r, w1) = Math_random w in ((r * 5 + 2, ()), w1))"

definition simulateParallelTx_resume ::
  "nat \<Rightarrow> unit \<Rightarrow> 'e world_scheme \<Rightarrow> int \<times> 'e world_scheme" where
  "simulateParallelTx_resume k u w =
     (let (r, w1) = Math_random w in (18000 + \<lfloor>r * 500\<rfloor>, w1))"

definition simulateAsyncTx_start ::
  "nat \<Rightarrow> int \<Rightarrow> 'e world_scheme \<Rightarrow> (real \<times> unit) \<times> 'e world_scheme" where
  "simulateAsyncTx_start k index w =
     (let (r, w1) = Math_random w in ((r * 8 + 3, ()), w1))"

definition simulateAsyncTx_resume ::
  "nat \<Rightarrow> unit \<Rightarrow> 'e world_scheme \<Rightarrow> int \<times> 'e world_scheme" where
  "simulateAsyncTx_resume k u w =
     (let (r, w1) = Math_random w in (18000 + \<lfloor>r * 800\<rfloor>, w1))"

text \<open>
  \<^verbatim>\<open>results.forEach((result, index) => ...)\<close>: a fulfilled result counts as a success and
  adds its gas, a rejected one records \<^verbatim>\<open>Transaction ${base + index} failed: ${reason}\<close>.
\<close>

fun settle :: "int \<Rightarrow> nat \<times> int settled \<Rightarrow> tally \<Rightarrow> tally" where
  "settle base (index, Fulfilled v) t =
     t\<lparr>t_successfulTxs := t_successfulTxs t + 1, t_totalGasUsed := t_totalGasUsed t + v\<rparr>"
| "settle base (index, Rejected reason) t =
     t\<lparr>t_errors := t_errors t
          @ [''Transaction '' @ dec_int (base + int index) @ '' failed: '' @ reason]\<rparr>"

definition forEach_settle :: "int \<Rightarrow> int settled list \<Rightarrow> tally \<Rightarrow> tally" where
  "forEach_settle base results t = fold (settle base) (zip [0..<length results] results) t"

text \<open>
  One round of the loop over batches. \<^verbatim>\<open>Array.from({ length: batchTxs }, ...)\<close> has no
  elements when \<^verbatim>\<open>batchTxs\<close> is negative.
\<close>

definition parallel_round ::
  "int \<Rightarrow> int \<Rightarrow> nat \<Rightarrow> tally \<Rightarrow> 'e world_scheme \<Rightarrow> tally \<times> 'e world_scheme" where
  "parallel_round txCount batchSize batch t w =
     (let batchTxs = min batchSize (txCount - int batch * batchSize);
          indices = map (\<lambda>i. int batch * batchSize + int i) [0..<nat batchTxs];
          (results, w1) =
            promise_allSettled simulateParallelTx_start simulateParallelTx_resume indices w
      in (forEach_settle (int batch * batchSize) results t, w1))"

text \<open>
  The three branches on \<^verbatim>\<open>mode\<close>; any other mode runs nothing. In parallel mode the
  number of batches is \<^verbatim>\<open>Math.ceil(txCount / batchSize)\<close>, which is \<^verbatim>\<open>NaN\<close> for
  \<open>0 / 0\<close> and infinite for a positive count over a batch size of zero; in the latter
  case the loop over the batches does not end and the benchmark returns nothing.
\<close>

definition run_mode ::
  "EVVMConfig \<Rightarrow> string \<Rightarrow> int \<Rightarrow> tally \<Rightarrow> 'e world_scheme
     \<Rightarrow> (tally \<times> 'e world_scheme) option" where
  "run_mode config m txCount t w =
     (if m = ''serial'' then Some (for_loop serial_round [0..<nat txCount] t w)
      else if m = ''parallel'' then
        (let batchSize = min txCount (defaultConcurrency config);
             batches = js_ceil (js_div (Num (of_int txCount)) (Num (of_int batchSize)))
         in (case loop_count batches of
               None \<Rightarrow> None
             | Some n \<Rightarrow> Some (for_loop (parallel_round txCount batchSize) [0..<n] t w)))
      else if m = ''evvm-async'' then
        (let indices = map int [0..<nat txCount];
             (results, w1) =
               promise_allSettled simulateAsyncTx_start simulateAsyncTx_resume indices w
         in Some (forEach_settle 0 results t, w1))
      else Some (t, w))"

text \<open>
  \<^verbatim>\<open>runBenchmark(instance, mode, txCount = this.config.defaultTxCount)\<close>; an omitted
  count is \<open>None\<close>. The instance is not read.
\<close>

definition runBenchmark ::
  "runtime \<Rightarrow> EVVMConfig \<Rightarrow> instance_obj \<Rightarrow> string \<Rightarrow> int option \<Rightarrow> 'e world_scheme
     \<Rightarrow> (BenchmarkResult \<times> 'e world_scheme) option" where
  "runBenchmark rt config instance m txCountArg w =
     (let txCount = (case txCountArg of None \<Rightarrow> defaultTxCount config | Some n \<Rightarrow> n);
          (startTime, w1) = Date_now w
      in (case run_mode config m txCount
                 \<lparr>t_errors = [], t_successfulTxs = 0, t_totalGasUsed = 0\<rparr> w1 of
            None \<Rightarrow> None
          | Some (t, w2) \<Rightarrow>
              (let (endTime, w3) = Date_now w2;
                   totalTime = endTime - startTime;
                   successfulTxs = t_successfulTxs t;
                   tps' = js_mul (js_div (Num (of_int successfulTxs)) (Num (of_int totalTime)))
                            (Num 1000);
                   averageLatency = js_div (Num (of_int totalTime)) (Num (of_int successfulTxs));
                   (now, w4) = new_Date_toISOString rt w3
               in Some (BenchmarkResult_new rt
                    \<lparr>mode = m,
                     totalTransactions = txCount,
                     successfulTransactions = successfulTxs,
                     failedTransactions = txCount - successfulTxs,
                     totalTimeMs = totalTime,
                     averageLatencyMs = averageLatency,
                     tps = tps',
                     totalGasUsed = t_totalGasUsed t,
                     averageGasPerTx =
                       \<lfloor>of_int (t_totalGasUsed t)
                          / (of_int (if successfulTxs = 0 then 1 else successfulTxs) :: real)\<rfloor>,
                     errors = t_errors t,
                     timestamp = now\<rparr> w4))))"

text \<open>A runtime and a world to evaluate the definitions on.\<close>

definition demo_runtime :: runtime where
  "demo_runtime = \<lparr>toString_radix = (\<lambda>radix r. ''0.8c''),
                    toISOString = (\<lambda>t. ''T'' @ dec_int t), cwd = ''/work''\<rparr>"

definition demo_world :: world where
  "demo_world = \<lparr>random_src = sconst (1 / 2), clock = siterate (\<lambda>t. t + 10) 1000,
                  files = []\<rparr>"

section \<open>The mock clients\<close>

text \<open>
  \<^verbatim>\<open>chunkArray\<close> of \<^verbatim>\<open>EVVMClient\<close> and \<^verbatim>\<open>createConflictFreeGroups\<close> of
  \<^verbatim>\<open>ArcologyClient\<close> are the same loop,
  \<^verbatim>\<open>for (let i = 0; i < array.length; i += size) chunks.push(array.slice(i, i + size))\<close>.
  With a size that is not positive the index never passes the length of a non-empty array
  and the loop does not end: the value is then \<open>None\<close>.
\<close>

partial_function (option) chunk_loop ::
  "'a list \<Rightarrow> int \<Rightarrow> int \<Rightarrow> 'a list list \<Rightarrow> 'a list list option" where
  "chunk_loop array size' i chunks =
     (if i < int (length array)
      then chunk_loop array size' (i + size') (chunks @ [js_slice array i (i + size')])
      else Some chunks)"

definition chunkArray :: "'a list \<Rightarrow> int \<Rightarrow> 'a list list option" where
  "chunkArray array size' = chunk_loop array size' 0 []"

definition createConflictFreeGroups :: "'a list \<Rightarrow> int \<Rightarrow> 'a list list option" where
  "createConflictFreeGroups array groupSize = chunk_loop array groupSize 0 []"

text \<open>
  The same callbacks awaited one after the other, as a \<^verbatim>\<open>for\<close> loop with
  \<^verbatim>\<open>await\<close> in its body would run them: each callback runs from its start to its end
  before the next one starts. This is the sequential reading that the parallel paths are
  compared with.
\<close>

definition await_each ::
  "(nat \<Rightarrow> 'x \<Rightarrow> 'w \<Rightarrow> (real \<times> 'c) \<times> 'w) \<Rightarrow> (nat \<Rightarrow> 'c \<Rightarrow> 'w \<Rightarrow> 'r \<times> 'w)
     \<Rightarrow> 'x list \<Rightarrow> 'w \<Rightarrow> 'r list \<times> 'w" where
  "await_each start resume xs w =
     for_await (\<lambda>(index, x) w. (let ((delay, c), w1) = start index x w in resume index c w1))
       (zip [0..<length xs] xs) w"

subsection \<open>\<^verbatim>\<open>ArcologyClient\<close>\<close>

record ArcologyTransaction =
  at_to :: string
  at_data :: string
  at_value :: "string option"
  at_gasLimit :: "string option"
  at_nonce :: "int option"

record ArcologyExecutionResult =
  success :: bool
  transactionHash :: "string option"
  gasUsed :: "int option"
  error :: "string option"
  executionTime :: "int option"
  parallelGroup :: "nat option"

datatype arcology_mode = Serial | Parallel

record ArcologyBenchmarkResult =
  a_mode :: arcology_mode
  a_totalTransactions :: int
  a_successfulTransactions :: int
  a_failedTransactions :: int
  a_totalTimeMs :: int
  a_averageLatencyMs :: jsnum
  a_tps :: jsnum
  a_totalGasUsed :: int
  a_averageGasPerTx :: int
  a_parallelGroups :: int
  a_errors :: "string list"
  a_timestamp :: string

text \<open>
  The body of the loop of \<^verbatim>\<open>executeSerial\<close> for transaction \<open>i\<close>. The delay
  \<^verbatim>\<open>Math.random() * 50 + 20\<close> is drawn and awaited; the next draw decides success.
  \<^verbatim>\<open>delay\<close> cannot throw, so the \<^verbatim>\<open>catch\<close> branch is never taken.
\<close>

definition executeSerial_tx ::
  "runtime \<Rightarrow> nat \<times> ArcologyTransaction \<Rightarrow> 'e world_scheme
     \<Rightarrow> ArcologyExecutionResult \<times> 'e world_scheme" where
  "executeSerial_tx rt itx w =
     (let (txStartTime, w1) = Date_now w;
          (delay, w2) = Math_random w1;
          (s, w3) = Math_random w2
      in if s > 0.05 then
           (let (h, w4) = Math_random w3;
                (g, w5) = Math_random w4;
                (now, w6) = Date_now w5
            in (\<lparr>success = True,
                 transactionHash = Some (''0x'' @ substr 2 64 (toString_radix rt 16 h)),
                 gasUsed = Some (21000 + \<lfloor>g * 1000\<rfloor>),
                 error = None,
                 executionTime = Some (now - txStartTime),
                 parallelGroup = None\<rparr>, w6))
         else
           (let (now, w4) = Date_now w3
            in (\<lparr>success = False,
                 transactionHash = None,
                 gasUsed = None,
                 error = Some (''Transaction '' @ dec_nat (fst itx) @ '' failed: Mock error''),
                 executionTime = Some (now - txStartTime),
                 parallelGroup = None\<rparr>, w4)))"

definition executeSerial ::
  "runtime \<Rightarrow> ArcologyTransaction list \<Rightarrow> 'e world_scheme
     \<Rightarrow> ArcologyExecutionResult list \<times> 'e world_scheme" where
  "executeSerial rt transactions w =
     (let (startTime, w1) = Date_now w;
          (results, w2) =
            for_await (executeSerial_tx rt) (zip [0..<length transactions] transactions) w1;
          (endTime, w3) = Date_now w2
      in (results, w3))"

text \<open>
  The callback of \<^verbatim>\<open>group.map\<close> in \<^verbatim>\<open>executeParallel\<close>: up to its \<^verbatim>\<open>await\<close> it reads
  the clock and draws the delay \<^verbatim>\<open>Math.random() * 15 + 5\<close>; after it, the next draw
  decides success.
\<close>

definition executeParallel_tx_start ::
  "nat \<Rightarrow> ArcologyTransaction \<Rightarrow> 'e world_scheme \<Rightarrow> (real \<times> int) \<times> 'e world_scheme" where
  "executeParallel_tx_start txIndex tx w =
     (let (txStartTime, w1) = Date_now w;
          (r, w2) = Math_random w1
      in ((r * 15 + 5, txStartTime), w2))"

definition executeParallel_tx_resume ::
  "runtime \<Rightarrow> nat \<Rightarrow> nat \<Rightarrow> int \<Rightarrow> 'e world_scheme
     \<Rightarrow> ArcologyExecutionResult \<times> 'e world_scheme" where
  "executeParallel_tx_resume rt groupIndex txIndex txStartTime w =
     (let (s, w1) = Math_random w
      in if s > 0.01 then
           (let (h, w2) = Math_random w1;
                (g, w3) = Math_random w2;
                (now, w4) = Date_now w3
            in (\<lparr>success = True,
                 transactionHash = Some (''0x'' @ substr 2 64 (toString_radix rt 16 h)),
                 gasUsed = Some (15000 + \<lfloor>g * 300\<rfloor>),
                 error = None,
                 executionTime = Some (now - txStartTime),
                 parallelGroup = Some groupIndex\<rparr>, w4))
         else
           (let (now, w2) = Date_now w1
            in (\<lparr>success = False,
                 transactionHash = None,
                 gasUsed = None,
                 error = Some (''Transaction '' @ dec_nat txIndex @ '' in group ''
                           @ dec_nat groupIndex @ '' failed: Conflict detected''),
                 executionTime = Some (now - txStartTime),
                 parallelGroup = Some groupIndex\<rparr>, w2)))"

text \<open>One round of the loop over the groups; both clock readings only feed the log.\<close>

definition executeParallel_group ::
  "runtime \<Rightarrow> nat \<times> ArcologyTransaction list \<Rightarrow> 'e world_scheme
     \<Rightarrow> ArcologyExecutionResult list \<times> 'e world_scheme" where
  "executeParallel_group rt g w =
     (let (groupStartTime, w1) = Date_now w;
          (groupResults, w2) =
            promise_all executeParallel_tx_start (executeParallel_tx_resume rt (fst g)) (snd g) w1;
          (groupEnd, w3) = Date_now w2
      in (groupResults, w3))"

text \<open>
  \<^verbatim>\<open>executeParallel(transactions, concurrency = 4)\<close>; an omitted concurrency is \<open>None\<close>.
\<close>

definition executeParallel ::
  "runtime \<Rightarrow> ArcologyTransaction list \<Rightarrow> int option \<Rightarrow> 'e world_scheme
     \<Rightarrow> (ArcologyExecutionResult list \<times> 'e world_scheme) option" where
  "executeParallel rt transactions concurrency w =
     (let (startTime, w1) = Date_now w
      in (case createConflictFreeGroups transactions
                 (case concurrency of None \<Rightarrow> 4 | Some c \<Rightarrow> c) of
            None \<Rightarrow> None
          | Some groups \<Rightarrow>
              (let (results, w2) =
                     for_await (executeParallel_group rt) (zip [0..<length groups] groups) w1;
                   (endTime, w3) = Date_now w2
               in Some (concat results, w3))))"

text \<open>
  The sequential reading of \<^verbatim>\<open>executeParallel\<close>: the same groups and the same callback,
  awaited one transaction after the other.
\<close>

definition executeParallel_group_sequential ::
  "runtime \<Rightarrow> nat \<times> ArcologyTransaction list \<Rightarrow> 'e world_scheme
     \<Rightarrow> ArcologyExecutionResult list \<times> 'e world_scheme" where
  "executeParallel_group_sequential rt g w =
     (let (groupStartTime, w1) = Date_now w;
          (groupResults, w2) =
            await_each executeParallel_tx_start (executeParallel_tx_resume rt (fst g)) (snd g) w1;
          (groupEnd, w3) = Date_now w2
      in (groupResults, w3))"

definition executeParallel_sequential ::
  "runtime \<Rightarrow> ArcologyTransaction list \<Rightarrow> int option \<Rightarrow> 'e world_scheme
     \<Rightarrow> (ArcologyExecutionResult list \<times> 'e world_scheme) option" where
  "executeParallel_sequential rt transactions concurrency w =
     (let (startTime, w1) = Date_now w
      in (case createConflictFreeGroups transactions
                 (case concurrency of None \<Rightarrow> 4 | Some c \<Rightarrow> c) of
            None \<Rightarrow> None
          | Some groups \<Rightarrow>
              (let (results, w2) =
                     for_await (executeParallel_group_sequential rt)
                       (zip [0..<length groups] groups) w1;
                   (endTime, w3) = Date_now w2
               in Some (concat results, w3))))"

text \<open>
  \<^verbatim>\<open>calculateBenchmarkResult\<close>. \<^verbatim>\<open>r.executionTime || 0\<close> and
  \<^verbatim>\<open>BigInt(r.gasUsed || "0")\<close> read a missing field as 0; the division of two
  \<^verbatim>\<open>bigint\<close>s rounds towards zero.
\<close>

fun int_or_zero :: "int option \<Rightarrow> int" where
  "int_or_zero None = 0"
| "int_or_zero (Some n) = n"

definition bigint_div :: "int \<Rightarrow> int \<Rightarrow> int" where
  "bigint_div a b = sgn a * sgn b * (\<bar>a\<bar> div \<bar>b\<bar>)"

definition calculateBenchmarkResult ::
  "runtime \<Rightarrow> arcology_mode \<Rightarrow> ArcologyExecutionResult list \<Rightarrow> int \<Rightarrow> 'e world_scheme
     \<Rightarrow> ArcologyBenchmarkResult \<times> 'e world_scheme" where
  "calculateBenchmarkResult rt m results totalTransactions' w =
     (let successfulResults = filter (\<lambda>r. success r) results;
          failedResults = filter (\<lambda>r. \<not> success r) results;
          totalTime = foldl (\<lambda>sum r. sum + int_or_zero (executionTime r)) 0 results;
          averageLatency = js_div (Num (of_int totalTime)) (Num (of_nat (length results)));
          tps' = js_mul (js_div (Num (of_nat (length successfulResults))) (Num (of_int totalTime)))
                   (Num 1000);
          totalGasUsed' = foldl (\<lambda>sum r. sum + int_or_zero (gasUsed r)) 0 successfulResults;
          averageGasPerTx' =
            bigint_div totalGasUsed'
              (if length successfulResults = 0 then 1 else int (length successfulResults));
          parallelGroups = (if m = Parallel then \<lceil>of_int totalTransactions' / (4 :: real)\<rceil> else 1);
          (now, w1) = new_Date_toISOString rt w
      in (\<lparr>a_mode = m,
           a_totalTransactions = totalTransactions',
           a_successfulTransactions = int (length successfulResults),
           a_failedTransactions = int (length failedResults),
           a_totalTimeMs = totalTime,
           a_averageLatencyMs = averageLatency,
           a_tps = tps',
           a_totalGasUsed = totalGasUsed',
           a_averageGasPerTx = averageGasPerTx',
           a_parallelGroups = parallelGroups,
           a_errors = map (\<lambda>r. string_or (error r) ''Unknown error'') failedResults,
           a_timestamp = now\<rparr>, w1))"

record comparison =
  tpsImprovement :: jsnum
  latencyImprovement :: jsnum
  gasEfficiency :: jsnum

record arcology_benchmark =
  ab_serial :: ArcologyBenchmarkResult
  ab_parallel :: ArcologyBenchmarkResult
  ab_comparison :: comparison

text \<open>\<^verbatim>\<open>ArcologyClient.runBenchmark(transactions, concurrency = 4)\<close>\<close>

definition Arcology_runBenchmark ::
  "runtime \<Rightarrow> ArcologyTransaction list \<Rightarrow> int option \<Rightarrow> 'e world_scheme
     \<Rightarrow> (arcology_benchmark \<times> 'e world_scheme) option" where
  "Arcology_runBenchmark rt transactions concurrency w =
     (let (serialResults, w1) = executeSerial rt transactions w;
          (serialBenchmark, w2) =
            calculateBenchmarkResult rt Serial serialResults (int (length transactions)) w1
      in (case executeParallel rt transactions concurrency w2 of
            None \<Rightarrow> None
          | Some (parallelResults, w3) \<Rightarrow>
              (let (parallelBenchmark, w4) =
                     calculateBenchmarkResult rt Parallel parallelResults
                       (int (length transactions)) w3;
                   c = \<lparr>tpsImprovement =
                          js_mul (js_div (js_sub (a_tps parallelBenchmark) (a_tps serialBenchmark))
                                    (a_tps serialBenchmark)) (Num 100),
                        latencyImprovement =
                          js_mul (js_div (js_sub (a_averageLatencyMs serialBenchmark)
                                            (a_averageLatencyMs parallelBenchmark))
                                    (a_averageLatencyMs serialBenchmark)) (Num 100),
                        gasEfficiency =
                          js_div (Num (of_int (a_totalGasUsed serialBenchmark)))
                            (Num (of_int (a_totalGasUsed parallelBenchmark)))\<rparr>
               in Some (\<lparr>ab_serial = serialBenchmark, ab_parallel = parallelBenchmark,
                         ab_comparison = c\<rparr>, w4))))"

subsection \<open>\<^verbatim>\<open>EVVMClient\<close>\<close>

record EVVMTransaction =
  et_to :: string
  et_data :: string
  et_value :: "string option"
  et_gasLimit :: "string option"
  et_nonce :: "int option"
  et_async :: "bool option"

record EVVMExecutionResult =
  e_success :: bool
  e_transactionHash :: "string option"
  e_gasUsed :: "int option"
  e_error :: "string option"
  e_logs :: "string list option"

text \<open>
  \<^verbatim>\<open>executeTransaction(instanceId, transaction)\<close>, before and after its \<^verbatim>\<open>await\<close>. It
  draws the delay \<^verbatim>\<open>Math.random() * 80 + 40\<close>; after the delay the next draw decides
  success. Neither argument is read.
\<close>

definition executeTransaction_start ::
  "string \<Rightarrow> EVVMTransaction \<Rightarrow> 'e world_scheme \<Rightarrow> (real \<times> unit) \<times> 'e world_scheme" where
  "executeTransaction_start instanceId transaction w =
     (let (r, w1) = Math_random w in ((r * 80 + 40, ()), w1))"

definition executeTransaction_resume ::
  "runtime \<Rightarrow> unit \<Rightarrow> 'e world_scheme \<Rightarrow> EVVMExecutionResult \<times> 'e world_scheme" where
  "executeTransaction_resume rt u w =
     (let (s, w1) = Math_random w
      in if s > 0.03 then
           (let (h, w2) = Math_random w1;
                (g, w3) = Math_random w2
            in (\<lparr>e_success = True,
                 e_transactionHash = Some (''0x'' @ substr 2 64 (toString_radix rt 16 h)),
                 e_gasUsed = Some (18000 + \<lfloor>g * 800\<rfloor>),
                 e_error = None,
                 e_logs = Some []\<rparr>, w3))
         else
           (\<lparr>e_success = False,
             e_transactionHash = None,
             e_gasUsed = None,
             e_error = Some ''Transaction failed: Execution function error'',
             e_logs = None\<rparr>, w1))"

text \<open>
  The callback of \<^verbatim>\<open>chunk.map\<close>:
  \<^verbatim>\<open>{ ...tx, async: true, nonce: tx.nonce || index }\<close>, handed to
  \<^verbatim>\<open>executeTransaction\<close>. A missing nonce and the nonce 0 are falsy.
\<close>

definition asyncTx :: "nat \<Rightarrow> EVVMTransaction \<Rightarrow> EVVMTransaction" where
  "asyncTx index tx =
     tx\<lparr>et_async := Some True,
        et_nonce := Some (case et_nonce tx of None \<Rightarrow> int index
                          | Some n \<Rightarrow> if n = 0 then int index else n)\<rparr>"

definition executeParallelTransactions_chunk ::
  "runtime \<Rightarrow> string \<Rightarrow> EVVMTransaction list \<Rightarrow> 'e world_scheme
     \<Rightarrow> EVVMExecutionResult list \<times> 'e world_scheme" where
  "executeParallelTransactions_chunk rt instanceId chunk w =
     promise_all (\<lambda>index tx. executeTransaction_start instanceId (asyncTx index tx))
       (\<lambda>index. executeTransaction_resume rt) chunk w"

text \<open>
  \<^verbatim>\<open>executeParallelTransactions(instanceId, transactions, concurrency = 4)\<close>
\<close>

definition executeParallelTransactions ::
  "runtime \<Rightarrow> string \<Rightarrow> EVVMTransaction list \<Rightarrow> int option \<Rightarrow> 'e world_scheme
     \<Rightarrow> (EVVMExecutionResult list \<times> 'e world_scheme) option" where
  "executeParallelTransactions rt instanceId transactions concurrency w =
     (case chunkArray transactions (case concurrency of None \<Rightarrow> 4 | Some c \<Rightarrow> c) of
        None \<Rightarrow> None
      | Some chunks \<Rightarrow>
          (let (results, w1) =
                 for_await (executeParallelTransactions_chunk rt instanceId) chunks w
           in Some (concat results, w1)))"

text \<open>The sequential reading of \<^verbatim>\<open>executeParallelTransactions\<close>.\<close>

definition executeParallelTransactions_chunk_sequential ::
  "runtime \<Rightarrow> string \<Rightarrow> EVVMTransaction list \<Rightarrow> 'e world_scheme
     \<Rightarrow> EVVMExecutionResult list \<times> 'e world_scheme" where
  "executeParallelTransactions_chunk_sequential rt instanceId chunk w =
     await_each (\<lambda>index tx. executeTransaction_start instanceId (asyncTx index tx))
       (\<lambda>index. executeTransaction_resume rt) chunk w"

definition executeParallelTransactions_sequential ::
  "runtime \<Rightarrow> string \<Rightarrow> EVVMTransaction list \<Rightarrow> int option \<Rightarrow> 'e world_scheme
     \<Rightarrow> (EVVMExecutionResult list \<times> 'e world_scheme) option" where
  "executeParallelTransactions_sequential rt instanceId transactions concurrency w =
     (case chunkArray transactions (case concurrency of None \<Rightarrow> 4 | Some c \<Rightarrow> c) of
        None \<Rightarrow> None
      | Some chunks \<Rightarrow>
          (let (results, w1) =
                 for_await (executeParallelTransactions_chunk_sequential rt instanceId) chunks w
           in Some (concat results, w1)))"

text \<open>Inputs to evaluate the definitions on.\<close>

definition constant_world :: "real \<Rightarrow> world" where
  "constant_world x = \<lparr>random_src = sconst x, clock = siterate (\<lambda>t. t + 10) 1000,
                        files = []\<rparr>"

definition demo_instance :: instance_obj where
  "demo_instance = obj_of \<lparr>i_id = ''evvm-1'', i_name = ''demo'', i_contractAddress = [],
     i_status = ''initialized'', i_createdAt = ''T1'', i_lastActivity = ''T1''\<rparr>"

definition demo_tx :: ArcologyTransaction where
  "demo_tx = \<lparr>at_to = ''0x01'', at_data = ''0x'', at_value = None, at_gasLimit = None,
               at_nonce = None\<rparr>"

section \<open>The command line\<close>

subsection \<open>The calls of \<^verbatim>\<open>fs-extra\<close>\<close>

text \<open>
  An error thrown by the program itself is \<open>Error\<close> with its message; a failed parse of a
  file is \<open>SyntaxError\<close>; a failed system call is \<open>SystemError\<close> with its code and path;
  reading a property of \<^verbatim>\<open>null\<close> is \<open>TypeError\<close> with the name of the property.
\<close>

datatype js_error = Error string | SyntaxError string | SystemError string string | TypeError string

definition pathExists :: "string \<Rightarrow> 'e world_scheme \<Rightarrow> bool" where
  "pathExists p w \<longleftrightarrow> map_of (files w) p \<noteq> None"

definition readJson :: "string \<Rightarrow> 'e world_scheme \<Rightarrow> js_error + json_file" where
  "readJson p w =
     (case map_of (files w) p of
        None \<Rightarrow> Inl (SystemError ''ENOENT'' p)
      | Some Directory \<Rightarrow> Inl (SystemError ''EISDIR'' p)
      | Some (File (NotJson text)) \<Rightarrow> Inl (SyntaxError p)
      | Some (File j) \<Rightarrow> Inr j)"

text \<open>
  The directory that holds a normalised path, and the directories above a normalised
  path, the outermost first.
\<close>

definition parent :: "string \<Rightarrow> string" where
  "parent p =
     (let segs = split_on CHR ''/'' p;
          d = intercalate ''/'' (butlast segs)
      in if length segs \<le> 1 then ''.'' else if d = [] then ''/'' else d)"

definition ancestors :: "string \<Rightarrow> string list" where
  "ancestors p =
     (let segs = split_on CHR ''/'' p
      in map (\<lambda>k. let d = intercalate ''/'' (take k segs) in if d = [] then ''/'' else d)
           [1..<length segs])"

fun is_file :: "node option \<Rightarrow> bool" where
  "is_file (Some (File j)) = True"
| "is_file _ = False"

text \<open>
  \<^verbatim>\<open>fs.writeJson\<close> replaces a file, and it creates one only inside a directory that
  exists.
\<close>

definition writeJson ::
  "string \<Rightarrow> json_file \<Rightarrow> 'e world_scheme \<Rightarrow> (js_error + unit) \<times> 'e world_scheme" where
  "writeJson p j w =
     (case map_of (files w) p of
        Some Directory \<Rightarrow> (Inl (SystemError ''EISDIR'' p), w)
      | Some (File old) \<Rightarrow> (Inr (), w\<lparr>files := AList.update p (File j) (files w)\<rparr>)
      | None \<Rightarrow>
          (case map_of (files w) (parent p) of
             Some Directory \<Rightarrow> (Inr (), w\<lparr>files := AList.update p (File j) (files w)\<rparr>)
           | Some (File other) \<Rightarrow> (Inl (SystemError ''ENOTDIR'' p), w)
           | None \<Rightarrow> (Inl (SystemError ''ENOENT'' p), w)))"

text \<open>
  \<^verbatim>\<open>fs.ensureDir\<close> makes the directory and every missing directory above it; it makes
  none of them when a file is in the way.
\<close>

definition make_directory :: "(string \<times> node) list \<Rightarrow> string \<Rightarrow> (string \<times> node) list" where
  "make_directory fs p = (case map_of fs p of None \<Rightarrow> AList.update p Directory fs | Some n \<Rightarrow> fs)"

definition ensureDir :: "string \<Rightarrow> 'e world_scheme \<Rightarrow> (js_error + unit) \<times> 'e world_scheme" where
  "ensureDir d w =
     (if list_ex (\<lambda>a. is_file (map_of (files w) a)) (ancestors d)
      then (Inl (SystemError ''ENOTDIR'' d), w)
      else if is_file (map_of (files w) d) then (Inl (SystemError ''EEXIST'' d), w)
      else (Inr (), w\<lparr>files := foldl make_directory (files w) (ancestors d @ [d])\<rparr>))"

text \<open>The names of the entries directly inside a directory.\<close>

definition readdir :: "string \<Rightarrow> 'e world_scheme \<Rightarrow> js_error + string list" where
  "readdir d w =
     (case map_of (files w) d of
        None \<Rightarrow> Inl (SystemError ''ENOENT'' d)
      | Some (File j) \<Rightarrow> Inl (SystemError ''ENOTDIR'' d)
      | Some Directory \<Rightarrow>
          Inr (remdups
                (map (\<lambda>p. drop (length d + 1) p)
                   (filter (\<lambda>p. prefix (d @ ''/'') p \<and> CHR ''/'' \<notin> set (drop (length d + 1) p)
                                \<and> drop (length d + 1) p \<noteq> [])
                      (map fst (files w))))))"

text \<open>
  The fields of an instance in a parsed file. A report has none of them, and neither has
  the spread \<^verbatim>\<open>{...null}\<close>. Field values other than strings are not modelled.
\<close>

fun instance_fields :: "json_file \<Rightarrow> instance_obj" where
  "instance_fields (JInstance ob) = ob"
| "instance_fields _ = \<lparr>o_id = None, o_name = None, o_contractAddress = None, o_status = None,
                         o_createdAt = None, o_lastActivity = None\<rparr>"

text \<open>\<^verbatim>\<open>`${x}`\<close> on a string that may be missing.\<close>

fun template_string :: "string option \<Rightarrow> string" where
  "template_string None = ''undefined''"
| "template_string (Some s) = s"

subsection \<open>The actions\<close>

text \<open>
  \<^verbatim>\<open>path.join(process.cwd(), "instances")\<close> and
  \<^verbatim>\<open>path.join(instancesDir, `${instanceId}.json`)\<close>, and the same for the results.
\<close>

definition instancesDir :: "runtime \<Rightarrow> string" where
  "instancesDir rt = path_join [cwd rt, ''instances'']"

definition resultsDir :: "runtime \<Rightarrow> string" where
  "resultsDir rt = path_join [cwd rt, ''benchmark-results'']"

definition instanceFile :: "runtime \<Rightarrow> string \<Rightarrow> string" where
  "instanceFile rt instanceId = path_join [instancesDir rt, instanceId @ ''.json'']"

definition resultsFile :: "runtime \<Rightarrow> string \<Rightarrow> int \<Rightarrow> string" where
  "resultsFile rt id' now = path_join [resultsDir rt, id' @ ''-'' @ dec_int now @ ''.json'']"

text \<open>
  \<^verbatim>\<open>evvmPlugin.deployContract\<close> on what \<^verbatim>\<open>fs.readJson\<close> returned. The spread of
  \<^verbatim>\<open>null\<close> is the empty object, so the instance is built from it; the log line then
  reads \<^verbatim>\<open>instance.name\<close>, which throws when the value is \<^verbatim>\<open>null\<close>.
\<close>

definition deployContract_parsed ::
  "runtime \<Rightarrow> json_file \<Rightarrow> string \<Rightarrow> 'e world_scheme
     \<Rightarrow> (js_error + EVVMInstance) \<times> 'e world_scheme" where
  "deployContract_parsed rt j contractName w =
     (let (deployedInstance, w1) = deployContract rt (instance_fields j) contractName w
      in (case j of
            JNull \<Rightarrow> (Inl (TypeError ''name''), w1)
          | _ \<Rightarrow> (Inr deployedInstance, w1)))"

text \<open>
  The \<^verbatim>\<open>try\<close> block of each action. The commander file and the task file hold the same
  blocks; they differ in the \<^verbatim>\<open>catch\<close> block only. A result of \<open>None\<close> means that the
  action does not return (a benchmark that does not end).
\<close>

definition init_body ::
  "runtime \<Rightarrow> string \<Rightarrow> 'e world_scheme \<Rightarrow> (js_error + EVVMInstance) \<times> 'e world_scheme" where
  "init_body rt name w =
     (let (instance, w1) = initInstance rt (Some name) w
      in (case ensureDir (instancesDir rt) w1 of
            (Inl e, w2) \<Rightarrow> (Inl e, w2)
          | (Inr u, w2) \<Rightarrow>
              (case writeJson (instanceFile rt (i_id instance)) (JInstance (obj_of instance)) w2 of
                 (Inl e, w3) \<Rightarrow> (Inl e, w3)
               | (Inr u, w3) \<Rightarrow> (Inr instance, w3))))"

definition deploy_body ::
  "runtime \<Rightarrow> string \<Rightarrow> string \<Rightarrow> 'e world_scheme
     \<Rightarrow> (js_error + EVVMInstance) \<times> 'e world_scheme" where
  "deploy_body rt instanceId contract w =
     (if \<not> pathExists (instanceFile rt instanceId) w
      then (Inl (Error (''Instance '' @ instanceId @ '' not found'')), w)
      else
        (case readJson (instanceFile rt instanceId) w of
           Inl e \<Rightarrow> (Inl e, w)
         | Inr j \<Rightarrow>
             (case deployContract_parsed rt j contract w of
                (Inl e, w1) \<Rightarrow> (Inl e, w1)
              | (Inr deployedInstance, w1) \<Rightarrow>
                  (case writeJson (instanceFile rt instanceId)
                          (JInstance (obj_of deployedInstance)) w1 of
                     (Inl e, w2) \<Rightarrow> (Inl e, w2)
                   | (Inr u, w2) \<Rightarrow> (Inr deployedInstance, w2)))))"

text \<open>
  The three guarded calls of \<^verbatim>\<open>evvmPlugin.runBenchmark\<close>, each taken when the mode is
  \<^verbatim>\<open>all\<close> or names it. \<^verbatim>\<open>evvmPlugin\<close> is built with the default configuration.
\<close>

definition run_if ::
  "bool \<Rightarrow> runtime \<Rightarrow> instance_obj \<Rightarrow> string \<Rightarrow> int \<Rightarrow> BenchmarkResult list \<Rightarrow> 'e world_scheme
     \<Rightarrow> (BenchmarkResult list \<times> 'e world_scheme) option" where
  "run_if cond rt instance m txCount results w =
     (if cond then
        (case runBenchmark rt defaultEVVMConfig instance m (Some txCount) w of
           None \<Rightarrow> None
         | Some (r, w1) \<Rightarrow> Some (results @ [r], w1))
      else Some (results, w))"

definition run_selected ::
  "runtime \<Rightarrow> instance_obj \<Rightarrow> string \<Rightarrow> int \<Rightarrow> 'e world_scheme
     \<Rightarrow> (BenchmarkResult list \<times> 'e world_scheme) option" where
  "run_selected rt instance m txCount w =
     (case run_if (m = ''all'' \<or> m = ''serial'') rt instance ''serial'' txCount [] w of
        None \<Rightarrow> None
      | Some (rs1, w1) \<Rightarrow>
          (case run_if (m = ''all'' \<or> m = ''parallel'') rt instance ''parallel'' txCount rs1 w1 of
             None \<Rightarrow> None
           | Some (rs2, w2) \<Rightarrow>
               run_if (m = ''all'' \<or> m = ''evvm-async'') rt instance ''evvm-async'' txCount
                 rs2 w2))"

text \<open>
  The count is the integer that \<^verbatim>\<open>parseInt\<close> reads from the option; an option that is
  not a number is not modelled. \<^verbatim>\<open>runBenchmark\<close> does not look at the instance; the
  name of the results file reads \<^verbatim>\<open>instance.id\<close>, which throws when the file held
  \<^verbatim>\<open>null\<close>, before the clock is read.
\<close>

definition benchmark_body ::
  "runtime \<Rightarrow> string \<Rightarrow> string \<Rightarrow> int \<Rightarrow> bool \<Rightarrow> 'e world_scheme
     \<Rightarrow> ((js_error + BenchmarkResult list) \<times> 'e world_scheme) option" where
  "benchmark_body rt instanceId m txCount demo w =
     (if \<not> pathExists (instanceFile rt instanceId) w
      then Some (Inl (Error (''Instance '' @ instanceId @ '' not found'')), w)
      else
        (case readJson (instanceFile rt instanceId) w of
           Inl e \<Rightarrow> Some (Inl e, w)
         | Inr j \<Rightarrow>
             (case run_selected rt (instance_fields j) m txCount w of
                None \<Rightarrow> None
              | Some (results, w1) \<Rightarrow>
                  (case ensureDir (resultsDir rt) w1 of
                     (Inl e, w2) \<Rightarrow> Some (Inl e, w2)
                   | (Inr u, w2) \<Rightarrow>
                       (case j of
                          JNull \<Rightarrow> Some (Inl (TypeError ''id''), w2)
                        | _ \<Rightarrow>
                            (let (now, w3) = Date_now w2;
                                 (ts, w4) = new_Date_toISOString rt w3
                             in (case writeJson
                                        (resultsFile rt (template_string (o_id (instance_fields j)))
                                           now)
                                        (JReport \<lparr>r_instanceId = o_id (instance_fields j),
                                            r_config = \<lparr>rc_txCount = txCount, rc_mode = m,
                                                         rc_demo = demo\<rparr>,
                                            r_results = results, r_timestamp = ts\<rparr>) w4 of
                                   (Inl e, w5) \<Rightarrow> Some (Inl e, w5)
                                 | (Inr u, w5) \<Rightarrow> Some (Inr results, w5))))))))"

text \<open>
  \<^verbatim>\<open>list\<close> has no \<^verbatim>\<open>try\<close> block. Without the directory it reports that there are no
  instances and returns nothing. The files are read together and the first failure, in the
  order of the directory, is the one reported. The instances are then printed, which reads
  \<^verbatim>\<open>instance.name\<close> and throws at a file that held \<^verbatim>\<open>null\<close>.
\<close>

fun read_all :: "string list \<Rightarrow> 'e world_scheme \<Rightarrow> js_error + json_file list" where
  "read_all [] w = Inr []"
| "read_all (p # ps) w =
     (case readJson p w of
        Inl e \<Rightarrow> Inl e
      | Inr j \<Rightarrow> (case read_all ps w of Inl e \<Rightarrow> Inl e | Inr js \<Rightarrow> Inr (j # js)))"

definition list_body ::
  "runtime \<Rightarrow> 'e world_scheme \<Rightarrow> (js_error + instance_obj list option) \<times> 'e world_scheme" where
  "list_body rt w =
     (if \<not> pathExists (instancesDir rt) w then (Inr None, w)
      else
        (case readdir (instancesDir rt) w of
           Inl e \<Rightarrow> (Inl e, w)
         | Inr instanceFiles \<Rightarrow>
             (case read_all
                     (map (\<lambda>file. path_join [instancesDir rt, file])
                        (filter (\<lambda>file. suffix ''.json'' file) instanceFiles)) w of
                Inl e \<Rightarrow> (Inl e, w)
              | Inr instances \<Rightarrow>
                  if JNull \<in> set instances then (Inl (TypeError ''name''), w)
                  else (Inr (Some (map instance_fields instances)), w))))"

definition demo_body ::
  "runtime \<Rightarrow> 'e world_scheme \<Rightarrow> ((js_error + BenchmarkResult list) \<times> 'e world_scheme) option" where
  "demo_body rt w =
     (let (instance, w1) = initInstance rt (Some ''demo-instance'') w;
          (deployedInstance, w2) = deployContract rt (obj_of instance) ''ParallelCounter'' w1
      in (case runBenchmark rt defaultEVVMConfig (obj_of deployedInstance) ''serial'' (Some 50) w2 of
            None \<Rightarrow> None
          | Some (serialResult, w3) \<Rightarrow>
              (case runBenchmark rt defaultEVVMConfig (obj_of deployedInstance) ''parallel''
                      (Some 50) w3 of
                 None \<Rightarrow> None
               | Some (parallelResult, w4) \<Rightarrow>
                   (case runBenchmark rt defaultEVVMConfig (obj_of deployedInstance)
                           ''evvm-async'' (Some 50) w4 of
                      None \<Rightarrow> None
                    | Some (evvmResult, w5) \<Rightarrow>
                        Some (Inr [serialResult, parallelResult, evvmResult], w5)))))"

subsection \<open>The commander program and the hardhat tasks\<close>

text \<open>
  What an action leaves behind: a value, or the error it threw. The commander actions
  catch the error, report it and end the process with exit code 1; the hardhat tasks
  report it and throw it again. \<^verbatim>\<open>list\<close> catches nothing in either file.
\<close>

datatype cli_output =
  Instance EVVMInstance
| Results "BenchmarkResult list"
| Instances "instance_obj list option"

datatype outcome = Returned cli_output | Exit1 js_error | Thrown js_error

text \<open>
  The parsed command line: the positional arguments and the options of \<^verbatim>\<open>benchmark\<close>.
  Commander fills in the defaults and refuses a command without its required argument
  before the action runs.
\<close>

record cli_args =
  positional :: "string list"
  opt_mode :: "string option"
  opt_txCount :: "int option"
  opt_demo :: bool

fun or_default :: "'a option \<Rightarrow> 'a \<Rightarrow> 'a" where
  "or_default None d = d"
| "or_default (Some x) d = x"

definition nth_arg :: "cli_args \<Rightarrow> nat \<Rightarrow> string option" where
  "nth_arg args k = (if k < length (positional args) then Some (positional args ! k) else None)"

definition caught :: "(js_error + cli_output) \<times> 'w \<Rightarrow> outcome \<times> 'w" where
  "caught r = (case r of (Inl e, w) \<Rightarrow> (Exit1 e, w) | (Inr v, w) \<Rightarrow> (Returned v, w))"

definition rethrown :: "(js_error + cli_output) \<times> 'w \<Rightarrow> outcome \<times> 'w" where
  "rethrown r = (case r of (Inl e, w) \<Rightarrow> (Thrown e, w) | (Inr v, w) \<Rightarrow> (Returned v, w))"

definition tagged :: "('a \<Rightarrow> cli_output) \<Rightarrow> (js_error + 'a) \<times> 'w \<Rightarrow> (js_error + cli_output) \<times> 'w" where
  "tagged f r = (case r of (Inl e, w) \<Rightarrow> (Inl e, w) | (Inr v, w) \<Rightarrow> (Inr (f v), w))"

definition missing_argument :: "string \<Rightarrow> outcome" where
  "missing_argument name = Exit1 (Error (''missing required argument '' @ name))"

text \<open>The five actions with their argument handling; \<open>handler\<close> is the \<^verbatim>\<open>catch\<close> block.\<close>

definition action_init ::
  "((js_error + cli_output) \<times> 'e world_scheme \<Rightarrow> outcome \<times> 'e world_scheme) \<Rightarrow> runtime \<Rightarrow> cli_args
     \<Rightarrow> 'e world_scheme \<Rightarrow> (outcome \<times> 'e world_scheme) option" where
  "action_init handler rt args w =
     Some (handler (tagged Instance (init_body rt (or_default (nth_arg args 0) ''test-instance'') w)))"

definition action_deploy ::
  "((js_error + cli_output) \<times> 'e world_scheme \<Rightarrow> outcome \<times> 'e world_scheme) \<Rightarrow> runtime \<Rightarrow> cli_args
     \<Rightarrow> 'e world_scheme \<Rightarrow> (outcome \<times> 'e world_scheme) option" where
  "action_deploy handler rt args w =
     (case nth_arg args 0 of
        None \<Rightarrow> Some (missing_argument ''instanceId'', w)
      | Some instanceId \<Rightarrow>
          Some (handler (tagged Instance
            (deploy_body rt instanceId (or_default (nth_arg args 1) ''ParallelCounter'') w))))"

definition action_benchmark ::
  "((js_error + cli_output) \<times> 'e world_scheme \<Rightarrow> outcome \<times> 'e world_scheme) \<Rightarrow> runtime \<Rightarrow> cli_args
     \<Rightarrow> 'e world_scheme \<Rightarrow> (outcome \<times> 'e world_scheme) option" where
  "action_benchmark handler rt args w =
     (case nth_arg args 0 of
        None \<Rightarrow> Some (missing_argument ''instanceId'', w)
      | Some instanceId \<Rightarrow>
          map_option (\<lambda>r. handler (tagged Results r))
            (benchmark_body rt instanceId (or_default (opt_mode args) ''all'')
               (or_default (opt_txCount args) 100) (opt_demo args) w))"

definition action_list ::
  "runtime \<Rightarrow> cli_args \<Rightarrow> 'e world_scheme \<Rightarrow> (outcome \<times> 'e world_scheme) option" where
  "action_list rt args w = Some (rethrown (tagged Instances (list_body rt w)))"

definition action_demo ::
  "((js_error + cli_output) \<times> 'e world_scheme \<Rightarrow> outcome \<times> 'e world_scheme) \<Rightarrow> runtime \<Rightarrow> cli_args
     \<Rightarrow> 'e world_scheme \<Rightarrow> (outcome \<times> 'e world_scheme) option" where
  "action_demo handler rt args w =
     map_option (\<lambda>r. handler (tagged Results r)) (demo_body rt w)"

text \<open>The commands registered with \<^verbatim>\<open>program.command(...)\<close>, in the order of the file.\<close>

definition program ::
  "(string \<times> (runtime \<Rightarrow> cli_args \<Rightarrow> 'e world_scheme \<Rightarrow> (outcome \<times> 'e world_scheme) option)) list"
  where
  "program =
     [(''init'', action_init caught),
      (''deploy'', action_deploy caught),
      (''benchmark'', action_benchmark caught),
      (''list'', action_list),
      (''demo'', action_demo caught)]"

text \<open>\<^verbatim>\<open>program.parse()\<close>: an unknown command ends the process with exit code 1.\<close>

definition program_parse ::
  "runtime \<Rightarrow> string \<Rightarrow> cli_args \<Rightarrow> 'e world_scheme \<Rightarrow> (outcome \<times> 'e world_scheme) option" where
  "program_parse rt command args w =
     (case map_of program command of
        None \<Rightarrow> Some (Exit1 (Error (''unknown command '' @ command)), w)
      | Some action \<Rightarrow> action rt args w)"

text \<open>The tasks registered with \<^verbatim>\<open>task(...)\<close> in the task file, in its order.\<close>

definition tasks ::
  "(string \<times> (runtime \<Rightarrow> cli_args \<Rightarrow> 'e world_scheme \<Rightarrow> (outcome \<times> 'e world_scheme) option)) list"
  where
  "tasks =
     [(''evvm:init'', action_init rethrown),
      (''evvm:deploy'', action_deploy rethrown),
      (''evvm:benchmark'', action_benchmark rethrown),
      (''evvm:list'', action_list)]"

text \<open>
  The tasks registered by \<^verbatim>\<open>src/hardhat3-plugin.mjs\<close>, in its order. Their blocks are those
  of the task file, below \<^verbatim>\<open>hre.config.paths.root\<close>, which is taken to be the working
  directory; the plugin has the demonstration as a task too and throws its error again.
\<close>

definition hardhat3_tasks ::
  "(string \<times> (runtime \<Rightarrow> cli_args \<Rightarrow> 'e world_scheme \<Rightarrow> (outcome \<times> 'e world_scheme) option)) list"
  where
  "hardhat3_tasks =
     [(''evvm:init'', action_init rethrown),
      (''evvm:deploy'', action_deploy rethrown),
      (''evvm:benchmark'', action_benchmark rethrown),
      (''evvm:list'', action_list),
      (''evvm:demo'', action_demo rethrown)]"

text \<open>
  The paths that the commander program and the task file keep their data in: the two
  directories, the directories above them, and the JSON files directly inside them.
\<close>

definition inside_json :: "string \<Rightarrow> string \<Rightarrow> bool" where
  "inside_json d p \<longleftrightarrow>
     prefix (d @ ''/'') p \<and> suffix ''.json'' p \<and> CHR ''/'' \<notin> set (drop (length d + 1) p)"

definition tracked :: "runtime \<Rightarrow> string \<Rightarrow> bool" where
  "tracked rt p \<longleftrightarrow>
     p = instancesDir rt \<or> p = resultsDir rt
     \<or> p \<in> set (ancestors (instancesDir rt)) \<or> p \<in> set (ancestors (resultsDir rt))
     \<or> inside_json (instancesDir rt) p \<or> inside_json (resultsDir rt) p"

text \<open>A disk with one instance on it, and a command line that names that instance.\<close>

definition disk_world :: world where
  "disk_world = \<lparr>random_src = sconst (1 / 2), clock = siterate (\<lambda>t. t + 10) 1000,
     files = [(''/'', Directory), (''/work'', Directory), (''/work/instances'', Directory),
              (''/work/instances/evvm-1.json'', File (JInstance demo_instance))]\<rparr>"

definition demo_args :: cli_args where
  "demo_args = \<lparr>positional = [''evvm-1''], opt_mode = Some ''serial'', opt_txCount = Some 3,
                 opt_demo = False\<rparr>"

text \<open>The same disk with a file of another kind beside the instances.\<close>

definition cluttered_world :: world where
  "cluttered_world =
     disk_world\<lparr>files := (''/work/notes.txt'', File (NotJson ''to do'')) # files disk_world\<rparr>"

text \<open>A disk that holds the working directory and nothing in it.\<close>

definition empty_disk :: world where
  "empty_disk = disk_world\<lparr>files := [(''/'', Directory), (''/work'', Directory)]\<rparr>"
section \<open>Notions for the statements\<close>

text \<open>Two worlds that offer the same random draws and the same clock readings.\<close>

definition same_streams :: "'e world_scheme \<Rightarrow> 'e world_scheme \<Rightarrow> bool" where
  "same_streams w w' \<longleftrightarrow> random_src w = random_src w' \<and> clock w = clock w'"

text \<open>
  An operation that only consumes the two streams: its value and the streams it leaves
  depend on nothing but the streams it is given, and it leaves the disk and the rest of
  the environment as they are.
\<close>

definition stream_only :: "('e world_scheme \<Rightarrow> 'r \<times> 'e world_scheme) \<Rightarrow> bool" where
  "stream_only f \<longleftrightarrow>
     (\<forall>w w'. same_streams w w' \<longrightarrow>
        fst (f w) = fst (f w') \<and> same_streams (snd (f w)) (snd (f w'))
        \<and> files (snd (f w)) = files w \<and> world.more (snd (f w)) = world.more w)"

text \<open>Sequencing, to state how an operation is put together from smaller ones.\<close>

definition and_then :: "('w \<Rightarrow> 'a \<times> 'w) \<Rightarrow> ('a \<Rightarrow> 'w \<Rightarrow> 'b \<times> 'w) \<Rightarrow> 'w \<Rightarrow> 'b \<times> 'w" where
  "and_then f g w = (case f w of (x, w1) \<Rightarrow> g x w1)"

text \<open>The same for an operation that may not return.\<close>

definition stream_only_opt ::
  "('e world_scheme \<Rightarrow> ('r \<times> 'e world_scheme) option) \<Rightarrow> bool" where
  "stream_only_opt f \<longleftrightarrow>
     (\<forall>w w'. same_streams w w' \<longrightarrow>
        map_option fst (f w) = map_option fst (f w')
        \<and> (\<forall>r w1 r' w1'. f w = Some (r, w1) \<and> f w' = Some (r', w1') \<longrightarrow> same_streams w1 w1')
        \<and> (\<forall>r w1. f w = Some (r, w1) \<longrightarrow> files w1 = files w \<and> world.more w1 = world.more w))"

definition and_then_opt ::
  "('w \<Rightarrow> ('a \<times> 'w) option) \<Rightarrow> ('a \<Rightarrow> 'w \<Rightarrow> ('b \<times> 'w) option) \<Rightarrow> 'w \<Rightarrow> ('b \<times> 'w) option" where
  "and_then_opt f g w = (case f w of None \<Rightarrow> None | Some (x, w1) \<Rightarrow> g x w1)"

definition returning :: "('w \<Rightarrow> 'a \<times> 'w) \<Rightarrow> 'w \<Rightarrow> ('a \<times> 'w) option" where
  "returning f w = Some (f w)"

text \<open>
  The number of draws that the transactions behind a list of results have consumed, when
  a successful one consumes \<open>m\<close> draws and a failed one \<open>n\<close>.
\<close>

definition draws_of :: "nat \<Rightarrow> nat \<Rightarrow> ArcologyExecutionResult list \<Rightarrow> nat" where
  "draws_of m n results = sum_list (map (\<lambda>r. if success r then m else n) results)"

text \<open>
  A file name without a slash that is neither empty nor \<^verbatim>\<open>.\<close> nor \<^verbatim>\<open>..\<close>, and the
  absolute path made of such names.
\<close>

definition plain :: "string \<Rightarrow> bool" where
  "plain s \<longleftrightarrow> s \<noteq> [] \<and> s \<noteq> ''.'' \<and> s \<noteq> ''..'' \<and> CHR ''/'' \<notin> set s"

definition absolute_path :: "string list \<Rightarrow> string" where
  "absolute_path segs = concat (map (\<lambda>s. ''/'' @ s) segs)"

text \<open>
  For a set \<open>T\<close> of paths: a later world in which every path outside \<open>T\<close>, and the rest
  of the environment, are as in the earlier one; and two worlds that offer the same draws
  and clock readings and hold the same entries at the paths of \<open>T\<close>, in the same order of
  the directory listing.
\<close>

definition outside_untouched :: "(string \<Rightarrow> bool) \<Rightarrow> 'e world_scheme \<Rightarrow> 'e world_scheme \<Rightarrow> bool" where
  "outside_untouched T w w' \<longleftrightarrow>
     (\<forall>p. \<not> T p \<longrightarrow> map_of (files w') p = map_of (files w) p)
     \<and> world.more w' = world.more w"

definition same_view :: "(string \<Rightarrow> bool) \<Rightarrow> 'e world_scheme \<Rightarrow> 'e world_scheme \<Rightarrow> bool" where
  "same_view T w v \<longleftrightarrow>
     random_src w = random_src v \<and> clock w = clock v
     \<and> filter (\<lambda>e. T (fst e)) (files w) = filter (\<lambda>e. T (fst e)) (files v)"

text \<open>
  An operation bound to the paths of \<open>T\<close>: it changes nothing else, and what it returns
  and leaves at them depends on nothing else. The second is for an operation that may not
  return.
\<close>

definition file_bound ::
  "(string \<Rightarrow> bool) \<Rightarrow> ('e world_scheme \<Rightarrow> 'r \<times> 'e world_scheme) \<Rightarrow> bool" where
  "file_bound T f \<longleftrightarrow>
     (\<forall>w. outside_untouched T w (snd (f w)))
     \<and> (\<forall>w v. same_view T w v \<longrightarrow>
           fst (f w) = fst (f v) \<and> same_view T (snd (f w)) (snd (f v)))"

definition file_bound_opt ::
  "(string \<Rightarrow> bool) \<Rightarrow> ('e world_scheme \<Rightarrow> ('r \<times> 'e world_scheme) option) \<Rightarrow> bool" where
  "file_bound_opt T f \<longleftrightarrow>
     (\<forall>w r w1. f w = Some (r, w1) \<longrightarrow> outside_untouched T w w1)
     \<and> (\<forall>w v. same_view T w v \<longrightarrow>
           map_option fst (f w) = map_option fst (f v)
           \<and> (\<forall>r w1 r' v1. f w = Some (r, w1) \<and> f v = Some (r', v1) \<longrightarrow> same_view T w1 v1))"

section \<open>Properties of the contracts\<close>

lemma checked_add_Inr: "unat a + unat b < 2 ^ 256 \<Longrightarrow> checked_add a b = Inr (a + b)"
  by (simp add: checked_add_def)

lemma checked_add_Inl: "\<not> unat a + unat b < 2 ^ 256 \<Longrightarrow> checked_add a b = Inl (Panic 17)"
  by (simp add: checked_add_def)

lemma unat_add_no_overflow:
  fixes a b :: uint256
  shows "unat a + unat b < 2 ^ 256 \<Longrightarrow> unat (a + b) = unat a + unat b"
  by (simp add: unat_word_ariths)

lemma unat_uint256_less: "unat (w :: uint256) < 2 ^ 256"
  using unsigned_less [of w, where 'a = nat] by simp

lemma unat_uint256_max: "unat (- 1 :: uint256) = 2 ^ 256 - 1"
  by (simp add: unsigned_minus_1_eq_mask mask_eq_exp_minus_1)

text \<open>The loop started at \<open>i\<close> adds the remaining \<open>n - i\<close> steps, or panics.\<close>

lemma Counter_batchIncrement_loop_eq:
  "unat i \<le> unat n \<Longrightarrow> Counter_batchIncrement_loop i n s =
     (if unat (c_count s) + (unat n - unat i) < 2 ^ 256
      then Inr (s\<lparr>c_count := c_count s + (n - i)\<rparr>) else Inl (Panic 17))"
proof (induction i n s rule: Counter_batchIncrement_loop.induct)
  case (1 i n s)
  show ?case
  proof (cases "i < n")
    case False
    with 1(2) have "i = n" by (simp add: word_less_nat_alt word_unat_eq_iff)
    then show ?thesis using unat_uint256_less [of "c_count s"]
      by (subst Counter_batchIncrement_loop.simps) simp
  next
    case True
    then have lt: "unat i < unat n" by (simp add: word_less_nat_alt)
    have i1: "unat i + unat (1::uint256) < 2 ^ 256"
      using lt unat_uint256_less [of n] by simp
    have ci: "checked_add i 1 = Inr (i + 1)" by (rule checked_add_Inr [OF i1])
    have ui: "unat (i + 1) = unat i + 1" using unat_add_no_overflow [OF i1] by simp
    show ?thesis
    proof (cases "unat (c_count s) + unat (1::uint256) < 2 ^ 256")
      case ok: True
      have cc: "checked_add (c_count s) 1 = Inr (c_count s + 1)"
        by (rule checked_add_Inr [OF ok])
      have uc: "unat (c_count s + 1) = unat (c_count s) + 1"
        using unat_add_no_overflow [OF ok] by simp
      have le: "unat (i + 1) \<le> unat n" using lt ui by simp
      note IH = 1(1) [OF True cc ci le]
      have "Counter_batchIncrement_loop i n s =
            Counter_batchIncrement_loop (i + 1) n (s\<lparr>c_count := c_count s + 1\<rparr>)"
        using True cc ci by (subst Counter_batchIncrement_loop.simps) simp
      also have "\<dots> = (if unat (c_count s) + (unat n - unat i) < 2 ^ 256
          then Inr (s\<lparr>c_count := c_count s + (n - i)\<rparr>) else Inl (Panic 17))"
      proof -
        have w: "c_count s + 1 + (n - (i + 1)) = c_count s + (n - i)" by simp
        have a: "unat (c_count s + 1) + (unat n - unat (i + 1))
                 = unat (c_count s) + (unat n - unat i)" using lt uc ui by simp
        have "Counter_batchIncrement_loop (i + 1) n (s\<lparr>c_count := c_count s + 1\<rparr>) =
          (if unat (c_count s + 1) + (unat n - unat (i + 1)) < 2 ^ 256
           then Inr (s\<lparr>c_count := c_count s + 1 + (n - (i + 1))\<rparr>) else Inl (Panic 17))"
          using IH by simp
        then show ?thesis by (simp only: a w)
      qed
      finally show ?thesis .
    next
      case bad: False
      have cc: "checked_add (c_count s) 1 = Inl (Panic 17)"
        by (rule checked_add_Inl [OF bad])
      have "\<not> unat (c_count s) + (unat n - unat i) < 2 ^ 256" using bad lt by simp
      then show ?thesis using True cc
        by (subst Counter_batchIncrement_loop.simps) simp
    qed
  qed
qed

lemma Counter_batchIncrement_eq:
  "Counter_batchIncrement env n s =
     (if n = 0 then Inl (Revert ''Counter: iterations must be greater than 0'')
      else if 100 < n then Inl (Revert ''Counter: iterations cannot exceed 100'')
      else if 2 ^ 256 \<le> unat (c_count s) + unat n then Inl (Panic 17)
      else Inr (s\<lparr>c_count := c_count s + n, c_lastIncrement := block_timestamp env\<rparr>,
                [Incremented (c_count s + n) (msg_sender env) (block_timestamp env)]))"
proof -
  have "\<not> n \<le> 100 \<longleftrightarrow> 100 < n" by (simp add: not_le)
  then show ?thesis
    by (auto simp: Counter_batchIncrement_def Counter_batchIncrement_loop_eq
        word_greater_zero_iff Let_def)
qed

lemma ParallelCounter_batchIncrement_eq:
  "ParallelCounter_batchIncrement env n s =
     (if n = 0 then Inl (Revert ''ParallelCounter: iterations must be greater than 0'')
      else if 100 < n then Inl (Revert ''ParallelCounter: iterations cannot exceed 100'')
      else if 2 ^ 256 \<le> unat (pc_count s) + unat n
              \<or> 2 ^ 256 \<le> unat (pc_totalIncrements s) + unat n then Inl (Panic 17)
      else Inr (s\<lparr>pc_count := pc_count s + n,
                    pc_totalIncrements := pc_totalIncrements s + n,
                    pc_lastIncrement := block_timestamp env\<rparr>,
                [BatchIncremented n (pc_count s + n) (msg_sender env) (block_timestamp env)]))"
proof -
  have "\<not> n \<le> 100 \<longleftrightarrow> 100 < n" by (simp add: not_le)
  then show ?thesis
    by (auto simp: ParallelCounter_batchIncrement_def checked_add_def
        word_greater_zero_iff Let_def)
qed

lemma unat_ge_1: "(n :: uint256) \<noteq> 0 \<Longrightarrow> Suc 0 \<le> unat n"
  by (simp add: Suc_le_eq unat_gt_0)

text \<open>
  Claim C6, as amended. For \<^verbatim>\<open>Counter.batchIncrement\<close> and
  \<^verbatim>\<open>ParallelCounter.batchIncrement\<close> a call aborts exactly when
  \<open>iterations = 0\<close>, or \<open>iterations > 100\<close>, or the checked \<^verbatim>\<open>uint256\<close> addition
  overflows (the stored count plus \<open>iterations\<close> reaches \<open>2^256\<close>; for
  \<^verbatim>\<open>ParallelCounter\<close> also \<^verbatim>\<open>_totalIncrements\<close> plus \<open>iterations\<close>). Every call
  that succeeds has \<open>iterations\<close> in \<open>[1, 100]\<close>, increases the stored count by exactly
  \<open>iterations\<close> without wrapping (and, for \<^verbatim>\<open>ParallelCounter\<close>, the total as well),
  and leaves the owner unchanged.
\<close>

theorem batchIncrement_guards_and_effect:
  "(isl (Counter_batchIncrement env n c) \<longleftrightarrow>
      n = 0 \<or> 100 < n \<or> 2 ^ 256 \<le> unat (c_count c) + unat n)
   \<and> (isl (ParallelCounter_batchIncrement env n p) \<longleftrightarrow>
      n = 0 \<or> 100 < n \<or> 2 ^ 256 \<le> unat (pc_count p) + unat n
        \<or> 2 ^ 256 \<le> unat (pc_totalIncrements p) + unat n)
   \<and> (\<forall>c' evs. Counter_batchIncrement env n c = Inr (c', evs) \<longrightarrow>
        1 \<le> n \<and> n \<le> 100 \<and> unat (c_count c') = unat (c_count c) + unat n
        \<and> c_owner c' = c_owner c)
   \<and> (\<forall>p' evs. ParallelCounter_batchIncrement env n p = Inr (p', evs) \<longrightarrow>
        1 \<le> n \<and> n \<le> 100 \<and> unat (pc_count p') = unat (pc_count p) + unat n
        \<and> unat (pc_totalIncrements p') = unat (pc_totalIncrements p) + unat n
        \<and> pc_owner p' = pc_owner p)"
proof (intro conjI)
  show "isl (Counter_batchIncrement env n c) \<longleftrightarrow>
      n = 0 \<or> 100 < n \<or> 2 ^ 256 \<le> unat (c_count c) + unat n"
    by (simp add: Counter_batchIncrement_eq)
  show "isl (ParallelCounter_batchIncrement env n p) \<longleftrightarrow>
      n = 0 \<or> 100 < n \<or> 2 ^ 256 \<le> unat (pc_count p) + unat n
        \<or> 2 ^ 256 \<le> unat (pc_totalIncrements p) + unat n"
    by (simp add: ParallelCounter_batchIncrement_eq)
  show "\<forall>c' evs. Counter_batchIncrement env n c = Inr (c', evs) \<longrightarrow>
        1 \<le> n \<and> n \<le> 100 \<and> unat (c_count c') = unat (c_count c) + unat n
        \<and> c_owner c' = c_owner c"
    by (auto simp: Counter_batchIncrement_eq unat_add_no_overflow not_le word_le_nat_alt
        word_less_nat_alt unat_ge_1 split: if_splits)
  show "\<forall>p' evs. ParallelCounter_batchIncrement env n p = Inr (p', evs) \<longrightarrow>
        1 \<le> n \<and> n \<le> 100 \<and> unat (pc_count p') = unat (pc_count p) + unat n
        \<and> unat (pc_totalIncrements p') = unat (pc_totalIncrements p) + unat n
        \<and> pc_owner p' = pc_owner p"
    by (auto simp: ParallelCounter_batchIncrement_eq unat_add_no_overflow not_le
        word_le_nat_alt word_less_nat_alt unat_ge_1 split: if_splits)
qed

theorem batchIncrement_guards_and_effect_witness:
  "Counter_batchIncrement \<lparr>msg_sender = 7, block_timestamp = 1000\<rparr> 5
      \<lparr>c_count = 10, c_lastIncrement = 0, c_owner = 3\<rparr>
     = Inr (\<lparr>c_count = 15, c_lastIncrement = 1000, c_owner = 3\<rparr>, [Incremented 15 7 1000])
   \<and> unat (c_count \<lparr>c_count = 15, c_lastIncrement = 1000, c_owner = 3 :: address\<rparr>)
       = unat (10 :: uint256) + unat (5 :: uint256)
   \<and> ParallelCounter_batchIncrement \<lparr>msg_sender = 7, block_timestamp = 1000\<rparr> 5
      \<lparr>pc_count = 10, pc_lastIncrement = 0, pc_totalIncrements = 20, pc_owner = 3\<rparr>
     = Inr (\<lparr>pc_count = 15, pc_lastIncrement = 1000, pc_totalIncrements = 25, pc_owner = 3\<rparr>,
            [BatchIncremented 5 15 7 1000])
   \<and> unat (pc_totalIncrements
        \<lparr>pc_count = 15, pc_lastIncrement = 1000, pc_totalIncrements = 25, pc_owner = 3 :: address\<rparr>)
       = unat (20 :: uint256) + unat (5 :: uint256)"
proof -
  let ?env = "\<lparr>msg_sender = 7, block_timestamp = 1000\<rparr>"
  let ?c = "\<lparr>c_count = 10, c_lastIncrement = 0, c_owner = 3\<rparr>"
  let ?p = "\<lparr>pc_count = 10, pc_lastIncrement = 0, pc_totalIncrements = 20, pc_owner = 3\<rparr>"
  have c: "Counter_batchIncrement ?env 5 ?c
     = Inr (\<lparr>c_count = 15, c_lastIncrement = 1000, c_owner = 3\<rparr>, [Incremented 15 7 1000])"
    by (simp add: Counter_batchIncrement_eq)
  have p: "ParallelCounter_batchIncrement ?env 5 ?p
     = Inr (\<lparr>pc_count = 15, pc_lastIncrement = 1000, pc_totalIncrements = 25, pc_owner = 3\<rparr>,
            [BatchIncremented 5 15 7 1000])"
    by (simp add: ParallelCounter_batchIncrement_eq)
  from batchIncrement_guards_and_effect [of ?env 5 ?c ?p] c p
  show ?thesis by simp
qed

text \<open>
  The claim as first stated fails on a counter that has reached the top of
  \<^verbatim>\<open>uint256\<close>: one call \<^verbatim>\<open>incrementBy(2^256 - 1)\<close> on a fresh \<^verbatim>\<open>Counter\<close> puts it
  there, and \<^verbatim>\<open>batchIncrement(1)\<close> then aborts with \<^verbatim>\<open>Panic(0x11)\<close> although
  \<open>1\<close> lies in \<open>[1, 100]\<close>.
\<close>

theorem batchIncrement_in_range_reverts_counterexample:
  "Counter_incrementBy \<lparr>msg_sender = 7, block_timestamp = 1000\<rparr> (- 1)
      (Counter_constructor \<lparr>msg_sender = 7, block_timestamp = 1000\<rparr>)
     = Inr (\<lparr>c_count = - 1, c_lastIncrement = 1000, c_owner = 7\<rparr>,
            [Incremented (- 1) 7 1000])
   \<and> Counter_batchIncrement \<lparr>msg_sender = 7, block_timestamp = 1001\<rparr> 1
      \<lparr>c_count = - 1, c_lastIncrement = 1000, c_owner = 7\<rparr> = Inl (Panic 17)"
proof
  have "unat (0 :: uint256) + unat (- 1 :: uint256) < 2 ^ 256"
    by (simp add: unat_uint256_max)
  then show "Counter_incrementBy \<lparr>msg_sender = 7, block_timestamp = 1000\<rparr> (- 1)
      (Counter_constructor \<lparr>msg_sender = 7, block_timestamp = 1000\<rparr>)
     = Inr (\<lparr>c_count = - 1, c_lastIncrement = 1000, c_owner = 7\<rparr>,
            [Incremented (- 1) 7 1000])"
    by (simp add: Counter_incrementBy_def Counter_constructor_def checked_add_Inr
        word_greater_zero_iff Let_def)
  show "Counter_batchIncrement \<lparr>msg_sender = 7, block_timestamp = 1001\<rparr> 1
      \<lparr>c_count = - 1, c_lastIncrement = 1000, c_owner = 7\<rparr> = Inl (Panic 17)"
    by (simp add: Counter_batchIncrement_eq unat_uint256_max)
qed

section \<open>Properties of the loops and of \<^verbatim>\<open>Promise.all\<close>\<close>

lemma for_await_Cons:
  "for_await body (x # xs) w =
     (fst (body x w) # fst (for_await body xs (snd (body x w))),
      snd (for_await body xs (snd (body x w))))"
  by (simp add: case_prod_beta Let_def)

lemma for_await_length: "length (fst (for_await body xs w)) = length xs"
  by (induction xs arbitrary: w) (simp_all add: case_prod_beta Let_def)

lemma firing_order_length: "length (firing_order ds) = length ds"
  by (simp add: firing_order_def)

lemma promise_all_length: "length (fst (promise_all start resume xs w)) = length xs"
  by (simp add: promise_all_def Let_def case_prod_beta for_await_length firing_order_length)

lemma for_loop_append:
  "for_loop body (xs @ ys) s w =
     for_loop body ys (fst (for_loop body xs s w)) (snd (for_loop body xs s w))"
  by (induction xs arbitrary: s w) (simp_all add: case_prod_beta Let_def)

section \<open>Operations that only consume the streams\<close>

lemma same_streams_refl [simp]: "same_streams w w"
  by (simp add: same_streams_def)

lemma stream_onlyI:
  assumes "\<And>w w'. same_streams w w' \<Longrightarrow> fst (f w) = fst (f w')"
    and "\<And>w w'. same_streams w w' \<Longrightarrow> same_streams (snd (f w)) (snd (f w'))"
    and "\<And>w. files (snd (f w)) = files w"
    and "\<And>w. world.more (snd (f w)) = world.more w"
  shows "stream_only f"
  using assms by (simp add: stream_only_def)

lemma stream_onlyD:
  assumes "stream_only f"
  shows "same_streams w w' \<Longrightarrow> fst (f w) = fst (f w')"
    and "same_streams w w' \<Longrightarrow> same_streams (snd (f w)) (snd (f w'))"
    and "files (snd (f w)) = files w"
    and "world.more (snd (f w)) = world.more w"
  using assms same_streams_refl [of w] unfolding stream_only_def by blast+

lemma stream_only_return: "stream_only (Pair c)"
  by (rule stream_onlyI) simp_all

lemma stream_only_return': "stream_only (\<lambda>w. (c, w))"
  by (rule stream_onlyI) simp_all

lemma stream_only_and_then:
  assumes f: "stream_only f" and g: "\<And>x. stream_only (g x)"
  shows "stream_only (and_then f g)"
proof (rule stream_onlyI)
  fix w w' :: "'a world_scheme"
  assume s: "same_streams w w'"
  have 1: "fst (f w) = fst (f w')" and 2: "same_streams (snd (f w)) (snd (f w'))"
    using stream_onlyD(1,2) [OF f s] by auto
  show "fst (and_then f g w) = fst (and_then f g w')"
    using stream_onlyD(1) [OF g 2] 1 by (simp add: and_then_def case_prod_beta)
  show "same_streams (snd (and_then f g w)) (snd (and_then f g w'))"
    using stream_onlyD(2) [OF g 2] 1 by (simp add: and_then_def case_prod_beta)
next
  fix w :: "'a world_scheme"
  show "files (snd (and_then f g w)) = files w"
    by (simp add: and_then_def case_prod_beta stream_onlyD(3) [OF g] stream_onlyD(3) [OF f])
  show "world.more (snd (and_then f g w)) = world.more w"
    by (simp add: and_then_def case_prod_beta stream_onlyD(4) [OF g] stream_onlyD(4) [OF f])
qed

lemma stream_only_if:
  "(c \<Longrightarrow> stream_only f) \<Longrightarrow> (\<not> c \<Longrightarrow> stream_only g) \<Longrightarrow> stream_only (if c then f else g)"
  by simp

lemma stream_only_Math_random: "stream_only Math_random"
  by (rule stream_onlyI) (simp_all add: Math_random_def same_streams_def)

lemma stream_only_Date_now: "stream_only Date_now"
  by (rule stream_onlyI) (simp_all add: Date_now_def same_streams_def)

lemma for_await_and_then:
  "for_await body (x # xs) =
     and_then (body x) (\<lambda>y. and_then (for_await body xs) (\<lambda>ys. Pair (y # ys)))"
  by (simp add: fun_eq_iff and_then_def case_prod_beta Let_def)

lemma stream_only_for_await:
  assumes "\<And>x. stream_only (body x)"
  shows "stream_only (for_await body xs)"
proof (induction xs)
  case Nil
  have "for_await body [] = Pair []" by (simp add: fun_eq_iff)
  then show ?case by (simp add: stream_only_return)
next
  case (Cons x xs)
  show ?case unfolding for_await_and_then
    by (intro stream_only_and_then assms Cons stream_only_return)
qed

lemma for_loop_and_then:
  "for_loop body (x # xs) s = and_then (body x s) (\<lambda>s1. for_loop body xs s1)"
  by (simp add: fun_eq_iff and_then_def case_prod_beta Let_def)

lemma stream_only_for_loop:
  assumes "\<And>x s. stream_only (body x s)"
  shows "stream_only (for_loop body xs s)"
proof (induction xs arbitrary: s)
  case Nil
  have "for_loop body [] s = Pair s" by (simp add: fun_eq_iff)
  then show ?case by (simp add: stream_only_return)
next
  case (Cons x xs)
  show ?case unfolding for_loop_and_then
    by (intro stream_only_and_then assms Cons)
qed

lemma promise_all_and_then:
  "promise_all start resume xs =
     and_then (for_await (\<lambda>(index, x). start index x) (zip [0..<length xs] xs))
       (\<lambda>started. and_then
          (for_await (\<lambda>i. resume i (snd (started ! i))) (firing_order (map fst started)))
          (\<lambda>finished. Pair (map snd (sort_key fst (zip (firing_order (map fst started)) finished)))))"
  by (simp add: fun_eq_iff and_then_def promise_all_def case_prod_beta Let_def)

lemma stream_only_promise_all:
  assumes "\<And>i x. stream_only (start i x)" and "\<And>i c. stream_only (resume i c)"
  shows "stream_only (promise_all start resume xs)"
  unfolding promise_all_and_then
  by (intro stream_only_and_then stream_only_for_await stream_only_return)
     (simp_all add: case_prod_beta assms)

lemma stream_only_promise_allSettled:
  assumes "\<And>i x. stream_only (start i x)" and "\<And>i c. stream_only (resume i c)"
  shows "stream_only (promise_allSettled start resume xs)"
proof -
  have "promise_allSettled start resume xs
      = and_then (promise_all start resume xs) (\<lambda>rs. Pair (map Fulfilled rs))"
    by (simp add: fun_eq_iff and_then_def promise_allSettled_def case_prod_beta)
  then show ?thesis
    by (simp add: stream_only_and_then stream_only_promise_all assms stream_only_return)
qed

lemma stream_only_opt_returning:
  assumes "stream_only f" shows "stream_only_opt (returning f)"
  unfolding stream_only_opt_def returning_def
  using stream_onlyD [OF assms] by (auto simp: prod_eq_iff)

lemma stream_only_opt_never: "stream_only_opt (\<lambda>w. None)"
  by (simp add: stream_only_opt_def)

lemma stream_only_opt_and_then:
  assumes f: "stream_only_opt f" and g: "\<And>x. stream_only_opt (g x)"
  shows "stream_only_opt (and_then_opt f g)"
  unfolding stream_only_opt_def
proof (intro allI impI)
  fix w w' :: "'a world_scheme"
  assume s: "same_streams w w'"
  from f s have f1: "map_option fst (f w) = map_option fst (f w')"
    and f2: "\<And>r w1 r' w1'. f w = Some (r, w1) \<Longrightarrow> f w' = Some (r', w1') \<Longrightarrow> same_streams w1 w1'"
    and f3: "\<And>r w1. f w = Some (r, w1) \<Longrightarrow> files w1 = files w \<and> world.more w1 = world.more w"
    unfolding stream_only_opt_def by blast+
  show "map_option fst (and_then_opt f g w) = map_option fst (and_then_opt f g w')
     \<and> (\<forall>r w1 r' w1'. and_then_opt f g w = Some (r, w1) \<and> and_then_opt f g w' = Some (r', w1')
           \<longrightarrow> same_streams w1 w1')
     \<and> (\<forall>r w1. and_then_opt f g w = Some (r, w1)
           \<longrightarrow> files w1 = files w \<and> world.more w1 = world.more w)"
  proof (cases "f w")
    case None
    with f1 have "f w' = None" by simp
    with None show ?thesis by (simp add: and_then_opt_def)
  next
    case (Some a)
    obtain x w1 where a: "a = (x, w1)" by (cases a)
    from f1 Some a obtain w1' where fw': "f w' = Some (x, w1')" by (cases "f w'") auto
    have s1: "same_streams w1 w1'" using f2 Some a fw' by blast
    from g [of x] s1 have g1: "map_option fst (g x w1) = map_option fst (g x w1')"
      and g2: "\<And>r w2 r' w2'. g x w1 = Some (r, w2) \<Longrightarrow> g x w1' = Some (r', w2') \<Longrightarrow> same_streams w2 w2'"
      and g3: "\<And>r w2. g x w1 = Some (r, w2) \<Longrightarrow> files w2 = files w1 \<and> world.more w2 = world.more w1"
      unfolding stream_only_opt_def by blast+
    have e: "and_then_opt f g w = g x w1" "and_then_opt f g w' = g x w1'"
      using Some a fw' by (simp_all add: and_then_opt_def)
    show ?thesis unfolding e using g1 g2 g3 f3 [of x w1] Some a by auto
  qed
qed

lemma stream_only_opt_case:
  assumes "\<And>x. stream_only_opt (g x)"
  shows "stream_only_opt (case v of None \<Rightarrow> (\<lambda>w. None) | Some x \<Rightarrow> g x)"
  using assms by (cases v) (simp_all add: stream_only_opt_never)

lemma stream_only_optD:
  assumes "stream_only_opt f" "same_streams w w'"
  shows "map_option fst (f w) = map_option fst (f w')"
  using assms unfolding stream_only_opt_def by blast

lemma stream_only_opt_frame:
  assumes "stream_only_opt f" "f w = Some (r, w1)"
  shows "files w1 = files w" "world.more w1 = world.more w"
  using assms same_streams_refl [of w] unfolding stream_only_opt_def by blast+

lemma stream_only_new_Date_toISOString: "stream_only (new_Date_toISOString rt)"
  by (rule stream_onlyI) (simp_all add: new_Date_toISOString_def Date_now_def same_streams_def)

lemma stream_only_fresh_id: "stream_only (fresh_id rt)"
  by (rule stream_onlyI)
     (simp_all add: fresh_id_def Date_now_def Math_random_def same_streams_def)

lemma stream_only_string_or_else:
  "stream_only d \<Longrightarrow> stream_only (string_or_else v d)"
proof -
  assume d: "stream_only d"
  have "string_or_else v d = (case v of None \<Rightarrow> d | Some s \<Rightarrow> if s \<noteq> [] then Pair s else d)"
    by (cases v) (simp_all add: fun_eq_iff)
  then show ?thesis using d by (cases v) (simp_all add: stream_only_return)
qed

lemma EVVMInstance_new_and_then:
  "EVVMInstance_new rt ob =
     and_then (string_or_else (o_id ob) (fresh_id rt)) (\<lambda>id'.
     and_then (string_or_else (o_createdAt ob) (new_Date_toISOString rt)) (\<lambda>createdAt.
     and_then (string_or_else (o_lastActivity ob) (new_Date_toISOString rt)) (\<lambda>lastActivity.
       Pair \<lparr>i_id = id', i_name = string_or (o_name ob) ''test-instance'',
             i_contractAddress = string_or (o_contractAddress ob) [],
             i_status = string_or (o_status ob) ''initialized'',
             i_createdAt = createdAt, i_lastActivity = lastActivity\<rparr>)))"
  by (simp add: fun_eq_iff EVVMInstance_new_def and_then_def case_prod_beta Let_def)

lemma stream_only_EVVMInstance_new: "stream_only (EVVMInstance_new rt ob)"
  unfolding EVVMInstance_new_and_then
  by (intro stream_only_and_then stream_only_string_or_else stream_only_fresh_id
      stream_only_new_Date_toISOString stream_only_return)

lemma initInstance_eq:
  "initInstance rt name = EVVMInstance_new rt
       \<lparr>o_id = None, o_name = name, o_contractAddress = None, o_status = Some ''initialized'',
        o_createdAt = None, o_lastActivity = None\<rparr>"
  by (simp add: fun_eq_iff initInstance_def)

lemma stream_only_initInstance: "stream_only (initInstance rt name)"
  unfolding initInstance_eq by (rule stream_only_EVVMInstance_new)

lemma deployContract_and_then:
  "deployContract rt ob c =
     and_then Math_random (\<lambda>r. and_then (new_Date_toISOString rt) (\<lambda>now.
       EVVMInstance_new rt
           (ob\<lparr>o_contractAddress := Some (''0x'' @ substr 2 40 (toString_radix rt 16 r)),
                     o_status := Some ''deployed'',
                     o_lastActivity := Some now\<rparr>)))"
  by (simp add: fun_eq_iff deployContract_def and_then_def case_prod_beta Let_def)

lemma stream_only_deployContract: "stream_only (deployContract rt ob c)"
  unfolding deployContract_and_then
  by (intro stream_only_and_then stream_only_Math_random stream_only_new_Date_toISOString
      stream_only_EVVMInstance_new)

lemma BenchmarkResult_new_and_then:
  "BenchmarkResult_new rt x =
     and_then (string_or_else (Some (timestamp x)) (new_Date_toISOString rt)) (\<lambda>ts.
       Pair \<lparr>mode = string_or (Some (mode x)) ''serial'',
           totalTransactions = totalTransactions x,
           successfulTransactions = successfulTransactions x,
           failedTransactions = failedTransactions x,
           totalTimeMs = totalTimeMs x,
           averageLatencyMs = js_or_zero (averageLatencyMs x),
           tps = js_or_zero (tps x),
           totalGasUsed = totalGasUsed x,
           averageGasPerTx = averageGasPerTx x,
           errors = errors x,
           timestamp = ts\<rparr>)"
  by (simp add: fun_eq_iff BenchmarkResult_new_def and_then_def case_prod_beta Let_def)

lemma stream_only_BenchmarkResult_new: "stream_only (BenchmarkResult_new rt x)"
  unfolding BenchmarkResult_new_and_then
  by (intro stream_only_and_then stream_only_string_or_else stream_only_new_Date_toISOString
      stream_only_return)

lemma stream_only_serial_round: "stream_only (serial_round i t)"
  by (rule stream_onlyI) (simp_all add: serial_round_def Math_random_def same_streams_def)

lemma stream_only_simulate:
  "stream_only (simulateParallelTx_start k index)"
  "stream_only (simulateParallelTx_resume k u)"
  "stream_only (simulateAsyncTx_start k index)"
  "stream_only (simulateAsyncTx_resume k u)"
  by (rule stream_onlyI;
      simp add: simulateParallelTx_start_def simulateParallelTx_resume_def
        simulateAsyncTx_start_def simulateAsyncTx_resume_def Math_random_def same_streams_def)+

lemma parallel_round_and_then:
  "parallel_round N bs b t =
     and_then (promise_allSettled simulateParallelTx_start simulateParallelTx_resume
                 (map (\<lambda>i. int b * bs + int i) [0..<nat (min bs (N - int b * bs))]))
       (\<lambda>results. Pair (forEach_settle (int b * bs) results t))"
  by (simp add: fun_eq_iff parallel_round_def and_then_def case_prod_beta Let_def)

lemma stream_only_parallel_round: "stream_only (parallel_round N bs b t)"
  unfolding parallel_round_and_then
  by (intro stream_only_and_then stream_only_promise_allSettled stream_only_simulate
      stream_only_return)

lemma run_mode_and_then:
  "run_mode config m N t =
     (if m = ''serial'' then returning (for_loop serial_round [0..<nat N] t)
      else if m = ''parallel'' then
        (case loop_count (js_ceil (js_div (Num (of_int N))
                 (Num (of_int (min N (defaultConcurrency config)))))) of
           None \<Rightarrow> (\<lambda>w. None)
         | Some n \<Rightarrow> returning (for_loop (parallel_round N (min N (defaultConcurrency config)))
                                 [0..<n] t))
      else if m = ''evvm-async'' then
        returning (and_then (promise_allSettled simulateAsyncTx_start simulateAsyncTx_resume
                               (map int [0..<nat N]))
                     (\<lambda>results. Pair (forEach_settle 0 results t)))
      else returning (Pair t))"
  by (simp add: fun_eq_iff run_mode_def and_then_def returning_def case_prod_beta Let_def
      del: js_div.simps split: option.splits)

lemma stream_only_opt_run_mode: "stream_only_opt (run_mode config m N t)"
  unfolding run_mode_and_then
  by (auto simp del: js_div.simps split: option.splits
      intro!: stream_only_opt_returning stream_only_opt_never stream_only_for_loop
        stream_only_serial_round stream_only_parallel_round stream_only_and_then
        stream_only_promise_allSettled stream_only_simulate stream_only_return)

lemma runBenchmark_and_then:
  "runBenchmark rt config inst m n =
     and_then_opt (returning Date_now) (\<lambda>startTime.
     and_then_opt (run_mode config m (case n of None \<Rightarrow> defaultTxCount config | Some k \<Rightarrow> k)
                     \<lparr>t_errors = [], t_successfulTxs = 0, t_totalGasUsed = 0\<rparr>) (\<lambda>t.
     returning (and_then Date_now (\<lambda>endTime. and_then (new_Date_toISOString rt) (\<lambda>now.
       BenchmarkResult_new rt
                    \<lparr>mode = m,
                     totalTransactions = (case n of None \<Rightarrow> defaultTxCount config | Some k \<Rightarrow> k),
                     successfulTransactions = t_successfulTxs t,
                     failedTransactions =
                       (case n of None \<Rightarrow> defaultTxCount config | Some k \<Rightarrow> k) - t_successfulTxs t,
                     totalTimeMs = endTime - startTime,
                     averageLatencyMs = js_div (Num (of_int (endTime - startTime)))
                                          (Num (of_int (t_successfulTxs t))),
                     tps = js_mul (js_div (Num (of_int (t_successfulTxs t)))
                                     (Num (of_int (endTime - startTime)))) (Num 1000),
                     totalGasUsed = t_totalGasUsed t,
                     averageGasPerTx =
                       \<lfloor>of_int (t_totalGasUsed t)
                          / (of_int (if t_successfulTxs t = 0 then 1 else t_successfulTxs t) :: real)\<rfloor>,
                     errors = t_errors t,
                     timestamp = now\<rparr>)))))"
  by (simp add: fun_eq_iff runBenchmark_def and_then_def and_then_opt_def returning_def
      case_prod_beta Let_def del: js_div.simps js_mul.simps split: option.splits)

lemma stream_only_opt_runBenchmark: "stream_only_opt (runBenchmark rt config inst m n)"
  unfolding runBenchmark_and_then
  by (intro stream_only_opt_and_then stream_only_opt_returning stream_only_Date_now
      stream_only_opt_run_mode stream_only_and_then stream_only_new_Date_toISOString
      stream_only_BenchmarkResult_new)

lemma stream_only_executeSerial_tx: "stream_only (executeSerial_tx rt itx)"
  by (rule stream_onlyI)
     (simp_all add: executeSerial_tx_def Math_random_def Date_now_def same_streams_def Let_def)

lemma executeSerial_and_then:
  "executeSerial rt txs =
     and_then Date_now (\<lambda>startTime.
     and_then (for_await (executeSerial_tx rt) (zip [0..<length txs] txs)) (\<lambda>results.
     and_then Date_now (\<lambda>endTime. Pair results)))"
  by (simp add: fun_eq_iff executeSerial_def and_then_def case_prod_beta Let_def)

lemma stream_only_executeSerial: "stream_only (executeSerial rt txs)"
  unfolding executeSerial_and_then
  by (intro stream_only_and_then stream_only_Date_now stream_only_for_await
      stream_only_executeSerial_tx stream_only_return)

lemma stream_only_executeParallel_tx:
  "stream_only (executeParallel_tx_start ti tx)"
  "stream_only (executeParallel_tx_resume rt gi ti t0)"
  by (rule stream_onlyI;
      simp add: executeParallel_tx_start_def executeParallel_tx_resume_def Math_random_def
        Date_now_def same_streams_def Let_def)+

lemma executeParallel_group_and_then:
  "executeParallel_group rt g =
     and_then Date_now (\<lambda>groupStartTime.
     and_then (promise_all executeParallel_tx_start (executeParallel_tx_resume rt (fst g)) (snd g))
       (\<lambda>groupResults. and_then Date_now (\<lambda>groupEnd. Pair groupResults)))"
  by (simp add: fun_eq_iff executeParallel_group_def and_then_def case_prod_beta Let_def)

lemma stream_only_executeParallel_group: "stream_only (executeParallel_group rt g)"
  unfolding executeParallel_group_and_then
  by (intro stream_only_and_then stream_only_Date_now stream_only_promise_all
      stream_only_executeParallel_tx stream_only_return)

lemma executeParallel_and_then:
  "executeParallel rt txs c =
     (case createConflictFreeGroups txs (case c of None \<Rightarrow> 4 | Some c \<Rightarrow> c) of
        None \<Rightarrow> (\<lambda>w. None)
      | Some groups \<Rightarrow>
          returning (and_then Date_now (\<lambda>startTime.
            and_then (for_await (executeParallel_group rt) (zip [0..<length groups] groups))
              (\<lambda>results. and_then Date_now (\<lambda>endTime. Pair (concat results))))))"
  by (simp add: fun_eq_iff executeParallel_def and_then_def returning_def case_prod_beta Let_def
      split: option.splits)

lemma stream_only_opt_executeParallel: "stream_only_opt (executeParallel rt txs c)"
  unfolding executeParallel_and_then
  by (intro stream_only_opt_case stream_only_opt_returning stream_only_and_then
      stream_only_Date_now stream_only_for_await stream_only_executeParallel_group
      stream_only_return)

lemma stream_only_calculateBenchmarkResult:
  "stream_only (calculateBenchmarkResult rt m results n)"
  by (rule stream_onlyI)
     (simp_all add: calculateBenchmarkResult_def new_Date_toISOString_def Date_now_def
        same_streams_def Let_def case_prod_beta del: js_div.simps js_mul.simps)

lemma Arcology_runBenchmark_and_then:
  "Arcology_runBenchmark rt txs c =
     and_then_opt (returning (executeSerial rt txs)) (\<lambda>serialResults.
     and_then_opt (returning (calculateBenchmarkResult rt Serial serialResults (int (length txs))))
       (\<lambda>serialBenchmark.
     and_then_opt (executeParallel rt txs c) (\<lambda>parallelResults.
     returning (and_then
        (calculateBenchmarkResult rt Parallel parallelResults (int (length txs)))
        (\<lambda>parallelBenchmark.
           Pair \<lparr>ab_serial = serialBenchmark, ab_parallel = parallelBenchmark,
                 ab_comparison =
                   \<lparr>tpsImprovement =
                          js_mul (js_div (js_sub (a_tps parallelBenchmark) (a_tps serialBenchmark))
                                    (a_tps serialBenchmark)) (Num 100),
                        latencyImprovement =
                          js_mul (js_div (js_sub (a_averageLatencyMs serialBenchmark)
                                            (a_averageLatencyMs parallelBenchmark))
                                    (a_averageLatencyMs serialBenchmark)) (Num 100),
                        gasEfficiency =
                          js_div (Num (of_int (a_totalGasUsed serialBenchmark)))
                            (Num (of_int (a_totalGasUsed parallelBenchmark)))\<rparr>\<rparr>)))))"
  by (simp add: fun_eq_iff Arcology_runBenchmark_def and_then_def and_then_opt_def returning_def
      case_prod_beta Let_def del: js_div.simps js_mul.simps js_sub.simps split: option.splits)

lemma stream_only_opt_Arcology_runBenchmark:
  "stream_only_opt (Arcology_runBenchmark rt txs c)"
  unfolding Arcology_runBenchmark_and_then
  by (intro stream_only_opt_and_then stream_only_opt_returning stream_only_executeSerial
      stream_only_calculateBenchmarkResult stream_only_opt_executeParallel
      stream_only_and_then stream_only_return)

lemma stream_only_executeTransaction:
  "stream_only (executeTransaction_start i tx)"
  "stream_only (executeTransaction_resume rt u)"
  by (rule stream_onlyI;
      simp add: executeTransaction_start_def executeTransaction_resume_def Math_random_def
        same_streams_def Let_def)+

lemma stream_only_executeParallelTransactions_chunk:
  "stream_only (executeParallelTransactions_chunk rt i chunk)"
proof -
  have "executeParallelTransactions_chunk rt i chunk =
     promise_all (\<lambda>index tx. executeTransaction_start i (asyncTx index tx))
       (\<lambda>index. executeTransaction_resume rt) chunk"
    by (simp add: fun_eq_iff executeParallelTransactions_chunk_def)
  show ?thesis
    unfolding \<open>executeParallelTransactions_chunk rt i chunk = _\<close>
    by (intro stream_only_promise_all stream_only_executeTransaction)
qed

lemma executeParallelTransactions_and_then:
  "executeParallelTransactions rt i txs c =
     (case chunkArray txs (case c of None \<Rightarrow> 4 | Some c \<Rightarrow> c) of
        None \<Rightarrow> (\<lambda>w. None)
      | Some chunks \<Rightarrow>
          returning (and_then (for_await (executeParallelTransactions_chunk rt i) chunks)
                       (\<lambda>results. Pair (concat results))))"
  by (simp add: fun_eq_iff executeParallelTransactions_def and_then_def returning_def
      case_prod_beta Let_def split: option.splits)

lemma stream_only_opt_executeParallelTransactions:
  "stream_only_opt (executeParallelTransactions rt i txs c)"
  unfolding executeParallelTransactions_and_then
  by (intro stream_only_opt_case stream_only_opt_returning stream_only_and_then
      stream_only_for_await stream_only_executeParallelTransactions_chunk stream_only_return)

section \<open>Properties of the plugin\<close>

lemma EVVMInstance_new_fields:
  "i_name (fst (EVVMInstance_new rt ob w)) = string_or (o_name ob) ''test-instance''"
  "i_contractAddress (fst (EVVMInstance_new rt ob w)) = string_or (o_contractAddress ob) []"
  "i_status (fst (EVVMInstance_new rt ob w)) = string_or (o_status ob) ''initialized''"
  "i_id (fst (EVVMInstance_new rt ob w)) = fst (string_or_else (o_id ob) (fresh_id rt) w)"
  "i_createdAt (fst (EVVMInstance_new rt ob w)) =
     fst (string_or_else (o_createdAt ob) (new_Date_toISOString rt)
            (snd (string_or_else (o_id ob) (fresh_id rt) w)))"
  by (simp_all add: EVVMInstance_new_def Let_def split: prod.splits)

lemma deployContract_unfold:
  "deployContract rt ob c w =
     EVVMInstance_new rt
       (ob\<lparr>o_contractAddress :=
              Some (''0x'' @ substr 2 40 (toString_radix rt 16 (fst (Math_random w)))),
            o_status := Some ''deployed'',
            o_lastActivity := Some (fst (new_Date_toISOString rt (snd (Math_random w))))\<rparr>)
       (snd (new_Date_toISOString rt (snd (Math_random w))))"
  by (simp add: deployContract_def Let_def split: prod.splits)

text \<open>
  Claim C4. For every instance name, also a missing one, \<^verbatim>\<open>initInstance\<close> returns an
  instance with status \<^verbatim>\<open>initialized\<close> and an empty contract address. For every input
  object, whatever its status and whichever of its fields are present,
  \<^verbatim>\<open>deployContract\<close> returns an instance with status \<^verbatim>\<open>deployed\<close> and a contract
  address that is not empty. Both functions are total: no branch of either throws.
\<close>

theorem initInstance_and_deployContract_status:
  "i_status (fst (initInstance rt name w)) = ''initialized''
   \<and> i_contractAddress (fst (initInstance rt name w)) = []
   \<and> i_status (fst (deployContract rt instance contractName w)) = ''deployed''
   \<and> i_contractAddress (fst (deployContract rt instance contractName w)) \<noteq> []"
  by (simp add: initInstance_def deployContract_unfold EVVMInstance_new_fields)




subsection \<open>The counters of \<^verbatim>\<open>runBenchmark\<close>\<close>

lemma serial_loop_tally:
  "t_successfulTxs (fst (for_loop serial_round xs t w)) = t_successfulTxs t + int (length xs)
   \<and> t_errors (fst (for_loop serial_round xs t w)) = t_errors t"
  by (induction xs arbitrary: t w) (simp_all add: case_prod_beta Let_def serial_round_def)

lemma forEach_settle_Fulfilled:
  "t_successfulTxs (forEach_settle base (map Fulfilled vs) t) = t_successfulTxs t + int (length vs)
   \<and> t_errors (forEach_settle base (map Fulfilled vs) t) = t_errors t"
proof -
  have "\<And>k t. t_successfulTxs (fold (settle base) (zip [k..<k + length vs] (map Fulfilled vs)) t) = t_successfulTxs t + int (length vs)
   \<and> t_errors (fold (settle base) (zip [k..<k + length vs] (map Fulfilled vs)) t) = t_errors t"
  proof (induction vs)
    case Nil then show ?case by simp
  next
    case (Cons v vs)
    have "[k..<k + length (v # vs)] = k # [Suc k..<Suc k + length vs]"
      by (simp add: upt_rec)
    then show ?case using Cons [of "Suc k"] by simp
  qed
  from this [of 0] show ?thesis by (simp add: forEach_settle_def)
qed

lemma allSettled_tally:
  "t_successfulTxs (forEach_settle base (fst (promise_allSettled start resume xs w)) t)
     = t_successfulTxs t + int (length xs)
   \<and> t_errors (forEach_settle base (fst (promise_allSettled start resume xs w)) t) = t_errors t"
  by (simp add: promise_allSettled_def case_prod_beta forEach_settle_Fulfilled promise_all_length)

lemma parallel_round_tally:
  "t_successfulTxs (fst (parallel_round N bs b t w))
     = t_successfulTxs t + int (nat (min bs (N - int b * bs)))
   \<and> t_errors (fst (parallel_round N bs b t w)) = t_errors t"
  by (simp add: parallel_round_def Let_def case_prod_beta allSettled_tally)

lemma parallel_loop_tally:
  "t_successfulTxs (fst (for_loop (parallel_round N bs) xs t w))
     = t_successfulTxs t + (\<Sum>b\<leftarrow>xs. int (nat (min bs (N - int b * bs))))
   \<and> t_errors (fst (for_loop (parallel_round N bs) xs t w)) = t_errors t"
  by (induction xs arbitrary: t w) (simp_all add: case_prod_beta Let_def parallel_round_tally)

lemma batch_sum:
  assumes "0 < bs" "0 \<le> N" "int k * bs < N + bs"
  shows "(\<Sum>b\<leftarrow>[0..<k]. int (nat (min bs (N - int b * bs)))) = min (int k * bs) N"
proof -
  define f where "f b = int (nat (min bs (N - int b * bs)))" for b
  have "int k * bs < N + bs \<Longrightarrow> (\<Sum>b\<leftarrow>[0..<k]. f b) = min (int k * bs) N"
  proof (induction k)
    case 0 then show ?case using assms(2) by simp
  next
    case (Suc k)
    from Suc.prems have lt: "int k * bs < N" by (simp add: algebra_simps)
    with Suc.IH assms(1) have IH: "(\<Sum>b\<leftarrow>[0..<k]. f b) = int k * bs" by simp
    have "(\<Sum>b\<leftarrow>[0..<Suc k]. f b) = (\<Sum>b\<leftarrow>[0..<k]. f b) + f k" by simp
    also have "\<dots> = int k * bs + f k" by (simp only: IH)
    also have "\<dots> = min (int (Suc k) * bs) N"
      using lt assms(1) by (simp add: f_def algebra_simps min_def)
    finally show ?case .
  qed
  then show ?thesis using assms(3) by (simp add: f_def)
qed

lemma ceil_div_bounds:
  fixes N bs :: int
  assumes "0 < bs"
  shows "N \<le> \<lceil>of_int N / (of_int bs :: real)\<rceil> * bs"
    and "\<lceil>of_int N / (of_int bs :: real)\<rceil> * bs < N + bs"
proof -
  define q where "q = - N div bs"
  define r where "r = - N mod bs"
  have c: "\<lceil>of_int N / (of_int bs :: real)\<rceil> = - q"
    unfolding q_def by (rule ceiling_divide_eq_div)
  have e: "- N = bs * q + r" unfolding q_def r_def by simp
  have r: "0 \<le> r" "r < bs" using assms by (simp_all add: r_def)
  have m: "- q * bs = - (bs * q)" by simp
  show "N \<le> \<lceil>of_int N / (of_int bs :: real)\<rceil> * bs"
    unfolding c m using e r by linarith
  show "\<lceil>of_int N / (of_int bs :: real)\<rceil> * bs < N + bs"
    unfolding c m using e r by linarith
qed

lemma run_mode_Some:
  "defaultConcurrency config \<noteq> 0 \<Longrightarrow> \<exists>t' w'. run_mode config m N t w = Some (t', w')"
  by (auto simp: run_mode_def Let_def case_prod_beta min_def)

lemma run_mode_serial:
  "0 \<le> N \<Longrightarrow> \<exists>t' w'. run_mode config ''serial'' N t w = Some (t', w')
     \<and> t_successfulTxs t' = t_successfulTxs t + N \<and> t_errors t' = t_errors t"
  using serial_loop_tally [of "[0..<nat N]" t w]
  by (simp add: run_mode_def) (metis prod.collapse)

lemma run_mode_async:
  "0 \<le> N \<Longrightarrow> \<exists>t' w'. run_mode config ''evvm-async'' N t w = Some (t', w')
     \<and> t_successfulTxs t' = t_successfulTxs t + N \<and> t_errors t' = t_errors t"
  using allSettled_tally [of 0 simulateAsyncTx_start simulateAsyncTx_resume
      "map int [0..<nat N]" w t]
  by (simp add: run_mode_def Let_def case_prod_beta)

lemma run_mode_parallel:
  assumes "1 \<le> defaultConcurrency config" "0 \<le> N"
  shows "\<exists>t' w'. run_mode config ''parallel'' N t w = Some (t', w')
     \<and> t_successfulTxs t' = t_successfulTxs t + N \<and> t_errors t' = t_errors t"
proof (cases "N = 0")
  case True
  with assms(1) have "min N (defaultConcurrency config) = 0" by simp
  with True show ?thesis by (simp add: run_mode_def Let_def)
next
  case False
  define bs where "bs = min N (defaultConcurrency config)"
  define c where "c = \<lceil>of_int N / (of_int bs :: real)\<rceil>"
  from False assms have bs: "0 < bs" by (simp add: bs_def)
  have c1: "N \<le> c * bs" and c2: "c * bs < N + bs"
    unfolding c_def using ceil_div_bounds [OF bs, of N] by simp_all
  have cpos: "0 \<le> c"
  proof (rule ccontr)
    assume "\<not> 0 \<le> c"
    then have "c \<le> - 1" by simp
    then have "c * bs \<le> - 1 * bs" using bs by (intro mult_right_mono) simp_all
    with c1 assms(2) bs show False by simp
  qed
  have run: "run_mode config ''parallel'' N t w
      = Some (for_loop (parallel_round N bs) [0..<nat c] t w)"
    using bs by (simp add: run_mode_def Let_def bs_def [symmetric] c_def)
  have "(\<Sum>b\<leftarrow>[0..<nat c]. int (nat (min bs (N - int b * bs)))) = min (int (nat c) * bs) N"
    using bs assms(2) c2 cpos by (intro batch_sum) simp_all
  also have "\<dots> = N" using c1 cpos by simp
  finally have sum: "(\<Sum>b\<leftarrow>[0..<nat c]. int (nat (min bs (N - int b * bs)))) = N" .
  show ?thesis
    unfolding run using parallel_loop_tally [of N bs "[0..<nat c]" t w] sum
    by (metis prod.collapse)
qed

lemma run_mode_tally:
  assumes "1 \<le> defaultConcurrency config" "0 \<le> N"
    and "m = ''serial'' \<or> m = ''parallel'' \<or> m = ''evvm-async''"
  shows "\<exists>t' w'. run_mode config m N t w = Some (t', w')
     \<and> t_successfulTxs t' = t_successfulTxs t + N \<and> t_errors t' = t_errors t"
  using assms run_mode_serial run_mode_async run_mode_parallel by blast

lemma BenchmarkResult_new_eqD:
  "BenchmarkResult_new rt x w = (r, w') \<Longrightarrow>
     totalTransactions r = totalTransactions x
     \<and> successfulTransactions r = successfulTransactions x
     \<and> failedTransactions r = failedTransactions x
     \<and> errors r = errors x"
  by (auto simp: BenchmarkResult_new_def case_prod_beta)

lemma runBenchmark_counts:
  assumes "runBenchmark rt config inst m n w = Some (r, w')"
  shows "\<exists>t' w2. run_mode config m (case n of None \<Rightarrow> defaultTxCount config | Some k \<Rightarrow> k)
                 \<lparr>t_errors = [], t_successfulTxs = 0, t_totalGasUsed = 0\<rparr> (snd (Date_now w))
               = Some (t', w2)
     \<and> totalTransactions r = (case n of None \<Rightarrow> defaultTxCount config | Some k \<Rightarrow> k)
     \<and> successfulTransactions r = t_successfulTxs t'
     \<and> failedTransactions r = totalTransactions r - t_successfulTxs t'
     \<and> errors r = t_errors t'"
  using assms
  by (auto simp: runBenchmark_def Let_def case_prod_beta
      simp del: js_div.simps js_mul.simps
      split: option.splits dest!: BenchmarkResult_new_eqD)

lemma runBenchmark_returns:
  assumes "run_mode config m (case n of None \<Rightarrow> defaultTxCount config | Some k \<Rightarrow> k)
                 \<lparr>t_errors = [], t_successfulTxs = 0, t_totalGasUsed = 0\<rparr> (snd (Date_now w))
               = Some (t', w2)"
  shows "\<exists>r w'. runBenchmark rt config inst m n w = Some (r, w')"
  using assms by (simp add: runBenchmark_def Let_def case_prod_beta del: js_div.simps js_mul.simps)

lemma EVVMConfig_new_nonzero: "defaultConcurrency (EVVMConfig_new args) \<noteq> 0"
  by (cases "arg_defaultConcurrency args") (simp_all add: EVVMConfig_new_def)

lemma defaultEVVMConfig_concurrency: "defaultConcurrency defaultEVVMConfig = 4"
  by (simp add: defaultEVVMConfig_def EVVMConfig_new_def)

lemma runBenchmark_no_failure:
  assumes "1 \<le> defaultConcurrency config" "0 \<le> N"
    and "m = ''serial'' \<or> m = ''parallel'' \<or> m = ''evvm-async''"
  shows "\<exists>r w'. runBenchmark rt config inst m (Some N) w = Some (r, w')
     \<and> failedTransactions r = 0 \<and> errors r = []"
proof -
  obtain t' w2 where run: "run_mode config m N
      \<lparr>t_errors = [], t_successfulTxs = 0, t_totalGasUsed = 0\<rparr> (snd (Date_now w)) = Some (t', w2)"
    and t: "t_successfulTxs t' = N" "t_errors t' = []"
    using run_mode_tally [OF assms, of "\<lparr>t_errors = [], t_successfulTxs = 0, t_totalGasUsed = 0\<rparr>"
        "snd (Date_now w)"] by auto
  from runBenchmark_returns [of config m "Some N" w t' w2 rt inst] run
  obtain r w' where r: "runBenchmark rt config inst m (Some N) w = Some (r, w')" by auto
  from runBenchmark_counts [OF r] run t
  have "failedTransactions r = 0 \<and> errors r = []" by auto
  with r show ?thesis by blast
qed

section \<open>Properties of the mock clients\<close>

subsection \<open>Chunking\<close>

lemma js_slice_take_drop:
  "0 \<le> i \<Longrightarrow> 0 \<le> sz \<Longrightarrow> js_slice xs i (i + sz) = take (nat sz) (drop (nat i) xs)"
  by (auto simp: js_slice_def Let_def min_def nat_diff_distrib' nat_add_distrib)

lemma take_drop_step:
  assumes "0 \<le> i" "0 \<le> sz"
  shows "take (nat sz) (drop (nat i) xs) @ drop (nat (i + sz)) xs = drop (nat i) xs"
proof -
  have "nat (i + sz) = nat sz + nat i" using assms by (simp add: nat_add_distrib)
  then have "drop (nat (i + sz)) xs = drop (nat sz) (drop (nat i) xs)"
    by (simp only: drop_drop)
  then show ?thesis by (simp only: append_take_drop_id)
qed

lemma chunk_loop_returns:
  "1 \<le> sz \<Longrightarrow> 0 \<le> i \<Longrightarrow>
     \<exists>res. chunk_loop xs sz i chunks = Some res \<and> concat res = concat chunks @ drop (nat i) xs"
proof (induction "length xs - nat i" arbitrary: i chunks rule: less_induct)
  case less
  show ?case
  proof (cases "i < int (length xs)")
    case False
    then show ?thesis using less.prems by (subst chunk_loop.simps) simp
  next
    case True
    have "length xs - nat (i + sz) < length xs - nat i" using True less.prems by linarith
    from less.hyps [OF this] less.prems
    obtain res where res: "chunk_loop xs sz (i + sz) (chunks @ [js_slice xs i (i + sz)]) = Some res"
      and c: "concat res = concat (chunks @ [js_slice xs i (i + sz)]) @ drop (nat (i + sz)) xs"
      by fastforce
    have "concat res = concat chunks @ drop (nat i) xs"
      using c less.prems by (simp add: js_slice_take_drop take_drop_step)
    then show ?thesis using True res by (subst chunk_loop.simps) simp
  qed
qed

lemma chunk_loop_result:
  assumes "chunk_loop xs sz i chunks = Some res"
  shows "(1 \<le> sz \<and> 0 \<le> i \<longrightarrow> concat res = concat chunks @ drop (nat i) xs)
     \<and> (sz \<le> 0 \<and> i \<le> 0 \<longrightarrow> i = 0 \<and> xs = [] \<and> res = chunks)"
proof (rule chunk_loop.raw_induct [where P = "\<lambda>xs sz i chunks res.
     (1 \<le> sz \<and> 0 \<le> i \<longrightarrow> concat res = concat chunks @ drop (nat i) xs)
     \<and> (sz \<le> 0 \<and> i \<le> 0 \<longrightarrow> i = 0 \<and> xs = [] \<and> res = chunks)", OF _ assms])
  fix f :: "'a list \<Rightarrow> int \<Rightarrow> int \<Rightarrow> 'a list list \<Rightarrow> 'a list list option"
    and xs sz i chunks res
  assume IH: "\<And>xs sz i chunks res. f xs sz i chunks = Some res \<Longrightarrow>
     (1 \<le> sz \<and> 0 \<le> i \<longrightarrow> concat res = concat chunks @ drop (nat i) xs)
     \<and> (sz \<le> 0 \<and> i \<le> 0 \<longrightarrow> i = 0 \<and> xs = [] \<and> res = chunks)"
    and step: "(if i < int (length xs)
        then f xs sz (i + sz) (chunks @ [js_slice xs i (i + sz)])
        else Some chunks) = Some res"
  show "(1 \<le> sz \<and> 0 \<le> i \<longrightarrow> concat res = concat chunks @ drop (nat i) xs)
     \<and> (sz \<le> 0 \<and> i \<le> 0 \<longrightarrow> i = 0 \<and> xs = [] \<and> res = chunks)"
  proof (cases "i < int (length xs)")
    case False
    then have "i \<le> 0 \<Longrightarrow> xs = [] \<and> i = 0" by (cases xs) auto
    with False step show ?thesis by auto
  next
    case True
    with step have "f xs sz (i + sz) (chunks @ [js_slice xs i (i + sz)]) = Some res"
      by simp
    from IH [OF this] True show ?thesis
      by (auto simp: js_slice_take_drop take_drop_step)
  qed
qed

lemma createConflictFreeGroups_concat:
  "createConflictFreeGroups xs sz = Some gs \<Longrightarrow> concat gs = xs"
  using chunk_loop_result [of xs sz 0 "[]" gs] 
  by (cases "1 \<le> sz") (auto simp: createConflictFreeGroups_def)

lemma createConflictFreeGroups_returns:
  "1 \<le> sz \<Longrightarrow> \<exists>gs. createConflictFreeGroups xs sz = Some gs \<and> concat gs = xs"
  using chunk_loop_returns [of sz 0 xs "[]"] by (simp add: createConflictFreeGroups_def)

lemma chunkArray_eq: "chunkArray = createConflictFreeGroups"
  by (intro ext) (simp add: chunkArray_def createConflictFreeGroups_def)

lemma for_await_lengths:
  assumes "\<And>x w. length (fst (body x w)) = len x"
  shows "map length (fst (for_await body xs w)) = map len xs"
  by (induction xs arbitrary: w) (simp_all add: case_prod_beta Let_def assms)

lemma length_concat_for_await:
  assumes "\<And>x w. length (fst (body x w)) = len x"
  shows "length (concat (fst (for_await body xs w))) = sum_list (map len xs)"
  by (simp add: length_concat for_await_lengths [OF assms])

subsection \<open>One result for each transaction\<close>

lemma executeSerial_length: "length (fst (executeSerial rt txs w)) = length txs"
  by (simp add: executeSerial_def case_prod_beta Let_def for_await_length)

lemma executeParallel_group_length:
  "length (fst (executeParallel_group rt g w)) = length (snd g)"
  by (simp add: executeParallel_group_def case_prod_beta Let_def promise_all_length)

lemma sum_list_length_zip_upt:
  "sum_list (map (\<lambda>g. length (snd g)) (zip [k..<k + length gs] gs)) = length (concat gs)"
proof (induction gs arbitrary: k)
  case Nil then show ?case by simp
next
  case (Cons g gs)
  have "[k..<k + length (g # gs)] = k # [Suc k..<Suc k + length gs]" by (simp add: upt_rec)
  then show ?case using Cons [of "Suc k"] by simp
qed

lemma executeParallel_length:
  assumes "executeParallel rt txs c w = Some (rs, w')"
  shows "length rs = length txs"
proof -
  from assms obtain gs where
    gs: "createConflictFreeGroups txs (case c of None \<Rightarrow> 4 | Some c \<Rightarrow> c) = Some gs"
    and rs: "rs = concat (fst (for_await (executeParallel_group rt) (zip [0..<length gs] gs)
                (snd (Date_now w))))"
    by (auto simp: executeParallel_def case_prod_beta Let_def split: option.splits)
  have "length rs = sum_list (map (\<lambda>g. length (snd g)) (zip [0..<length gs] gs))"
    unfolding rs by (rule length_concat_for_await) (rule executeParallel_group_length)
  also have "\<dots> = length (concat gs)" using sum_list_length_zip_upt [of 0 gs] by simp
  finally show ?thesis using createConflictFreeGroups_concat [OF gs] by simp
qed

lemma executeParallel_returns:
  assumes "1 \<le> c"
  shows "\<exists>rs w'. executeParallel rt txs (Some c) w = Some (rs, w')"
  using createConflictFreeGroups_returns [OF assms, of txs]
  by (auto simp: executeParallel_def case_prod_beta Let_def)

lemma calculateBenchmarkResult_sum:
  "a_successfulTransactions (fst (calculateBenchmarkResult rt m results n w))
     + a_failedTransactions (fst (calculateBenchmarkResult rt m results n w)) = int (length results)"
  using sum_length_filter_compl [of "\<lambda>r. success r" results]
  by (simp add: calculateBenchmarkResult_def case_prod_beta Let_def
      del: js_div.simps js_mul.simps)

lemma calculateBenchmarkResult_total:
  "a_totalTransactions (fst (calculateBenchmarkResult rt m results n w)) = n"
  by (simp add: calculateBenchmarkResult_def case_prod_beta Let_def
      del: js_div.simps js_mul.simps)

lemma calculateBenchmarkResult_failed:
  "a_failedTransactions (fst (calculateBenchmarkResult rt m results n w))
     = int (length (filter (\<lambda>r. \<not> success r) results))"
  by (simp add: calculateBenchmarkResult_def case_prod_beta Let_def
      del: js_div.simps js_mul.simps)

lemma calculateBenchmarkResult_errors:
  "a_errors (fst (calculateBenchmarkResult rt m results n w))
     = map (\<lambda>r. string_or (error r) ''Unknown error'') (filter (\<lambda>r. \<not> success r) results)"
  by (simp add: calculateBenchmarkResult_def case_prod_beta Let_def
      del: js_div.simps js_mul.simps)

lemma Arcology_runBenchmark_parts:
  assumes "Arcology_runBenchmark rt txs c w = Some (b, w')"
  shows "ab_serial b = fst (calculateBenchmarkResult rt Serial (fst (executeSerial rt txs w))
                      (int (length txs)) (snd (executeSerial rt txs w)))
     \<and> (\<exists>rs w3. executeParallel rt txs c
           (snd (calculateBenchmarkResult rt Serial (fst (executeSerial rt txs w))
                      (int (length txs)) (snd (executeSerial rt txs w)))) = Some (rs, w3)
     \<and> ab_parallel b = fst (calculateBenchmarkResult rt Parallel rs (int (length txs)) w3))"
  using assms
  by (auto simp: Arcology_runBenchmark_def case_prod_beta Let_def
      simp del: js_div.simps js_mul.simps js_sub.simps split: option.splits)

lemma Arcology_runBenchmark_returns:
  assumes "1 \<le> c"
  shows "\<exists>b w'. Arcology_runBenchmark rt txs (Some c) w = Some (b, w')"
proof -
  obtain rs w3 where "executeParallel rt txs (Some c)
      (snd (calculateBenchmarkResult rt Serial (fst (executeSerial rt txs w)) (int (length txs))
         (snd (executeSerial rt txs w)))) = Some (rs, w3)"
    using executeParallel_returns [OF assms] by blast
  then show ?thesis
    by (simp add: Arcology_runBenchmark_def case_prod_beta Let_def
      del: js_div.simps js_mul.simps js_sub.simps)
qed

subsection \<open>Failure by threshold\<close>

lemma executeSerial_tx_success:
  "success (fst (executeSerial_tx rt itx w)) \<longleftrightarrow> shd (stl (random_src w)) > 5 / 100"
  by (simp add: executeSerial_tx_def Math_random_def Date_now_def Let_def)

lemma executeSerial_tx_error:
  "error (fst (executeSerial_tx rt itx w)) =
     (if success (fst (executeSerial_tx rt itx w)) then None
      else Some (''Transaction '' @ dec_nat (fst itx) @ '' failed: Mock error''))"
  by (simp add: executeSerial_tx_def Math_random_def Date_now_def Let_def)

lemma executeParallel_tx_resume_success:
  "success (fst (executeParallel_tx_resume rt gi ti t0 w)) \<longleftrightarrow> shd (random_src w) > 1 / 100"
  by (simp add: executeParallel_tx_resume_def Math_random_def Date_now_def Let_def)

lemma executeParallel_tx_resume_error:
  "error (fst (executeParallel_tx_resume rt gi ti t0 w)) =
     (if success (fst (executeParallel_tx_resume rt gi ti t0 w)) then None
      else Some (''Transaction '' @ dec_nat ti @ '' in group ''
                           @ dec_nat gi @ '' failed: Conflict detected''))"
  by (simp add: executeParallel_tx_resume_def Math_random_def Date_now_def Let_def)

section \<open>Which draw decides which transaction\<close>

lemma draws_of_simps [simp]:
  "draws_of m n [] = 0"
  "draws_of m n (r # rs) = (if success r then m else n) + draws_of m n rs"
  "draws_of m n (rs @ rs') = draws_of m n rs + draws_of m n rs'"
  by (simp_all add: draws_of_def)

lemma random_src_Date_now [simp]: "random_src (snd (Date_now w)) = random_src w"
  by (simp add: Date_now_def)

lemma for_await_draws:
  assumes used: "\<And>x w. random_src (snd (body x w))
                   = sdrop (if success (fst (body x w)) then m else n) (random_src w)"
    and fails: "\<And>x w. \<not> success (fst (body x w)) \<longleftrightarrow> random_src w !! off \<le> \<theta>"
  shows "random_src (snd (for_await body xs w))
           = sdrop (draws_of m n (fst (for_await body xs w))) (random_src w)
       \<and> (\<forall>i < length xs. \<not> success (fst (for_await body xs w) ! i)
             \<longleftrightarrow> random_src w !! (draws_of m n (take i (fst (for_await body xs w))) + off) \<le> \<theta>)"
proof (induction xs arbitrary: w)
  case Nil
  show ?case by simp
next
  case (Cons x xs)
  let ?r = "fst (body x w)" and ?w1 = "snd (body x w)"
  let ?c = "if success ?r then m else n"
  note IH = Cons [of ?w1]
  have fa: "fst (for_await body (x # xs) w) = ?r # fst (for_await body xs ?w1)"
    and sa: "snd (for_await body (x # xs) w) = snd (for_await body xs ?w1)"
    by (simp_all add: case_prod_beta Let_def)
  have src: "random_src ?w1 = sdrop ?c (random_src w)" by (rule used)
  have 1: "random_src (snd (for_await body (x # xs) w))
           = sdrop (draws_of m n (fst (for_await body (x # xs) w))) (random_src w)"
    unfolding fa sa using IH src by (simp add: sdrop_add add.commute)
  have 2: "\<not> success (fst (for_await body (x # xs) w) ! i)
             \<longleftrightarrow> random_src w !! (draws_of m n (take i (fst (for_await body (x # xs) w))) + off) \<le> \<theta>"
    if "i < length (x # xs)" for i
  proof (cases i)
    case 0
    then show ?thesis unfolding fa using fails [of x w] by simp
  next
    case (Suc j)
    then have "j < length xs" using that by simp
    with IH have "\<not> success (fst (for_await body xs ?w1) ! j)
        \<longleftrightarrow> random_src ?w1 !! (draws_of m n (take j (fst (for_await body xs ?w1))) + off) \<le> \<theta>"
      by blast
    then show ?thesis unfolding fa Suc src
      by (simp add: sdrop_snth add.assoc)
  qed
  from 1 2 show ?case by blast
qed

lemma executeSerial_tx_draws:
  "random_src (snd (executeSerial_tx rt itx w))
     = sdrop (if success (fst (executeSerial_tx rt itx w)) then 4 else 2) (random_src w)"
  by (simp add: executeSerial_tx_def Math_random_def Date_now_def Let_def eval_nat_numeral)

lemma executeSerial_tx_fails:
  "\<not> success (fst (executeSerial_tx rt itx w)) \<longleftrightarrow> random_src w !! 1 \<le> 5 / 100"
  by (simp add: executeSerial_tx_success not_less)

lemma executeSerial_draws:
  "random_src (snd (executeSerial rt txs w))
     = sdrop (draws_of 4 2 (fst (executeSerial rt txs w))) (random_src w)"
  "i < length txs \<Longrightarrow>
     \<not> success (fst (executeSerial rt txs w) ! i)
       \<longleftrightarrow> random_src w !! (draws_of 4 2 (take i (fst (executeSerial rt txs w))) + 1) \<le> 5 / 100"
  using for_await_draws [of "executeSerial_tx rt" 4 2 1 "5 / 100"
      "zip [0..<length txs] txs" "snd (Date_now w)", OF executeSerial_tx_draws executeSerial_tx_fails]
  by (simp_all add: executeSerial_def case_prod_beta Let_def)

lemma executeParallel_tx_resume_draws:
  "random_src (snd (executeParallel_tx_resume rt gi ti t0 w))
     = sdrop (if success (fst (executeParallel_tx_resume rt gi ti t0 w)) then 3 else 1) (random_src w)"
  by (simp add: executeParallel_tx_resume_def Math_random_def Date_now_def Let_def eval_nat_numeral)

lemma executeParallel_tx_resume_fails:
  "\<not> success (fst (executeParallel_tx_resume rt gi ti t0 w)) \<longleftrightarrow> random_src w !! 0 \<le> 1 / 100"
  by (simp add: executeParallel_tx_resume_success not_less)

lemma starts_draws:
  "length (fst (for_await (\<lambda>(index, x). executeParallel_tx_start index x) ps w)) = length ps
   \<and> map fst (fst (for_await (\<lambda>(index, x). executeParallel_tx_start index x) ps w))
       = map (\<lambda>j. random_src w !! j * 15 + 5) [0..<length ps]
   \<and> random_src (snd (for_await (\<lambda>(index, x). executeParallel_tx_start index x) ps w))
       = sdrop (length ps) (random_src w)"
proof (induction ps arbitrary: w)
  case Nil
  show ?case by simp
next
  case (Cons p ps)
  obtain index x where p: "p = (index, x)" by (cases p)
  let ?w1 = "snd (executeParallel_tx_start index x w)"
  have s: "random_src ?w1 = stl (random_src w)"
    and d: "fst (fst (executeParallel_tx_start index x w)) = shd (random_src w) * 15 + 5"
    by (simp_all add: executeParallel_tx_start_def Math_random_def Date_now_def Let_def)
  have u: "[0..<length (p # ps)] = 0 # map Suc [0..<length ps]"
    by (simp add: upt_conv_Cons map_Suc_upt del: upt_Suc)
  show ?case
    using Cons [of ?w1] s d unfolding u
    by (simp add: p case_prod_beta Let_def o_def)
qed

lemma firing_order_perm:
  "length (firing_order ds) = length ds"
  "distinct (firing_order ds)"
  "set (firing_order ds) = {0..<length ds}"
  by (simp_all add: firing_order_def)

lemma sorted_by_index:
  assumes d: "distinct order" and s: "set order = {0..<n}" and l: "length order = n"
    and f: "length fin = n" and k: "k < n"
  shows "map snd (sort_key fst (zip order fin)) ! (order ! k) = fin ! k"
proof -
  let ?zs = "zip order fin"
  let ?ss = "sort_key fst ?zs"
  have mz: "map fst ?zs = order" using l f by simp
  have len: "length ?ss = n" using l f by simp
  have "set (map fst ?ss) = set (map fst ?zs)" by simp
  then have set: "set (map fst ?ss) = {0..<n}" using mz s by simp
  then have "card (set (map fst ?ss)) = length (map fst ?ss)" using len by simp
  then have dist: "distinct (map fst ?ss)" by (rule card_distinct)
  have "sorted (map fst ?ss)" by (rule sorted_sort_key)
  then have idx: "map fst ?ss = [0..<n]"
    using dist set by (intro sorted_distinct_set_unique) simp_all
  have ok: "order ! k < n" using s k l by (metis atLeastLessThan_iff nth_mem)
  then have fk: "fst (?ss ! (order ! k)) = order ! k"
    using idx len by (metis nth_map nth_upt add_0)
  have "?ss ! (order ! k) \<in> set ?zs" using ok len by (metis nth_mem set_sort)
  then obtain i where i: "i < n" and e: "?ss ! (order ! k) = (order ! i, fin ! i)"
    using l f by (auto simp: set_zip)
  from fk e have "order ! i = order ! k" by simp
  then have "i = k" using d i k l by (simp add: nth_eq_iff_index_eq)
  then show ?thesis using e ok len by simp
qed

lemma sum_list_reordered:
  fixes g :: "'a \<Rightarrow> nat"
  assumes d: "distinct order" and s: "set order = {0..<n}" and l: "length order = n"
    and r: "length rs = n" and f: "length fin = n"
    and e: "\<And>k. k < n \<Longrightarrow> rs ! (order ! k) = fin ! k"
  shows "sum_list (map g rs) = sum_list (map g fin)"
proof -
  have b: "bij_betw ((!) order) {..<n} {0..<n}"
    using bij_betw_nth [OF d, of "{..<n}" "{0..<n}"] l s by simp
  have "sum_list (map g rs) = (\<Sum>j = 0..<n. g (rs ! j))"
    using r by (simp add: sum_list_sum_nth)
  also have "\<dots> = (\<Sum>k\<in>{..<n}. g (rs ! (order ! k)))"
    using sum.reindex_bij_betw [OF b, of "\<lambda>j. g (rs ! j)"] by simp
  also have "\<dots> = (\<Sum>k\<in>{..<n}. g (fin ! k))"
    using e by simp
  also have "\<dots> = sum_list (map g fin)"
    using f by (simp add: sum_list_sum_nth atLeast0LessThan)
  finally show ?thesis .
qed

lemma draws_of_4_2: "draws_of 4 2 rs = length rs + draws_of 3 1 rs"
  by (induction rs) simp_all

lemma promise_all_draws:
  fixes w :: "'e world_scheme" and xs :: "ArcologyTransaction list" and rt :: runtime and gi :: nat
  defines "rs \<equiv> fst (promise_all executeParallel_tx_start (executeParallel_tx_resume rt gi) xs w)"
    and "order \<equiv> firing_order (map (\<lambda>j. random_src w !! j * 15 + 5) [0..<length xs])"
  shows "length rs = length xs"
    and "random_src (snd (promise_all executeParallel_tx_start (executeParallel_tx_resume rt gi) xs w))
           = sdrop (draws_of 4 2 rs) (random_src w)"
    and "k < length xs \<Longrightarrow>
           \<not> success (rs ! (order ! k))
             \<longleftrightarrow> random_src w !! (length xs + draws_of 3 1 (map (\<lambda>k'. rs ! (order ! k')) [0..<k]))
                   \<le> 1 / 100"
proof -
  let ?n = "length xs"
  let ?st = "for_await (\<lambda>(index, x). executeParallel_tx_start index x) (zip [0..<?n] xs) w"
  let ?started = "fst ?st" and ?w1 = "snd ?st"
  let ?body = "\<lambda>i. executeParallel_tx_resume rt gi i (snd (?started ! i))"
  let ?fa = "for_await ?body order ?w1"
  let ?fin = "fst ?fa"
  note st = starts_draws [of "zip [0..<?n] xs" w]
  have delays: "map fst ?started = map (\<lambda>j. random_src w !! j * 15 + 5) [0..<?n]"
    and src1: "random_src ?w1 = sdrop ?n (random_src w)"
    using st by simp_all
  have ord: "firing_order (map fst ?started) = order" by (simp add: delays order_def)
  have perm: "length order = ?n" "distinct order" "set order = {0..<?n}"
    unfolding order_def by (simp_all add: firing_order_perm)
  have pa: "promise_all executeParallel_tx_start (executeParallel_tx_resume rt gi) xs w
              = (map snd (sort_key fst (zip order ?fin)), snd ?fa)"
    by (simp add: promise_all_def case_prod_beta Let_def ord)
  have rs: "rs = map snd (sort_key fst (zip order ?fin))" by (simp add: rs_def pa)
  have lf: "length ?fin = ?n" by (simp add: for_await_length perm)
  show lr: "length rs = ?n" by (simp add: rs lf perm)
  have at: "rs ! (order ! k) = ?fin ! k" if "k < ?n" for k
    unfolding rs using perm lf that by (intro sorted_by_index) simp_all
  note fd = for_await_draws [of ?body 3 1 0 "1 / 100" order ?w1,
      OF executeParallel_tx_resume_draws executeParallel_tx_resume_fails]
  have "draws_of 3 1 rs = draws_of 3 1 ?fin"
    unfolding draws_of_def using perm lr lf at by (intro sum_list_reordered [where order = order]) simp_all
  then show "random_src (snd (promise_all executeParallel_tx_start (executeParallel_tx_resume rt gi) xs w))
           = sdrop (draws_of 4 2 rs) (random_src w)"
    using fd src1 lr by (simp add: pa draws_of_4_2 sdrop_add add.commute)
  show "\<not> success (rs ! (order ! k))
             \<longleftrightarrow> random_src w !! (length xs + draws_of 3 1 (map (\<lambda>k'. rs ! (order ! k')) [0..<k]))
                   \<le> 1 / 100" if k: "k < length xs"
  proof -
    have "take k ?fin = map (\<lambda>k'. ?fin ! k') [0..<k]"
      using k lf by (intro nth_equalityI) simp_all
    also have "\<dots> = map (\<lambda>k'. rs ! (order ! k')) [0..<k]"
      using k at by simp
    finally have t: "take k ?fin = map (\<lambda>k'. rs ! (order ! k')) [0..<k]" .
    from fd k perm have "\<not> success (?fin ! k)
        \<longleftrightarrow> random_src ?w1 !! (draws_of 3 1 (take k ?fin) + 0) \<le> 1 / 100" by simp
    then show ?thesis
      unfolding t src1 at [OF k] by (simp add: sdrop_snth)
  qed
qed

lemma executeParallel_group_draws:
  fixes w :: "'e world_scheme" and g :: "nat \<times> ArcologyTransaction list" and rt :: runtime
  defines "rs \<equiv> fst (executeParallel_group rt g w)"
    and "order \<equiv> firing_order (map (\<lambda>j. random_src w !! j * 15 + 5) [0..<length (snd g)])"
  shows "random_src (snd (executeParallel_group rt g w)) = sdrop (draws_of 4 2 rs) (random_src w)"
    and "k < length (snd g) \<Longrightarrow>
           \<not> success (rs ! (order ! k))
             \<longleftrightarrow> random_src w !! (length (snd g)
                    + draws_of 3 1 (map (\<lambda>k'. rs ! (order ! k')) [0..<k])) \<le> 1 / 100"
  using promise_all_draws(2,3) [where rt = rt and gi = "fst g" and xs = "snd g" and w = "snd (Date_now w)"]
  by (simp_all add: rs_def order_def executeParallel_group_def case_prod_beta Let_def)

lemma concat_nth_offset:
  "g < length xss \<Longrightarrow> i < length (xss ! g) \<Longrightarrow>
     concat xss ! (length (concat (take g xss)) + i) = xss ! g ! i"
proof (induction xss arbitrary: g)
  case Nil
  then show ?case by simp
next
  case (Cons xs xss)
  show ?case
  proof (cases g)
    case 0
    then show ?thesis using Cons.prems by (simp add: nth_append)
  next
    case (Suc g')
    then show ?thesis using Cons.prems Cons.IH [of g'] by (simp add: nth_append add.assoc)
  qed
qed

lemma take_concat_offset:
  "take (length (concat (take g xss))) (concat xss) = concat (take g xss)"
proof (induction xss arbitrary: g)
  case Nil
  then show ?case by simp
next
  case (Cons xs xss)
  then show ?case by (cases g) simp_all
qed

lemma length_concat_take:
  "map length xss = map length yss \<Longrightarrow> length (concat (take g xss)) = length (concat (take g yss))"
  by (metis length_concat take_map)

lemma groups_draws:
  fixes w :: "'e world_scheme" and ps :: "(nat \<times> ArcologyTransaction list) list" and rt :: runtime
  shows "random_src (snd (for_await (executeParallel_group rt) ps w))
           = sdrop (draws_of 4 2 (concat (fst (for_await (executeParallel_group rt) ps w))))
               (random_src w)
   \<and> (\<forall>g k. g < length ps \<longrightarrow> k < length (snd (ps ! g)) \<longrightarrow>
         (\<not> success (fst (for_await (executeParallel_group rt) ps w) ! g
               ! (firing_order (map (\<lambda>j. random_src w
                      !! (draws_of 4 2 (concat (take g (fst (for_await (executeParallel_group rt) ps w))))
                          + j) * 15 + 5) [0..<length (snd (ps ! g))]) ! k))
          \<longleftrightarrow> random_src w
                !! (draws_of 4 2 (concat (take g (fst (for_await (executeParallel_group rt) ps w))))
                    + length (snd (ps ! g))
                    + draws_of 3 1 (map (\<lambda>k'. fst (for_await (executeParallel_group rt) ps w) ! g
                         ! (firing_order (map (\<lambda>j. random_src w
                              !! (draws_of 4 2 (concat (take g (fst (for_await (executeParallel_group rt) ps w))))
                                  + j) * 15 + 5) [0..<length (snd (ps ! g))]) ! k')) [0..<k]))
              \<le> 1 / 100))"
proof (induction ps arbitrary: w)
  case Nil
  show ?case by simp
next
  case (Cons p ps)
  let ?r0 = "fst (executeParallel_group rt p w)" and ?w1 = "snd (executeParallel_group rt p w)"
  let ?c0 = "draws_of 4 2 ?r0"
  let ?rss = "fst (for_await (executeParallel_group rt) ps ?w1)"
  have fa: "fst (for_await (executeParallel_group rt) (p # ps) w) = ?r0 # ?rss"
    and sa: "snd (for_await (executeParallel_group rt) (p # ps) w)
               = snd (for_await (executeParallel_group rt) ps ?w1)"
    by (simp_all add: case_prod_beta Let_def)
  have src: "random_src ?w1 = sdrop ?c0 (random_src w)"
    by (rule executeParallel_group_draws(1))
  note IH = Cons [of ?w1]
  have 1: "random_src (snd (for_await (executeParallel_group rt) (p # ps) w))
           = sdrop (draws_of 4 2 (concat (fst (for_await (executeParallel_group rt) (p # ps) w))))
               (random_src w)"
    unfolding fa sa using IH src by (simp add: sdrop_add add.commute)
  have 2: "\<not> success ((?r0 # ?rss) ! g
               ! (firing_order (map (\<lambda>j. random_src w
                      !! (draws_of 4 2 (concat (take g (?r0 # ?rss))) + j) * 15 + 5)
                      [0..<length (snd ((p # ps) ! g))]) ! k))
          \<longleftrightarrow> random_src w
                !! (draws_of 4 2 (concat (take g (?r0 # ?rss)))
                    + length (snd ((p # ps) ! g))
                    + draws_of 3 1 (map (\<lambda>k'. (?r0 # ?rss) ! g
                         ! (firing_order (map (\<lambda>j. random_src w
                              !! (draws_of 4 2 (concat (take g (?r0 # ?rss))) + j) * 15 + 5)
                              [0..<length (snd ((p # ps) ! g))]) ! k')) [0..<k]))
              \<le> 1 / 100"
    if g: "g < length (p # ps)" and k: "k < length (snd ((p # ps) ! g))" for g k
  proof (cases g)
    case 0
    then show ?thesis
      using executeParallel_group_draws(2) [where k = k and g = p and w = w and rt = rt] k by simp
  next
    case (Suc g')
    then have g': "g' < length ps" and k': "k < length (snd (ps ! g'))" using g k by simp_all
    from IH g' k' show ?thesis
      unfolding Suc src by (simp add: sdrop_snth add.assoc)
  qed
  from 1 2 show ?case unfolding fa by blast
qed

lemma executeParallel_groups:
  assumes "executeParallel rt txs c w = Some (rs, w')"
    and "createConflictFreeGroups txs (case c of None \<Rightarrow> 4 | Some k \<Rightarrow> k) = Some groups"
  shows "rs = concat (fst (for_await (executeParallel_group rt) (zip [0..<length groups] groups)
                (snd (Date_now w))))"
    and "map length (fst (for_await (executeParallel_group rt) (zip [0..<length groups] groups)
                (snd (Date_now w)))) = map length groups"
proof -
  show "rs = concat (fst (for_await (executeParallel_group rt) (zip [0..<length groups] groups)
                (snd (Date_now w))))"
    using assms by (auto simp: executeParallel_def case_prod_beta Let_def)
  have "map length (fst (for_await (executeParallel_group rt) (zip [0..<length groups] groups)
                (snd (Date_now w))))
        = map (\<lambda>g. length (snd g)) (zip [0..<length groups] groups)"
    by (rule for_await_lengths) (rule executeParallel_group_length)
  also have "\<dots> = map length (map snd (zip [0..<length groups] groups))"
    by (simp only: map_map o_def)
  also have "map snd (zip [0..<length groups] groups) = groups"
    by (rule map_snd_zip) simp
  finally show "map length (fst (for_await (executeParallel_group rt) (zip [0..<length groups] groups)
                (snd (Date_now w)))) = map length groups" .
qed

lemma executeParallel_draws:
  fixes w :: "'e world_scheme"
  assumes run: "executeParallel rt txs c w = Some (rs, w')"
    and gs: "createConflictFreeGroups txs (case c of None \<Rightarrow> 4 | Some k \<Rightarrow> k) = Some groups"
    and g: "g < length groups" and k: "k < length (groups ! g)"
  defines "before \<equiv> length (concat (take g groups))"
  defines "base \<equiv> draws_of 4 2 (take before rs)"
  defines "order \<equiv> firing_order (map (\<lambda>j. random_src w !! (base + j) * 15 + 5)
                                    [0..<length (groups ! g)])"
  shows "\<not> success (rs ! (before + order ! k))
           \<longleftrightarrow> random_src w !! (base + length (groups ! g)
                  + draws_of 3 1 (map (\<lambda>k'. rs ! (before + order ! k')) [0..<k])) \<le> 1 / 100"
proof -
  let ?ps = "zip [0..<length groups] groups"
  let ?w1 = "snd (Date_now w)"
  let ?rss = "fst (for_await (executeParallel_group rt) ?ps ?w1)"
  note eg = executeParallel_groups [OF run gs]
  have lr: "length ?rss = length groups" using eg(2) by (metis length_map)
  have lg: "length (?rss ! g) = length (groups ! g)"
    using eg(2) g lr by (metis nth_map)
  have pg: "snd (?ps ! g) = groups ! g" and lp: "g < length ?ps" using g by simp_all
  have bef: "before = length (concat (take g ?rss))"
    unfolding before_def using length_concat_take [OF eg(2)] by simp
  have tk: "take before rs = concat (take g ?rss)"
    unfolding bef eg(1) by (rule take_concat_offset)
  have base: "base = draws_of 4 2 (concat (take g ?rss))" by (simp add: base_def tk)
  have perm: "length order = length (groups ! g)" "set order = {0..<length (groups ! g)}"
    unfolding order_def by (simp_all add: firing_order_perm)
  have inr: "order ! i < length (groups ! g)" if "i < length (groups ! g)" for i
    using perm that by (metis atLeastLessThan_iff nth_mem)
  have at: "rs ! (before + order ! i) = ?rss ! g ! (order ! i)" if "i < length (groups ! g)" for i
    unfolding bef eg(1) using g lr lg inr [OF that] by (intro concat_nth_offset) simp_all
  have m: "map (\<lambda>k'. rs ! (before + order ! k')) [0..<k]
             = map (\<lambda>k'. ?rss ! g ! (order ! k')) [0..<k]"
    using k at by simp
  from groups_draws [of rt ?ps ?w1] lp k pg
  have "\<not> success (?rss ! g ! (order ! k))
          \<longleftrightarrow> random_src w !! (base + length (groups ! g)
                  + draws_of 3 1 (map (\<lambda>k'. ?rss ! g ! (order ! k')) [0..<k])) \<le> 1 / 100"
    unfolding order_def base by simp
  then show ?thesis unfolding m at [OF k] .
qed

lemma for_await_all:
  assumes "\<And>x w. P (fst (body x w))"
  shows "\<forall>r \<in> set (fst (for_await body xs w)). P r"
  by (induction xs arbitrary: w) (simp_all add: case_prod_beta Let_def assms)

lemma promise_all_all:
  assumes "\<And>i c w. P (fst (resume i c w))"
  shows "\<forall>r \<in> set (fst (promise_all start resume xs w)). P r"
proof
  fix r
  let ?st = "for_await (\<lambda>(index, x). start index x) (zip [0..<length xs] xs) w"
  let ?order = "firing_order (map fst (fst ?st))"
  let ?fin = "fst (for_await (\<lambda>i. resume i (snd (fst ?st ! i))) ?order (snd ?st))"
  assume "r \<in> set (fst (promise_all start resume xs w))"
  then have "r \<in> set (map snd (sort_key fst (zip ?order ?fin)))"
    by (simp add: promise_all_def case_prod_beta Let_def)
  then have "r \<in> snd ` set (zip ?order ?fin)" by simp
  then have "r \<in> set ?fin" by (auto dest: set_zip_rightD)
  moreover have "\<forall>r \<in> set ?fin. P r"
    by (rule for_await_all) (rule assms)
  ultimately show "P r" by blast
qed

lemma executeSerial_errors:
  "\<forall>r \<in> set (fst (executeSerial rt txs w)).
     (success r \<longrightarrow> error r = None) \<and> (\<not> success r \<longrightarrow> (\<exists>e. e \<noteq> [] \<and> error r = Some e))"
proof -
  have "\<forall>r \<in> set (fst (for_await (executeSerial_tx rt) (zip [0..<length txs] txs) (snd (Date_now w)))).
     (success r \<longrightarrow> error r = None) \<and> (\<not> success r \<longrightarrow> (\<exists>e. e \<noteq> [] \<and> error r = Some e))"
    by (rule for_await_all) (simp add: executeSerial_tx_error)
  then show ?thesis by (simp add: executeSerial_def case_prod_beta Let_def)
qed

lemma executeParallel_group_errors:
  "\<forall>r \<in> set (fst (executeParallel_group rt g w)).
     (success r \<longrightarrow> error r = None) \<and> (\<not> success r \<longrightarrow> (\<exists>e. e \<noteq> [] \<and> error r = Some e))"
proof -
  have "\<forall>r \<in> set (fst (promise_all executeParallel_tx_start (executeParallel_tx_resume rt (fst g))
                          (snd g) (snd (Date_now w)))).
     (success r \<longrightarrow> error r = None) \<and> (\<not> success r \<longrightarrow> (\<exists>e. e \<noteq> [] \<and> error r = Some e))"
    by (rule promise_all_all) (simp add: executeParallel_tx_resume_error)
  then show ?thesis by (simp add: executeParallel_group_def case_prod_beta Let_def)
qed

lemma executeParallel_errors:
  assumes "executeParallel rt txs c w = Some (rs, w')"
  shows "\<forall>r \<in> set rs.
     (success r \<longrightarrow> error r = None) \<and> (\<not> success r \<longrightarrow> (\<exists>e. e \<noteq> [] \<and> error r = Some e))"
proof -
  from assms obtain gs where
    rs: "rs = concat (fst (for_await (executeParallel_group rt) (zip [0..<length gs] gs)
                (snd (Date_now w))))"
    by (auto simp: executeParallel_def case_prod_beta Let_def split: option.splits)
  have "\<forall>rs' \<in> set (fst (for_await (executeParallel_group rt) (zip [0..<length gs] gs)
                (snd (Date_now w)))).
          \<forall>r \<in> set rs'. (success r \<longrightarrow> error r = None)
             \<and> (\<not> success r \<longrightarrow> (\<exists>e. e \<noteq> [] \<and> error r = Some e))"
    by (rule for_await_all) (rule executeParallel_group_errors)
  then show ?thesis unfolding rs by auto
qed

lemma failed_errors:
  assumes "\<forall>r \<in> set rs.
     (success r \<longrightarrow> error r = None) \<and> (\<not> success r \<longrightarrow> (\<exists>e. e \<noteq> [] \<and> error r = Some e))"
  shows "a_errors (fst (calculateBenchmarkResult rt m rs n w))
           = map (\<lambda>r. the (error r)) (filter (\<lambda>r. \<not> success r) rs)"
  unfolding calculateBenchmarkResult_errors using assms by (induction rs) auto

lemma random_src_calculateBenchmarkResult:
  "random_src (snd (calculateBenchmarkResult rt m rs n w)) = random_src w"
  by (simp add: calculateBenchmarkResult_def new_Date_toISOString_def case_prod_beta Let_def
      del: js_div.simps js_mul.simps)

lemma random_src_constant_world: "random_src (constant_world x) !! n = x"
proof -
  have "sconst x !! n \<in> sset (sconst x)" by (rule snth_sset)
  then show ?thesis by (simp add: constant_world_def)
qed

lemma demo_groups:
  "createConflictFreeGroups [demo_tx, demo_tx, demo_tx] 2 = Some [[demo_tx, demo_tx], [demo_tx]]"
  by (simp add: createConflictFreeGroups_def chunk_loop.simps js_slice_def)

section \<open>Properties of the command line\<close>

lemma runBenchmark_default_returns:
  "\<exists>r w'. runBenchmark rt defaultEVVMConfig inst m n w = Some (r, w')"
proof -
  have "defaultConcurrency defaultEVVMConfig \<noteq> 0" by (simp add: defaultEVVMConfig_concurrency)
  from run_mode_Some [OF this] obtain t' w2 where
    "run_mode defaultEVVMConfig m (case n of None \<Rightarrow> defaultTxCount defaultEVVMConfig | Some k \<Rightarrow> k)
      \<lparr>t_errors = [], t_successfulTxs = 0, t_totalGasUsed = 0\<rparr> (snd (Date_now w)) = Some (t', w2)"
    by blast
  from runBenchmark_returns [OF this] show ?thesis .
qed

lemma run_if_returns: "\<exists>rs' w'. run_if c rt inst m n rs w = Some (rs', w')"
  using runBenchmark_default_returns [of rt inst m "Some n" w]
  by (auto simp: run_if_def)

lemma run_selected_returns: "\<exists>rs w'. run_selected rt inst m n w = Some (rs, w')"
proof -
  obtain rs1 w1 where 1: "run_if (m = ''all'' \<or> m = ''serial'') rt inst ''serial'' n [] w = Some (rs1, w1)"
    using run_if_returns by blast
  obtain rs2 w2 where 2: "run_if (m = ''all'' \<or> m = ''parallel'') rt inst ''parallel'' n rs1 w1 = Some (rs2, w2)"
    using run_if_returns by blast
  obtain rs3 w3 where 3: "run_if (m = ''all'' \<or> m = ''evvm-async'') rt inst ''evvm-async'' n rs2 w2 = Some (rs3, w3)"
    using run_if_returns by blast
  show ?thesis by (simp add: run_selected_def 1 2 3)
qed

lemma deploy_body_absent:
  "map_of (files w) (instanceFile rt i) = None \<Longrightarrow>
     deploy_body rt i c w = (Inl (Error (''Instance '' @ i @ '' not found'')), w)"
  by (simp add: deploy_body_def pathExists_def)

lemma writeJson_cases:
  "(\<exists>c p' w'. writeJson p j w = (Inl (SystemError c p'), w')) \<or> (\<exists>w'. writeJson p j w = (Inr (), w'))"
  by (auto simp: writeJson_def split: option.splits node.splits)

lemma ensureDir_cases:
  "(\<exists>c p' w'. ensureDir p w = (Inl (SystemError c p'), w')) \<or> (\<exists>w'. ensureDir p w = (Inr (), w'))"
  by (auto simp: ensureDir_def)

lemma readJson_cases:
  "(\<exists>c p'. readJson p w = Inl (SystemError c p')) \<or> (\<exists>s. readJson p w = Inl (SyntaxError s))
     \<or> (\<exists>j. readJson p w = Inr j)"
  by (auto simp: readJson_def split: option.splits node.splits json_file.splits)

lemma deployContract_parsed_cases:
  "(\<exists>n w'. deployContract_parsed rt j c w = (Inl (TypeError n), w'))
     \<or> (\<exists>d w'. deployContract_parsed rt j c w = (Inr d, w'))"
  by (cases j) (simp_all add: deployContract_parsed_def case_prod_beta)

lemma benchmark_body_absent:
  "map_of (files w) (instanceFile rt i) = None \<Longrightarrow>
     benchmark_body rt i m n d w = Some (Inl (Error (''Instance '' @ i @ '' not found'')), w)"
  by (simp add: benchmark_body_def pathExists_def)

lemma benchmark_body_present:
  assumes "map_of (files w) (instanceFile rt i) \<noteq> None"
  shows "\<exists>r w'. benchmark_body rt i m n d w = Some (r, w') \<and> r \<noteq> Inl (Error msg)"
proof -
  from assms have ex: "pathExists (instanceFile rt i) w" by (simp add: pathExists_def)
  consider (sys) c p' where "readJson (instanceFile rt i) w = Inl (SystemError c p')"
    | (syn) s where "readJson (instanceFile rt i) w = Inl (SyntaxError s)"
    | (ok) j where "readJson (instanceFile rt i) w = Inr j"
    using readJson_cases [of "instanceFile rt i" w] by blast
  then show ?thesis
  proof cases
    case sys then show ?thesis using ex by (simp add: benchmark_body_def)
  next
    case syn then show ?thesis using ex by (simp add: benchmark_body_def)
  next
    case ok
    obtain rs w1 where run: "run_selected rt (instance_fields j) m n w = Some (rs, w1)"
      using run_selected_returns by blast
    consider (e) c p' w2 where "ensureDir (resultsDir rt) w1 = (Inl (SystemError c p'), w2)"
      | (d) w2 where "ensureDir (resultsDir rt) w1 = (Inr (), w2)"
      using ensureDir_cases [of "resultsDir rt" w1] by blast
    then show ?thesis
    proof cases
      case e then show ?thesis using ex ok run by (simp add: benchmark_body_def)
    next
      case d
      show ?thesis
      proof (cases "j = JNull")
        case True
        then show ?thesis using ex ok run d by (simp add: benchmark_body_def)
      next
        case False
      let ?w4 = "snd (new_Date_toISOString rt (snd (Date_now w2)))"
      let ?p = "resultsFile rt (template_string (o_id (instance_fields j))) (fst (Date_now w2))"
      let ?j = "JReport \<lparr>r_instanceId = o_id (instance_fields j),
                   r_config = \<lparr>rc_txCount = n, rc_mode = m, rc_demo = d\<rparr>,
                   r_results = rs,
                   r_timestamp = fst (new_Date_toISOString rt (snd (Date_now w2)))\<rparr>"
      consider (we) c p' w5 where "writeJson ?p ?j ?w4 = (Inl (SystemError c p'), w5)"
        | (wd) w5 where "writeJson ?p ?j ?w4 = (Inr (), w5)"
        using writeJson_cases [of ?p ?j ?w4] by blast
      then show ?thesis
      proof cases
        case we then show ?thesis using ex ok run d False
          by (cases j) (simp_all add: benchmark_body_def case_prod_beta Let_def)
      next
        case wd then show ?thesis using ex ok run d False
          by (cases j) (simp_all add: benchmark_body_def case_prod_beta Let_def)
      qed
      qed
    qed
  qed
qed

lemma deploy_body_present:
  assumes "map_of (files w) (instanceFile rt i) \<noteq> None"
  shows "fst (deploy_body rt i c w) \<noteq> Inl (Error msg)"
proof -
  from assms have ex: "pathExists (instanceFile rt i) w" by (simp add: pathExists_def)
  consider (sys) c p' where "readJson (instanceFile rt i) w = Inl (SystemError c p')"
    | (syn) s where "readJson (instanceFile rt i) w = Inl (SyntaxError s)"
    | (ok) j where "readJson (instanceFile rt i) w = Inr j"
    using readJson_cases [of "instanceFile rt i" w] by blast
  then show ?thesis
  proof cases
    case sys then show ?thesis using ex by (simp add: deploy_body_def)
  next
    case syn then show ?thesis using ex by (simp add: deploy_body_def)
  next
    case ok
    consider (te) n w1 where "deployContract_parsed rt j c w = (Inl (TypeError n), w1)"
      | (dp) d w1 where "deployContract_parsed rt j c w = (Inr d, w1)"
      using deployContract_parsed_cases [of rt j c w] by blast
    then show ?thesis
    proof cases
      case te then show ?thesis using ex ok by (simp add: deploy_body_def)
    next
      case dp
      consider (we) c p' w5 where
          "writeJson (instanceFile rt i) (JInstance (obj_of d)) w1 = (Inl (SystemError c p'), w5)"
        | (wd) w5 where
          "writeJson (instanceFile rt i) (JInstance (obj_of d)) w1 = (Inr (), w5)"
        using writeJson_cases by blast
      then show ?thesis
      proof cases
        case we then show ?thesis using ex ok dp by (simp add: deploy_body_def)
      next
        case wd then show ?thesis using ex ok dp by (simp add: deploy_body_def)
      qed
    qed
  qed
qed

lemma caught_tagged:
  "snd (caught (tagged f r)) = snd r"
  "fst (caught (tagged f r)) = Exit1 e \<longleftrightarrow> fst r = Inl e"
  "fst (caught (tagged f r)) \<noteq> Thrown e"
  by (cases r; cases "fst r"; simp add: caught_def tagged_def)+

lemma rethrown_tagged:
  "snd (rethrown (tagged f r)) = snd r"
  "fst (rethrown (tagged f r)) = Thrown e \<longleftrightarrow> fst r = Inl e"
  "fst (rethrown (tagged f r)) \<noteq> Exit1 e"
  by (cases r; cases "fst r"; simp add: rethrown_def tagged_def)+

lemma program_lookup:
  "map_of program ''init'' = Some (action_init caught)"
  "map_of program ''deploy'' = Some (action_deploy caught)"
  "map_of program ''benchmark'' = Some (action_benchmark caught)"
  "map_of program ''list'' = Some action_list"
  "map_of program ''demo'' = Some (action_demo caught)"
  by (simp_all add: program_def)

lemma tasks_lookup:
  "map_of tasks ''evvm:init'' = Some (action_init rethrown)"
  "map_of tasks ''evvm:deploy'' = Some (action_deploy rethrown)"
  "map_of tasks ''evvm:benchmark'' = Some (action_benchmark rethrown)"
  "map_of tasks ''evvm:list'' = Some action_list"
  by (simp_all add: tasks_def)

lemma deploy_body_not_found:
  "(fst (deploy_body rt i c w) = Inl (Error (''Instance '' @ i @ '' not found''))
      \<longleftrightarrow> map_of (files w) (instanceFile rt i) = None)
   \<and> (map_of (files w) (instanceFile rt i) = None \<longrightarrow> snd (deploy_body rt i c w) = w)"
  using deploy_body_absent [of w rt i c] deploy_body_present [of w rt i c]
  by (cases "map_of (files w) (instanceFile rt i) = None") auto

lemma benchmark_body_not_found:
  "\<exists>r w'. benchmark_body rt i m n d w = Some (r, w')
     \<and> (r = Inl (Error (''Instance '' @ i @ '' not found''))
          \<longleftrightarrow> map_of (files w) (instanceFile rt i) = None)
     \<and> (map_of (files w) (instanceFile rt i) = None \<longrightarrow> w' = w)"
  using benchmark_body_absent [of w rt i m n d] benchmark_body_present [of w rt i m n d]
  by (cases "map_of (files w) (instanceFile rt i) = None") auto

lemma action_deploy_not_found:
  assumes "nth_arg args 0 = Some i"
  shows "\<exists>out w'. action_deploy caught rt args w = Some (out, w')
     \<and> (out = Exit1 (Error (''Instance '' @ i @ '' not found''))
          \<longleftrightarrow> map_of (files w) (instanceFile rt i) = None)
     \<and> (map_of (files w) (instanceFile rt i) = None \<longrightarrow> w' = w)"
    and "\<exists>out w'. action_deploy rethrown rt args w = Some (out, w')
     \<and> (out = Thrown (Error (''Instance '' @ i @ '' not found''))
          \<longleftrightarrow> map_of (files w) (instanceFile rt i) = None)
     \<and> (map_of (files w) (instanceFile rt i) = None \<longrightarrow> w' = w)"
proof -
  let ?b = "deploy_body rt i (or_default (nth_arg args 1) ''ParallelCounter'') w"
  note nf = deploy_body_not_found [of rt i "or_default (nth_arg args 1) ''ParallelCounter''" w]
  have "action_deploy caught rt args w
      = Some (fst (caught (tagged Instance ?b)), snd (caught (tagged Instance ?b)))"
    using assms by (simp add: action_deploy_def)
  then show "\<exists>out w'. action_deploy caught rt args w = Some (out, w')
     \<and> (out = Exit1 (Error (''Instance '' @ i @ '' not found''))
          \<longleftrightarrow> map_of (files w) (instanceFile rt i) = None)
     \<and> (map_of (files w) (instanceFile rt i) = None \<longrightarrow> w' = w)"
    using nf by (simp add: caught_tagged)
  have "action_deploy rethrown rt args w
      = Some (fst (rethrown (tagged Instance ?b)), snd (rethrown (tagged Instance ?b)))"
    using assms by (simp add: action_deploy_def)
  then show "\<exists>out w'. action_deploy rethrown rt args w = Some (out, w')
     \<and> (out = Thrown (Error (''Instance '' @ i @ '' not found''))
          \<longleftrightarrow> map_of (files w) (instanceFile rt i) = None)
     \<and> (map_of (files w) (instanceFile rt i) = None \<longrightarrow> w' = w)"
    using nf by (simp add: rethrown_tagged)
qed

lemma action_benchmark_not_found:
  assumes "nth_arg args 0 = Some i"
  shows "\<exists>out w'. action_benchmark caught rt args w = Some (out, w')
     \<and> (out = Exit1 (Error (''Instance '' @ i @ '' not found''))
          \<longleftrightarrow> map_of (files w) (instanceFile rt i) = None)
     \<and> (map_of (files w) (instanceFile rt i) = None \<longrightarrow> w' = w)"
    and "\<exists>out w'. action_benchmark rethrown rt args w = Some (out, w')
     \<and> (out = Thrown (Error (''Instance '' @ i @ '' not found''))
          \<longleftrightarrow> map_of (files w) (instanceFile rt i) = None)
     \<and> (map_of (files w) (instanceFile rt i) = None \<longrightarrow> w' = w)"
proof -
  obtain r w1 where b: "benchmark_body rt i (or_default (opt_mode args) ''all'')
               (or_default (opt_txCount args) 100) (opt_demo args) w = Some (r, w1)"
    and nf: "r = Inl (Error (''Instance '' @ i @ '' not found''))
          \<longleftrightarrow> map_of (files w) (instanceFile rt i) = None"
      "map_of (files w) (instanceFile rt i) = None \<longrightarrow> w1 = w"
    using benchmark_body_not_found by blast
  have "action_benchmark caught rt args w
      = Some (fst (caught (tagged Results (r, w1))), snd (caught (tagged Results (r, w1))))"
    using assms b by (simp add: action_benchmark_def)
  then show "\<exists>out w'. action_benchmark caught rt args w = Some (out, w')
     \<and> (out = Exit1 (Error (''Instance '' @ i @ '' not found''))
          \<longleftrightarrow> map_of (files w) (instanceFile rt i) = None)
     \<and> (map_of (files w) (instanceFile rt i) = None \<longrightarrow> w' = w)"
    using nf by (simp add: caught_tagged)
  have "action_benchmark rethrown rt args w
      = Some (fst (rethrown (tagged Results (r, w1))), snd (rethrown (tagged Results (r, w1))))"
    using assms b by (simp add: action_benchmark_def)
  then show "\<exists>out w'. action_benchmark rethrown rt args w = Some (out, w')
     \<and> (out = Thrown (Error (''Instance '' @ i @ '' not found''))
          \<longleftrightarrow> map_of (files w) (instanceFile rt i) = None)
     \<and> (map_of (files w) (instanceFile rt i) = None \<longrightarrow> w' = w)"
    using nf by (simp add: rethrown_tagged)
qed


lemma demo_paths:
  "instanceFile demo_runtime ''evvm-1'' = ''/work/instances/evvm-1.json''"
  "instanceFile demo_runtime ''../evvm-1'' = ''/work/evvm-1.json''"
  by (simp_all add: instanceFile_def instancesDir_def path_join_def path_normalize_def
        demo_runtime_def)
section \<open>The files that the commands are bound to\<close>

subsection \<open>Paths made of plain names\<close>

lemma split_on_not_Nil: "split_on c s \<noteq> []"
  by (induction s) (auto split: list.splits)

lemma split_on_snoc:
  "c \<notin> set s \<Longrightarrow> split_on c (xs @ c # s) = split_on c xs @ [s]"
proof (induction xs)
  case Nil
  then show ?case by (induction s) (auto split: list.splits)
next
  case (Cons a xs)
  then show ?case using split_on_not_Nil [of c xs] by (cases "split_on c xs") auto
qed

lemma absolute_path_snoc: "absolute_path (segs @ [x]) = absolute_path segs @ CHR ''/'' # x"
  by (simp add: absolute_path_def)

lemma split_on_absolute_path:
  "list_all plain segs \<Longrightarrow> split_on CHR ''/'' (absolute_path segs) = [] # segs"
proof (induction segs rule: rev_induct)
  case Nil
  show ?case by (simp add: absolute_path_def)
next
  case (snoc x xs)
  then have xs: "list_all plain xs" and "plain x" by simp_all
  then have x: "CHR ''/'' \<notin> set x" by (simp add: plain_def)
  show ?case
    unfolding absolute_path_snoc using snoc.IH [OF xs] by (simp add: split_on_snoc [OF x])
qed

lemma normalizeString_plain:
  "list_all plain segs \<Longrightarrow> normalizeString a segs res = rev res @ segs"
  by (induction segs arbitrary: res) (auto simp: plain_def)

lemma intercalate_absolute:
  "segs \<noteq> [] \<Longrightarrow> CHR ''/'' # intercalate ''/'' segs = absolute_path segs"
proof (induction segs)
  case Nil
  then show ?case by simp
next
  case (Cons s segs)
  then show ?case by (cases segs) (simp_all add: absolute_path_def)
qed

lemma absolute_path_ends:
  assumes "segs \<noteq> []" "list_all plain segs"
  shows "absolute_path segs \<noteq> []" "hd (absolute_path segs) = CHR ''/''"
    "last (absolute_path segs) \<noteq> CHR ''/''"
proof -
  obtain xs x where s: "segs = xs @ [x]" using assms(1) by (metis rev_exhaust)
  then have x: "x \<noteq> []" "CHR ''/'' \<notin> set x" using assms(2) by (simp_all add: plain_def)
  show "absolute_path segs \<noteq> []" using assms(1) by (cases segs) (simp_all add: absolute_path_def)
  show "hd (absolute_path segs) = CHR ''/''" using assms(1) by (cases segs) (simp_all add: absolute_path_def)
  have "last (absolute_path segs) = last x" unfolding s absolute_path_snoc using x by simp
  then show "last (absolute_path segs) \<noteq> CHR ''/''" using x by (metis last_in_set)
qed

lemma path_normalize_absolute:
  assumes "segs \<noteq> []" "list_all plain segs"
  shows "path_normalize (absolute_path segs) = absolute_path segs"
proof -
  have i: "intercalate ''/'' segs \<noteq> []"
    using assms by (cases segs; cases "tl segs") (auto simp: plain_def)
  show ?thesis
    using absolute_path_ends [OF assms] i intercalate_absolute [OF assms(1)]
    by (simp add: path_normalize_def split_on_absolute_path [OF assms(2)]
          normalizeString_plain [OF assms(2)] Let_def)
qed

lemma path_join_absolute:
  assumes "segs \<noteq> []" "list_all plain segs" "plain x"
  shows "path_join [absolute_path segs, x] = absolute_path (segs @ [x])"
proof -
  have "path_join [absolute_path segs, x] = path_normalize (absolute_path segs @ ''/'' @ x)"
    using absolute_path_ends(1) [OF assms(1,2)] assms(3)
    by (cases "absolute_path segs"; cases x) (simp_all add: path_join_def plain_def)
  also have "\<dots> = path_normalize (absolute_path (segs @ [x]))" by (simp add: absolute_path_snoc)
  also have "\<dots> = absolute_path (segs @ [x])"
    using assms by (intro path_normalize_absolute) simp_all
  finally show ?thesis .
qed

lemma parent_absolute:
  assumes "segs \<noteq> []" "list_all plain segs" "plain x"
  shows "parent (absolute_path (segs @ [x])) = absolute_path segs"
proof -
  have l: "list_all plain (segs @ [x])" using assms by simp
  have "intercalate ''/'' ([] # segs) = absolute_path segs"
    using intercalate_absolute [OF assms(1)] assms(1) by (cases segs) simp_all
  moreover have "absolute_path segs \<noteq> []" using absolute_path_ends(1) [OF assms(1,2)] .
  ultimately show ?thesis
    by (simp add: parent_def split_on_absolute_path [OF l] Let_def butlast_append)
qed

subsection \<open>Operations bound to a set of paths\<close>

lemma outside_untouched_refl [simp]: "outside_untouched T w w"
  by (simp add: outside_untouched_def)

lemma outside_untouched_trans:
  "outside_untouched T w w1 \<Longrightarrow> outside_untouched T w1 w2 \<Longrightarrow> outside_untouched T w w2"
  by (simp add: outside_untouched_def)

lemma same_view_refl [simp]: "same_view T w w"
  by (simp add: same_view_def)

lemma same_view_streams: "same_view T w v \<Longrightarrow> same_streams w v"
  by (simp add: same_view_def same_streams_def)

lemma filter_update_keys:
  "P k \<Longrightarrow> filter (\<lambda>e. P (fst e)) (AList.update k x xs) = AList.update k x (filter (\<lambda>e. P (fst e)) xs)"
  by (induction xs) auto

lemma map_of_filter_keys:
  "P k \<Longrightarrow> map_of (filter (\<lambda>e. P (fst e)) xs) k = map_of xs k"
  by (induction xs) auto

lemma same_view_lookup:
  assumes "same_view T w v" and "T p"
  shows "map_of (files w) p = map_of (files v) p"
proof -
  have "map_of (files w) p = map_of (filter (\<lambda>e. T (fst e)) (files w)) p"
    using assms(2) by (simp add: map_of_filter_keys [where P = T])
  also have "\<dots> = map_of (filter (\<lambda>e. T (fst e)) (files v)) p"
    using assms(1) by (simp add: same_view_def)
  also have "\<dots> = map_of (files v) p"
    using assms(2) by (simp add: map_of_filter_keys [where P = T])
  finally show ?thesis .
qed

lemma same_view_update:
  "same_view T w v \<Longrightarrow> T p \<Longrightarrow>
   same_view T (w\<lparr>files := AList.update p x (files w)\<rparr>) (v\<lparr>files := AList.update p x (files v)\<rparr>)"
  by (simp add: same_view_def filter_update_keys [where P = T])

lemma file_boundI:
  assumes "\<And>w. outside_untouched T w (snd (f w))"
    and "\<And>w v. same_view T w v \<Longrightarrow> fst (f w) = fst (f v)"
    and "\<And>w v. same_view T w v \<Longrightarrow> same_view T (snd (f w)) (snd (f v))"
  shows "file_bound T f"
  using assms by (simp add: file_bound_def)

lemma file_boundD:
  assumes "file_bound T f"
  shows "outside_untouched T w (snd (f w))"
    and "same_view T w v \<Longrightarrow> fst (f w) = fst (f v)"
    and "same_view T w v \<Longrightarrow> same_view T (snd (f w)) (snd (f v))"
  using assms by (simp_all add: file_bound_def)

lemma file_bound_stream_only:
  fixes f :: "'e world_scheme \<Rightarrow> 'r \<times> 'e world_scheme"
  assumes "stream_only f"
  shows "file_bound T f"
proof (rule file_boundI)
  fix w :: "'e world_scheme"
  show "outside_untouched T w (snd (f w))"
    using stream_onlyD(3,4) [OF assms, of w] by (simp add: outside_untouched_def)
next
  fix w v :: "'e world_scheme"
  assume sv: "same_view T w v"
  then show "fst (f w) = fst (f v)"
    using stream_onlyD(1) [OF assms same_view_streams] by blast
  have "same_streams (snd (f w)) (snd (f v))"
    using stream_onlyD(2) [OF assms same_view_streams [OF sv]] .
  then show "same_view T (snd (f w)) (snd (f v))"
    using sv stream_onlyD(3) [OF assms, of w] stream_onlyD(3) [OF assms, of v]
    by (simp add: same_view_def same_streams_def)
qed

lemma file_bound_and_then:
  fixes f :: "'e world_scheme \<Rightarrow> 'r \<times> 'e world_scheme"
  assumes "file_bound T f" and "\<And>x. file_bound T (g x)"
  shows "file_bound T (and_then f g)"
proof (rule file_boundI)
  fix w :: "'e world_scheme"
  show "outside_untouched T w (snd (and_then f g w))"
    using file_boundD(1) [OF assms(1), of w] file_boundD(1) [OF assms(2) [of "fst (f w)"], of "snd (f w)"]
    by (auto simp: and_then_def case_prod_beta intro: outside_untouched_trans)
next
  fix w v :: "'e world_scheme"
  assume sv: "same_view T w v"
  have 1: "fst (f w) = fst (f v)" and 2: "same_view T (snd (f w)) (snd (f v))"
    using file_boundD(2,3) [OF assms(1) sv] by auto
  show "fst (and_then f g w) = fst (and_then f g v)"
    using 1 file_boundD(2) [OF assms(2) 2] by (simp add: and_then_def case_prod_beta)
  show "same_view T (snd (and_then f g w)) (snd (and_then f g v))"
    using 1 file_boundD(3) [OF assms(2) 2] by (simp add: and_then_def case_prod_beta)
qed

lemma file_bound_return [simp]: "file_bound T (\<lambda>w. (x, w))"
  by (simp add: file_bound_def)

lemma file_bound_Pair [simp]: "file_bound T (Pair x)"
  by (simp add: file_bound_def)

lemma same_view_pathExists: "same_view T w v \<Longrightarrow> T p \<Longrightarrow> pathExists p w = pathExists p v"
  by (simp add: pathExists_def same_view_lookup)

lemma same_view_readJson: "same_view T w v \<Longrightarrow> T p \<Longrightarrow> readJson p w = readJson p v"
  by (simp add: readJson_def same_view_lookup)

lemma file_bound_reading:
  fixes g :: "'x \<Rightarrow> 'e world_scheme \<Rightarrow> 'r \<times> 'e world_scheme"
  assumes "\<And>w v :: 'e world_scheme. same_view T w v \<Longrightarrow> r w = r v" and "\<And>x. file_bound T (g x)"
  shows "file_bound T (\<lambda>w. g (r w) w)"
proof (rule file_boundI)
  fix w :: "'e world_scheme"
  show "outside_untouched T w (snd (g (r w) w))"
    by (rule file_boundD(1) [OF assms(2)])
next
  fix w v :: "'e world_scheme"
  assume sv: "same_view T w v"
  show "fst (g (r w) w) = fst (g (r v) v)"
    using file_boundD(2) [OF assms(2) sv, of "r w"] assms(1) [OF sv] by simp
  show "same_view T (snd (g (r w) w)) (snd (g (r v) v))"
    using file_boundD(3) [OF assms(2) sv, of "r w"] assms(1) [OF sv] by simp
qed

lemma file_bound_case_sum:
  "(\<And>e. file_bound T (f e)) \<Longrightarrow> (\<And>u. file_bound T (g u)) \<Longrightarrow>
   file_bound T (case r of Inl e \<Rightarrow> f e | Inr u \<Rightarrow> g u)"
  by (cases r) simp_all

lemma file_bound_if:
  "(c \<Longrightarrow> file_bound T f) \<Longrightarrow> (\<not> c \<Longrightarrow> file_bound T g) \<Longrightarrow> file_bound T (if c then f else g)"
  by simp

lemma file_bound_optI:
  assumes "\<And>w r w1. f w = Some (r, w1) \<Longrightarrow> outside_untouched T w w1"
    and "\<And>w v. same_view T w v \<Longrightarrow> map_option fst (f w) = map_option fst (f v)"
    and "\<And>w v r w1 r' v1. same_view T w v \<Longrightarrow> f w = Some (r, w1) \<Longrightarrow> f v = Some (r', v1) \<Longrightarrow> same_view T w1 v1"
  shows "file_bound_opt T f"
  unfolding file_bound_opt_def using assms by blast

lemma file_bound_optD:
  assumes "file_bound_opt T f"
  shows "f w = Some (r, w1) \<Longrightarrow> outside_untouched T w w1"
    and "same_view T w v \<Longrightarrow> map_option fst (f w) = map_option fst (f v)"
    and "same_view T w v \<Longrightarrow> f w = Some (r, w1) \<Longrightarrow> f v = Some (r', v1) \<Longrightarrow> same_view T w1 v1"
  using assms unfolding file_bound_opt_def by blast+

lemma file_bound_opt_returning:
  assumes "file_bound T f"
  shows "file_bound_opt T (returning f)"
proof (rule file_bound_optI)
  fix w w1 :: "'a world_scheme" and r
  assume "returning f w = Some (r, w1)"
  then show "outside_untouched T w w1"
    using file_boundD(1) [OF assms, of w] by (auto simp: returning_def)
next
  fix w v :: "'a world_scheme"
  assume "same_view T w v"
  then show "map_option fst (returning f w) = map_option fst (returning f v)"
    using file_boundD(2) [OF assms] by (simp add: returning_def)
next
  fix w v w1 v1 :: "'a world_scheme" and r r'
  assume "same_view T w v" "returning f w = Some (r, w1)" "returning f v = Some (r', v1)"
  then show "same_view T w1 v1"
    using file_boundD(3) [OF assms, of w v] by (auto simp: returning_def)
qed

lemma file_bound_opt_stream_only:
  fixes f :: "'e world_scheme \<Rightarrow> ('r \<times> 'e world_scheme) option"
  assumes "stream_only_opt f"
  shows "file_bound_opt T f"
proof (rule file_bound_optI)
  fix w w1 :: "'e world_scheme" and r
  assume "f w = Some (r, w1)"
  then show "outside_untouched T w w1"
    using stream_only_opt_frame [OF assms] by (simp add: outside_untouched_def)
next
  fix w v :: "'e world_scheme"
  assume "same_view T w v"
  then show "map_option fst (f w) = map_option fst (f v)"
    using stream_only_optD [OF assms same_view_streams] by blast
next
  fix w v w1 v1 :: "'e world_scheme" and r r'
  assume sv: "same_view T w v" and 1: "f w = Some (r, w1)" and 2: "f v = Some (r', v1)"
  have "same_streams w1 v1"
    using assms same_view_streams [OF sv] 1 2 unfolding stream_only_opt_def by blast
  then show "same_view T w1 v1"
    using sv stream_only_opt_frame [OF assms 1] stream_only_opt_frame [OF assms 2]
    by (simp add: same_view_def same_streams_def)
qed

lemma file_bound_opt_and_then:
  fixes f :: "'e world_scheme \<Rightarrow> ('r \<times> 'e world_scheme) option"
  assumes f: "file_bound_opt T f" and g: "\<And>x. file_bound_opt T (g x)"
  shows "file_bound_opt T (and_then_opt f g)"
proof (rule file_bound_optI)
  fix w w2 :: "'e world_scheme" and r
  assume "and_then_opt f g w = Some (r, w2)"
  then obtain x w1 where 1: "f w = Some (x, w1)" and 2: "g x w1 = Some (r, w2)"
    by (auto simp: and_then_opt_def split: option.splits)
  show "outside_untouched T w w2"
    using file_bound_optD(1) [OF f 1] file_bound_optD(1) [OF g 2] by (rule outside_untouched_trans)
next
  fix w v :: "'e world_scheme"
  assume sv: "same_view T w v"
  note m = file_bound_optD(2) [OF f sv]
  show "map_option fst (and_then_opt f g w) = map_option fst (and_then_opt f g v)"
  proof (cases "f w")
    case None
    with m have "f v = None" by simp
    with None show ?thesis by (simp add: and_then_opt_def)
  next
    case (Some a)
    obtain x w1 where a: "f w = Some (x, w1)" using Some by (cases a) auto
    with m obtain v1 where b: "f v = Some (x, v1)" by (cases "f v") auto
    have "same_view T w1 v1" using file_bound_optD(3) [OF f sv a b] .
    then show ?thesis
      using file_bound_optD(2) [OF g, of w1 v1 x] a b by (simp add: and_then_opt_def)
  qed
next
  fix w v w2 v2 :: "'e world_scheme" and r r'
  assume sv: "same_view T w v" and 1: "and_then_opt f g w = Some (r, w2)"
    and 2: "and_then_opt f g v = Some (r', v2)"
  from 1 obtain x w1 where a: "f w = Some (x, w1)" and a': "g x w1 = Some (r, w2)"
    by (auto simp: and_then_opt_def split: option.splits)
  from 2 obtain y v1 where b: "f v = Some (y, v1)" and b': "g y v1 = Some (r', v2)"
    by (auto simp: and_then_opt_def split: option.splits)
  have xy: "x = y" using file_bound_optD(2) [OF f sv] a b by simp
  have "same_view T w1 v1" using file_bound_optD(3) [OF f sv a b] .
  then show "same_view T w2 v2"
    using file_bound_optD(3) [OF g _ a' b' [folded xy]] by blast
qed

lemma file_bound_opt_reading:
  fixes g :: "'x \<Rightarrow> 'e world_scheme \<Rightarrow> ('r \<times> 'e world_scheme) option"
  assumes "\<And>w v :: 'e world_scheme. same_view T w v \<Longrightarrow> r w = r v" and "\<And>x. file_bound_opt T (g x)"
  shows "file_bound_opt T (\<lambda>w. g (r w) w)"
proof (rule file_bound_optI)
  fix w w1 :: "'e world_scheme" and y
  assume "g (r w) w = Some (y, w1)"
  then show "outside_untouched T w w1"
    by (rule file_bound_optD(1) [OF assms(2)])
next
  fix w v :: "'e world_scheme"
  assume sv: "same_view T w v"
  show "map_option fst (g (r w) w) = map_option fst (g (r v) v)"
    using file_bound_optD(2) [OF assms(2) sv, of "r w"] assms(1) [OF sv] by simp
next
  fix w v w1 v1 :: "'e world_scheme" and y y'
  assume sv: "same_view T w v" and "g (r w) w = Some (y, w1)" "g (r v) v = Some (y', v1)"
  then show "same_view T w1 v1"
    using file_bound_optD(3) [OF assms(2) sv, of "r w" y w1 y' v1] assms(1) [OF sv] by simp
qed

lemma file_bound_opt_case_sum:
  "(\<And>e. file_bound_opt T (f e)) \<Longrightarrow> (\<And>u. file_bound_opt T (g u)) \<Longrightarrow>
   file_bound_opt T (case r of Inl e \<Rightarrow> f e | Inr u \<Rightarrow> g u)"
  by (cases r) simp_all

lemma file_bound_opt_if:
  "(c \<Longrightarrow> file_bound_opt T f) \<Longrightarrow> (\<not> c \<Longrightarrow> file_bound_opt T g) \<Longrightarrow> file_bound_opt T (if c then f else g)"
  by simp

lemma file_bound_writeJson:
  assumes "T p" and "T (parent p)"
  shows "file_bound T (writeJson p j)"
proof (rule file_boundI)
  fix w :: "'a world_scheme"
  show "outside_untouched T w (snd (writeJson p j w))"
    using assms(1)
    by (auto simp: writeJson_def outside_untouched_def update_conv'
             split: option.splits node.splits)
next
  fix w v :: "'a world_scheme"
  assume sv: "same_view T w v"
  have l: "map_of (files w) p = map_of (files v) p"
    "map_of (files w) (parent p) = map_of (files v) (parent p)"
    using same_view_lookup [OF sv] assms by simp_all
  show "fst (writeJson p j w) = fst (writeJson p j v)"
    using l by (auto simp: writeJson_def split: option.splits node.splits)
  show "same_view T (snd (writeJson p j w)) (snd (writeJson p j v))"
    using l sv same_view_update [OF sv assms(1)]
    by (auto simp: writeJson_def split: option.splits node.splits)
qed

lemma make_directory_outside:
  "\<forall>p \<in> set ps. T p \<Longrightarrow> \<not> T q \<Longrightarrow> map_of (foldl make_directory fs ps) q = map_of fs q"
proof (induction ps arbitrary: fs)
  case Nil
  show ?case by simp
next
  case (Cons p ps)
  then have "q \<noteq> p" by auto
  then have "map_of (make_directory fs p) q = map_of fs q"
    by (simp add: make_directory_def update_conv' split: option.splits)
  then show ?case using Cons by simp
qed

lemma make_directory_filter:
  "\<forall>p \<in> set ps. T p \<Longrightarrow>
     filter (\<lambda>e. T (fst e)) (foldl make_directory fs ps)
       = foldl make_directory (filter (\<lambda>e. T (fst e)) fs) ps"
proof (induction ps arbitrary: fs)
  case Nil
  show ?case by simp
next
  case (Cons p ps)
  then have p: "T p" by simp
  have "filter (\<lambda>e. T (fst e)) (make_directory fs p)
          = make_directory (filter (\<lambda>e. T (fst e)) fs) p"
    using p by (simp add: make_directory_def map_of_filter_keys [where P = T]
          filter_update_keys [where P = T] split: option.splits)
  then show ?case using Cons by simp
qed

lemma file_bound_ensureDir:
  assumes d: "T d" and a: "\<forall>p \<in> set (ancestors d). T p"
  shows "file_bound T (ensureDir d)"
proof (rule file_boundI)
  fix w :: "'a world_scheme"
  have "\<forall>p \<in> set (ancestors d @ [d]). T p" using d a by simp
  from make_directory_outside [OF this]
  show "outside_untouched T w (snd (ensureDir d w))"
    by (simp add: ensureDir_def outside_untouched_def)
next
  fix w v :: "'a world_scheme"
  assume sv: "same_view T w v"
  have all: "\<forall>p \<in> set (ancestors d @ [d]). T p" using d a by simp
  have l: "map_of (files w) p = map_of (files v) p" if "T p" for p
    using same_view_lookup [OF sv that] .
  have e: "list_ex (\<lambda>a. is_file (map_of (files w) a)) (ancestors d)
         = list_ex (\<lambda>a. is_file (map_of (files v) a)) (ancestors d)"
    using a l by (simp add: list_ex_iff)
  have f: "is_file (map_of (files w) d) = is_file (map_of (files v) d)" using l [OF d] by simp
  show "fst (ensureDir d w) = fst (ensureDir d v)"
    using e f by (simp add: ensureDir_def)
  show "same_view T (snd (ensureDir d w)) (snd (ensureDir d v))"
    using e f sv make_directory_filter [OF all, of "files w"] make_directory_filter [OF all, of "files v"]
    by (simp add: ensureDir_def same_view_def)
qed

subsection \<open>The paths of the commands\<close>

lemma dec_nat_digits: "set (dec_nat n) \<subseteq> set ''0123456789''"
proof (induction n rule: dec_nat.induct)
  case (1 n)
  have d: "''0123456789'' ! k \<in> set ''0123456789''" if "k < 10" for k
    using that by (intro nth_mem) simp
  show ?case
  proof (cases "n < 10")
    case True
    then show ?thesis using d [of n] by (subst dec_nat.simps) simp
  next
    case False
    have "n mod 10 < 10" by simp
    from d [OF this] 1 [OF False] False show ?thesis by (subst dec_nat.simps) simp
  qed
qed

lemma dec_int_no_slash: "CHR ''/'' \<notin> set (dec_int t)"
  using dec_nat_digits [of "nat t"] dec_nat_digits [of "nat (- t)"]
  by (auto simp: dec_int_def)

lemma plain_json: "CHR ''/'' \<notin> set s \<Longrightarrow> plain (s @ ''.json'')"
  by (cases s rule: rev_cases) (auto simp: plain_def)

lemma plain_names [simp]: "plain ''instances''" "plain ''benchmark-results''"
  by (simp_all add: plain_def)

lemma dirs_absolute:
  assumes "cwd rt = absolute_path segs" "segs \<noteq> []" "list_all plain segs"
  shows "instancesDir rt = absolute_path (segs @ [''instances''])"
    and "resultsDir rt = absolute_path (segs @ [''benchmark-results''])"
  using path_join_absolute [OF assms(2,3), of "''instances''"]
    path_join_absolute [OF assms(2,3), of "''benchmark-results''"]
  by (simp_all add: instancesDir_def resultsDir_def assms(1))

lemma inside_dir:
  assumes "segs \<noteq> []" "list_all plain segs" "plain name" "suffix ''.json'' name"
  shows "path_join [absolute_path segs, name] = absolute_path segs @ ''/'' @ name"
    and "inside_json (absolute_path segs) (path_join [absolute_path segs, name])"
    and "parent (path_join [absolute_path segs, name]) = absolute_path segs"
proof -
  show j: "path_join [absolute_path segs, name] = absolute_path segs @ ''/'' @ name"
    using path_join_absolute [OF assms(1,2,3)] by (simp add: absolute_path_snoc)
  have "suffix ''.json'' (absolute_path segs @ ''/'' @ name)"
    using assms(4) by (metis suffix_appendI)
  then show "inside_json (absolute_path segs) (path_join [absolute_path segs, name])"
    unfolding j using assms(3) by (simp add: inside_json_def plain_def)
  show "parent (path_join [absolute_path segs, name]) = absolute_path segs"
    using path_join_absolute [OF assms(1,2,3)] parent_absolute [OF assms(1,2,3)] by simp
qed

lemma tracked_dirs:
  "tracked rt (instancesDir rt)" "tracked rt (resultsDir rt)"
  "\<forall>p \<in> set (ancestors (instancesDir rt)). tracked rt p"
  "\<forall>p \<in> set (ancestors (resultsDir rt)). tracked rt p"
  by (simp_all add: tracked_def)

lemma tracked_files:
  assumes "cwd rt = absolute_path segs" "segs \<noteq> []" "list_all plain segs"
    and "CHR ''/'' \<notin> set i"
  shows "tracked rt (instanceFile rt i)" "tracked rt (parent (instanceFile rt i))"
    and "tracked rt (resultsFile rt i now)" "tracked rt (parent (resultsFile rt i now))"
proof -
  note d = dirs_absolute [OF assms(1-3)]
  have s1: "segs @ [''instances''] \<noteq> []" "list_all plain (segs @ [''instances''])"
    and s2: "segs @ [''benchmark-results''] \<noteq> []" "list_all plain (segs @ [''benchmark-results''])"
    using assms(3) by simp_all
  have n1: "plain (i @ ''.json'')" "suffix ''.json'' (i @ ''.json'')"
    using plain_json [OF assms(4)] by (simp_all add: suffix_def)
  have "CHR ''/'' \<notin> set (i @ ''-'' @ dec_int now)" using assms(4) dec_int_no_slash by simp
  from plain_json [OF this]
  have n2: "plain (i @ ''-'' @ dec_int now @ ''.json'')" "suffix ''.json'' (i @ ''-'' @ dec_int now @ ''.json'')"
    by (simp_all add: suffix_def)
  show "tracked rt (instanceFile rt i)"
    using inside_dir(2) [OF s1 n1] by (simp add: tracked_def instanceFile_def d)
  show "tracked rt (parent (instanceFile rt i))"
    using inside_dir(3) [OF s1 n1] by (simp add: tracked_def instanceFile_def d)
  show "tracked rt (resultsFile rt i now)"
    using inside_dir(2) [OF s2 n2] by (simp add: tracked_def resultsFile_def d)
  show "tracked rt (parent (resultsFile rt i now))"
    using inside_dir(3) [OF s2 n2] by (simp add: tracked_def resultsFile_def d)
qed

subsection \<open>The actions\<close>

lemma file_bound_and_then_guarded:
  fixes f :: "'e world_scheme \<Rightarrow> 'r \<times> 'e world_scheme"
  assumes f: "file_bound T f" and q: "\<And>w. Q (fst (f w))"
    and g: "\<And>x. Q x \<Longrightarrow> file_bound T (g x)"
  shows "file_bound T (and_then f g)"
proof (rule file_boundI)
  fix w :: "'e world_scheme"
  show "outside_untouched T w (snd (and_then f g w))"
    using file_boundD(1) [OF f, of w] file_boundD(1) [OF g [OF q [of w]], of "snd (f w)"]
    by (auto simp: and_then_def case_prod_beta intro: outside_untouched_trans)
next
  fix w v :: "'e world_scheme"
  assume sv: "same_view T w v"
  have 1: "fst (f w) = fst (f v)" and 2: "same_view T (snd (f w)) (snd (f v))"
    using file_boundD(2,3) [OF f sv] by auto
  show "fst (and_then f g w) = fst (and_then f g v)"
    using 1 file_boundD(2) [OF g [OF q [of w]] 2] by (simp add: and_then_def case_prod_beta)
  show "same_view T (snd (and_then f g w)) (snd (and_then f g v))"
    using 1 file_boundD(3) [OF g [OF q [of w]] 2] by (simp add: and_then_def case_prod_beta)
qed

lemma initInstance_id_no_slash:
  assumes "\<And>r. CHR ''/'' \<notin> set (toString_radix rt 36 r)"
  shows "CHR ''/'' \<notin> set (i_id (fst (initInstance rt name w)))"
proof -
  have "CHR ''/'' \<notin> set (substr 2 9 (toString_radix rt 36 r))" for r
    using assms [of r] by (auto simp: substr_def dest: in_set_takeD in_set_dropD)
  then show ?thesis
    using dec_int_no_slash
    by (simp add: initInstance_def EVVMInstance_new_fields fresh_id_def Date_now_def
          Math_random_def case_prod_beta Let_def)
qed

lemma init_body_and_then:
  "init_body rt name =
     and_then (initInstance rt (Some name)) (\<lambda>instance.
       and_then (ensureDir (instancesDir rt)) (\<lambda>r. case r of
           Inl e \<Rightarrow> Pair (Inl e)
         | Inr u \<Rightarrow>
             and_then (writeJson (instanceFile rt (i_id instance)) (JInstance (obj_of instance)))
               (\<lambda>r. case r of Inl e \<Rightarrow> Pair (Inl e) | Inr u \<Rightarrow> Pair (Inr instance))))"
  by (auto simp: fun_eq_iff init_body_def and_then_def case_prod_beta Let_def
           split: sum.splits prod.splits)

lemma file_bound_init_body:
  assumes h: "cwd rt = absolute_path segs" "segs \<noteq> []" "list_all plain segs"
    and r: "\<And>r. CHR ''/'' \<notin> set (toString_radix rt 36 r)"
  shows "file_bound (tracked rt) (init_body rt name)"
  unfolding init_body_and_then
proof (rule file_bound_and_then_guarded [where Q = "\<lambda>i. CHR ''/'' \<notin> set (i_id i)"])
  show "file_bound (tracked rt) (initInstance rt (Some name))"
    by (rule file_bound_stream_only [OF stream_only_initInstance])
  show "CHR ''/'' \<notin> set (i_id (fst (initInstance rt (Some name) w)))" for w :: "'a world_scheme"
    by (rule initInstance_id_no_slash [OF r])
  fix x :: EVVMInstance
  assume x: "CHR ''/'' \<notin> set (i_id x)"
  note t = tracked_files(1,2) [OF h x]
  show "file_bound (tracked rt)
          (and_then (ensureDir (instancesDir rt)) (\<lambda>r. case r of
               Inl e \<Rightarrow> Pair (Inl e)
             | Inr u \<Rightarrow>
                 and_then (writeJson (instanceFile rt (i_id x)) (JInstance (obj_of x)))
                   (\<lambda>r. case r of Inl e \<Rightarrow> Pair (Inl e) | Inr u \<Rightarrow> Pair (Inr x))))"
    by (intro file_bound_and_then file_bound_case_sum file_bound_Pair file_bound_ensureDir
          file_bound_writeJson tracked_dirs t)
qed

lemma stream_only_deployContract_parsed: "stream_only (deployContract_parsed rt j c)"
proof -
  have e: "deployContract_parsed rt j c
          = and_then (deployContract rt (instance_fields j) c)
              (\<lambda>d. Pair (case j of JNull \<Rightarrow> Inl (TypeError ''name'') | _ \<Rightarrow> Inr d))"
    by (cases j) (simp_all add: fun_eq_iff deployContract_parsed_def and_then_def case_prod_beta)
  show ?thesis
    unfolding e by (intro stream_only_and_then stream_only_deployContract stream_only_return)
qed

lemma deploy_body_reading:
  "deploy_body rt instanceId contract =
     (\<lambda>w. (case (pathExists (instanceFile rt instanceId) w, readJson (instanceFile rt instanceId) w) of
             (ex, rj) \<Rightarrow>
               if \<not> ex then Pair (Inl (Error (''Instance '' @ instanceId @ '' not found'')))
               else (case rj of
                       Inl e \<Rightarrow> Pair (Inl e)
                     | Inr j \<Rightarrow>
                         and_then (deployContract_parsed rt j contract)
                           (\<lambda>r. case r of
                                  Inl e \<Rightarrow> Pair (Inl e)
                                | Inr deployedInstance \<Rightarrow>
                                    and_then (writeJson (instanceFile rt instanceId)
                                                (JInstance (obj_of deployedInstance)))
                                      (\<lambda>r. case r of Inl e \<Rightarrow> Pair (Inl e)
                                                     | Inr u \<Rightarrow> Pair (Inr deployedInstance))))) w)"
  by (auto simp: fun_eq_iff deploy_body_def and_then_def case_prod_beta Let_def
           split: sum.splits prod.splits)

lemma file_bound_deploy_body:
  assumes h: "cwd rt = absolute_path segs" "segs \<noteq> []" "list_all plain segs"
    and i: "CHR ''/'' \<notin> set instanceId"
  shows "file_bound (tracked rt) (deploy_body rt instanceId contract)"
proof -
  note t = tracked_files(1,2) [OF h i]
  let ?r = "\<lambda>w :: 'a world_scheme.
              (pathExists (instanceFile rt instanceId) w, readJson (instanceFile rt instanceId) w)"
  let ?h = "\<lambda>j. and_then (deployContract_parsed rt j contract)
                           (\<lambda>r. case r of
                                  Inl e \<Rightarrow> Pair (Inl e)
                                | Inr deployedInstance \<Rightarrow>
                                    and_then (writeJson (instanceFile rt instanceId)
                                                (JInstance (obj_of deployedInstance)))
                                      (\<lambda>r. case r of Inl e \<Rightarrow> Pair (Inl e)
                                                     | Inr u \<Rightarrow> Pair (Inr deployedInstance)))"
  let ?g = "\<lambda>x :: bool \<times> (js_error + json_file). case x of
             (ex, rj) \<Rightarrow>
               if \<not> ex then Pair (Inl (Error (''Instance '' @ instanceId @ '' not found'')))
               else (case rj of Inl e \<Rightarrow> Pair (Inl e) | Inr j \<Rightarrow> ?h j)"
  have r: "?r w = ?r v" if "same_view (tracked rt) w v" for w v
    using that t(1) by (simp add: same_view_pathExists same_view_readJson)
  have hh: "file_bound (tracked rt) (?h j)" for j
    by (intro file_bound_and_then file_bound_case_sum file_bound_Pair
          file_bound_writeJson t file_bound_stream_only stream_only_deployContract_parsed)
  have g: "file_bound (tracked rt) (?g x)" for x
  proof (cases x)
    case (Pair ex rj)
    show ?thesis
    proof (cases rj)
      case (Inl e)
      then show ?thesis by (simp add: Pair)
    next
      case (Inr j)
      then show ?thesis by (auto simp: Pair intro: hh)
    qed
  qed
  have "file_bound (tracked rt) (\<lambda>w. ?g (?r w) w)"
    using r g by (rule file_bound_reading [where r = ?r and g = ?g])
  then show ?thesis by (simp only: deploy_body_reading)
qed

lemma run_if_and_then:
  "run_if cond rt instance m txCount results =
     (if cond
      then and_then_opt (runBenchmark rt defaultEVVMConfig instance m (Some txCount))
             (\<lambda>r. returning (Pair (results @ [r])))
      else returning (Pair results))"
  by (auto simp: fun_eq_iff run_if_def and_then_opt_def returning_def split: option.splits)

lemma stream_only_opt_run_if: "stream_only_opt (run_if cond rt instance m txCount results)"
  unfolding run_if_and_then
  by (auto intro!: stream_only_opt_and_then stream_only_opt_returning stream_only_return
        stream_only_opt_runBenchmark)

lemma run_selected_and_then:
  "run_selected rt instance m txCount =
     and_then_opt (run_if (m = ''all'' \<or> m = ''serial'') rt instance ''serial'' txCount [])
       (\<lambda>rs1. and_then_opt
          (run_if (m = ''all'' \<or> m = ''parallel'') rt instance ''parallel'' txCount rs1)
          (\<lambda>rs2. run_if (m = ''all'' \<or> m = ''evvm-async'') rt instance ''evvm-async'' txCount rs2))"
  by (auto simp: fun_eq_iff run_selected_def and_then_opt_def split: option.splits)

lemma stream_only_opt_run_selected: "stream_only_opt (run_selected rt instance m txCount)"
  unfolding run_selected_and_then
  by (intro stream_only_opt_and_then stream_only_opt_run_if)

lemma benchmark_body_reading:
  "benchmark_body rt instanceId m txCount demo =
     (\<lambda>w. (case (pathExists (instanceFile rt instanceId) w, readJson (instanceFile rt instanceId) w) of
             (ex, rj) \<Rightarrow>
               if \<not> ex
               then returning (Pair (Inl (Error (''Instance '' @ instanceId @ '' not found''))))
               else (case rj of
                       Inl e \<Rightarrow> returning (Pair (Inl e))
                     | Inr j \<Rightarrow>
                         and_then_opt (run_selected rt (instance_fields j) m txCount)
                           (\<lambda>results. returning
                              (and_then (ensureDir (resultsDir rt)) (\<lambda>r. case r of
                                  Inl e \<Rightarrow> Pair (Inl e)
                                | Inr u \<Rightarrow>
                                    (case j of
                                       JNull \<Rightarrow> Pair (Inl (TypeError ''id''))
                                     | _ \<Rightarrow>
                                    and_then Date_now (\<lambda>now.
                                    and_then (new_Date_toISOString rt) (\<lambda>ts.
                                    and_then
                                      (writeJson
                                         (resultsFile rt (template_string (o_id (instance_fields j))) now)
                                         (JReport \<lparr>r_instanceId = o_id (instance_fields j),
                                            r_config = \<lparr>rc_txCount = txCount, rc_mode = m,
                                                         rc_demo = demo\<rparr>,
                                            r_results = results, r_timestamp = ts\<rparr>))
                                      (\<lambda>r. case r of Inl e \<Rightarrow> Pair (Inl e)
                                                     | Inr u \<Rightarrow> Pair (Inr results)))))))))) w)"
proof (intro ext)
  fix w :: "'a world_scheme"
  show "benchmark_body rt instanceId m txCount demo w = (case (pathExists (instanceFile rt instanceId) w, readJson (instanceFile rt instanceId) w) of
             (ex, rj) \<Rightarrow>
               if \<not> ex
               then returning (Pair (Inl (Error (''Instance '' @ instanceId @ '' not found''))))
               else (case rj of
                       Inl e \<Rightarrow> returning (Pair (Inl e))
                     | Inr j \<Rightarrow>
                         and_then_opt (run_selected rt (instance_fields j) m txCount)
                           (\<lambda>results. returning
                              (and_then (ensureDir (resultsDir rt)) (\<lambda>r. case r of
                                  Inl e \<Rightarrow> Pair (Inl e)
                                | Inr u \<Rightarrow>
                                    (case j of
                                       JNull \<Rightarrow> Pair (Inl (TypeError ''id''))
                                     | _ \<Rightarrow>
                                    and_then Date_now (\<lambda>now.
                                    and_then (new_Date_toISOString rt) (\<lambda>ts.
                                    and_then
                                      (writeJson
                                         (resultsFile rt (template_string (o_id (instance_fields j))) now)
                                         (JReport \<lparr>r_instanceId = o_id (instance_fields j),
                                            r_config = \<lparr>rc_txCount = txCount, rc_mode = m,
                                                         rc_demo = demo\<rparr>,
                                            r_results = results, r_timestamp = ts\<rparr>))
                                      (\<lambda>r. case r of Inl e \<Rightarrow> Pair (Inl e)
                                                     | Inr u \<Rightarrow> Pair (Inr results)))))))))) w"
  proof (cases "readJson (instanceFile rt instanceId) w")
    case (Inl e)
    then show ?thesis by (simp add: benchmark_body_def returning_def)
  next
    case (Inr j)
    show ?thesis
    proof (cases "run_selected rt (instance_fields j) m txCount w")
      case None
      then show ?thesis using Inr by (simp add: benchmark_body_def returning_def and_then_opt_def)
    next
      case (Some a)
      obtain results w1 where a: "a = (results, w1)" by (cases a)
      obtain e2 w2 where e: "ensureDir (resultsDir rt) w1 = (e2, w2)" by (cases "ensureDir (resultsDir rt) w1")
      show ?thesis
        using Inr Some a e
        by (cases e2; cases j)
           (simp_all add: benchmark_body_def returning_def and_then_opt_def and_then_def
              case_prod_beta Let_def split: sum.splits)
    qed
  qed
qed

lemma benchmark_body_bound:
  fixes w v :: "'e world_scheme"
  assumes h: "cwd rt = absolute_path segs" "segs \<noteq> []" "list_all plain segs"
    and i: "CHR ''/'' \<notin> set instanceId"
    and ok: "\<And>j. readJson (instanceFile rt instanceId) w = Inr j \<Longrightarrow>
               CHR ''/'' \<notin> set (template_string (o_id (instance_fields j)))"
  shows "benchmark_body rt instanceId m txCount demo w = Some (y, w1) \<Longrightarrow>
           outside_untouched (tracked rt) w w1"
    and "same_view (tracked rt) w v \<Longrightarrow>
           map_option fst (benchmark_body rt instanceId m txCount demo w)
             = map_option fst (benchmark_body rt instanceId m txCount demo v)"
proof -
  note t = tracked_files(1,2) [OF h i]
  let ?r = "\<lambda>w :: 'e world_scheme.
              (pathExists (instanceFile rt instanceId) w, readJson (instanceFile rt instanceId) w)"
  let ?k = "\<lambda>j results. (case j of
                                       JNull \<Rightarrow> Pair (Inl (TypeError ''id''))
                                     | _ \<Rightarrow>
                                    and_then Date_now (\<lambda>now.
                                    and_then (new_Date_toISOString rt) (\<lambda>ts.
                                    and_then
                                      (writeJson
                                         (resultsFile rt (template_string (o_id (instance_fields j))) now)
                                         (JReport \<lparr>r_instanceId = o_id (instance_fields j),
                                            r_config = \<lparr>rc_txCount = txCount, rc_mode = m,
                                                         rc_demo = demo\<rparr>,
                                            r_results = results, r_timestamp = ts\<rparr>))
                                      (\<lambda>r. case r of Inl e \<Rightarrow> Pair (Inl e)
                                                     | Inr u \<Rightarrow> Pair (Inr results)))))"
  let ?h = "\<lambda>j. and_then_opt (run_selected rt (instance_fields j) m txCount)
                           (\<lambda>results. returning
                              (and_then (ensureDir (resultsDir rt)) (\<lambda>r. case r of
                                  Inl e \<Rightarrow> Pair (Inl e)
                                | Inr u \<Rightarrow> ?k j results)))"
  let ?g = "\<lambda>x :: bool \<times> (js_error + json_file). case x of
             (ex, rj) \<Rightarrow>
               if \<not> ex
               then returning (Pair (Inl (Error (''Instance '' @ instanceId @ '' not found''))))
               else (case rj of Inl e \<Rightarrow> returning (Pair (Inl e)) | Inr j \<Rightarrow> ?h j)"
  have eq: "benchmark_body rt instanceId m txCount demo u = ?g (?r u) u" for u :: "'e world_scheme"
    by (simp only: benchmark_body_reading)
  have r: "?r w = ?r v" if "same_view (tracked rt) w v"
    using that t(1) by (simp add: same_view_pathExists same_view_readJson)
  have kk: "file_bound (tracked rt) (?k j results :: 'e world_scheme \<Rightarrow> _)"
    if "CHR ''/'' \<notin> set (template_string (o_id (instance_fields j)))" for j results
  proof -
    note tr = tracked_files(3,4) [OF h that]
    have "file_bound (tracked rt) (and_then Date_now (\<lambda>now.
                                    and_then (new_Date_toISOString rt) (\<lambda>ts.
                                    and_then
                                      (writeJson
                                         (resultsFile rt (template_string (o_id (instance_fields j))) now)
                                         (JReport \<lparr>r_instanceId = o_id (instance_fields j),
                                            r_config = \<lparr>rc_txCount = txCount, rc_mode = m,
                                                         rc_demo = demo\<rparr>,
                                            r_results = results, r_timestamp = ts\<rparr>))
                                      (\<lambda>r. case r of Inl e \<Rightarrow> Pair (Inl e)
                                                     | Inr u \<Rightarrow> Pair (Inr results)))) :: 'e world_scheme \<Rightarrow> _)"
      by (intro file_bound_and_then file_bound_case_sum file_bound_Pair file_bound_writeJson tr
            file_bound_stream_only stream_only_Date_now stream_only_new_Date_toISOString)
    then show ?thesis by (cases j) (auto intro: file_bound_Pair)
  qed
  have hh: "file_bound_opt (tracked rt) (?h j :: 'e world_scheme \<Rightarrow> _)"
    if "CHR ''/'' \<notin> set (template_string (o_id (instance_fields j)))" for j
    by (intro file_bound_opt_and_then file_bound_opt_returning file_bound_and_then
          file_bound_case_sum file_bound_Pair file_bound_ensureDir tracked_dirs kk [OF that]
          file_bound_opt_stream_only stream_only_opt_run_selected)
  have p: "file_bound_opt (tracked rt) (returning (Pair z) :: 'e world_scheme \<Rightarrow> _)"
    for z :: "js_error + BenchmarkResult list"
    by (intro file_bound_opt_returning file_bound_Pair)
  have g: "file_bound_opt (tracked rt) (?g (?r w) :: 'e world_scheme \<Rightarrow> _)"
  proof (cases "readJson (instanceFile rt instanceId) w")
    case (Inl e)
    then show ?thesis by (auto intro: p)
  next
    case (Inr j)
    from ok [OF this] have "file_bound_opt (tracked rt) (?h j :: 'e world_scheme \<Rightarrow> _)" by (rule hh)
    then show ?thesis using Inr by (auto intro: p)
  qed
  show "outside_untouched (tracked rt) w w1"
    if "benchmark_body rt instanceId m txCount demo w = Some (y, w1)"
    using file_bound_optD(1) [OF g, of w y w1] that unfolding eq by blast
  show "map_option fst (benchmark_body rt instanceId m txCount demo w)
             = map_option fst (benchmark_body rt instanceId m txCount demo v)"
    if sv: "same_view (tracked rt) w v"
    using file_bound_optD(2) [OF g sv] unfolding eq r [OF sv] .
qed

lemma read_all_cong:
  "(\<And>p. p \<in> set ps \<Longrightarrow> readJson p w = readJson p v) \<Longrightarrow> read_all ps w = read_all ps v"
  by (induction ps) (simp_all split: sum.splits)

lemma json_entries_tracked:
  "filter (\<lambda>p. (prefix (instancesDir rt @ ''/'') p
                  \<and> CHR ''/'' \<notin> set (drop (length (instancesDir rt) + 1) p)
                  \<and> drop (length (instancesDir rt) + 1) p \<noteq> [])
                \<and> suffix ''.json'' (drop (length (instancesDir rt) + 1) p))
     (map fst xs)
   = filter (\<lambda>p. (prefix (instancesDir rt @ ''/'') p
                  \<and> CHR ''/'' \<notin> set (drop (length (instancesDir rt) + 1) p)
                  \<and> drop (length (instancesDir rt) + 1) p \<noteq> [])
                \<and> suffix ''.json'' (drop (length (instancesDir rt) + 1) p))
       (map fst (filter (\<lambda>e. tracked rt (fst e)) xs))"
proof -
  have t: "tracked rt p"
    if "prefix (instancesDir rt @ ''/'') p"
      "CHR ''/'' \<notin> set (drop (length (instancesDir rt) + 1) p)"
      "suffix ''.json'' (drop (length (instancesDir rt) + 1) p)" for p
  proof -
    have "suffix ''.json'' p" using that(3) suffix_drop suffix_order.trans by blast
    with that(1,2) show ?thesis by (simp add: tracked_def inside_json_def)
  qed
  show ?thesis
    by (induction xs) (auto dest: t)
qed

lemma json_names_same_view:
  assumes "same_view (tracked rt) w v"
  shows "filter (suffix ''.json'')
           (remdups (map (drop (length (instancesDir rt) + 1))
              (filter (\<lambda>p. prefix (instancesDir rt @ ''/'') p
                  \<and> CHR ''/'' \<notin> set (drop (length (instancesDir rt) + 1) p)
                  \<and> drop (length (instancesDir rt) + 1) p \<noteq> []) (map fst (files w)))))
       = filter (suffix ''.json'')
           (remdups (map (drop (length (instancesDir rt) + 1))
              (filter (\<lambda>p. prefix (instancesDir rt @ ''/'') p
                  \<and> CHR ''/'' \<notin> set (drop (length (instancesDir rt) + 1) p)
                  \<and> drop (length (instancesDir rt) + 1) p \<noteq> []) (map fst (files v)))))"
proof -
  have "filter (suffix ''.json'')
           (remdups (map (drop (length (instancesDir rt) + 1))
              (filter (\<lambda>p. prefix (instancesDir rt @ ''/'') p
                  \<and> CHR ''/'' \<notin> set (drop (length (instancesDir rt) + 1) p)
                  \<and> drop (length (instancesDir rt) + 1) p \<noteq> []) (map fst xs))))
        = remdups (map (drop (length (instancesDir rt) + 1))
            (filter (\<lambda>p. (prefix (instancesDir rt @ ''/'') p
                  \<and> CHR ''/'' \<notin> set (drop (length (instancesDir rt) + 1) p)
                  \<and> drop (length (instancesDir rt) + 1) p \<noteq> [])
                \<and> suffix ''.json'' (drop (length (instancesDir rt) + 1) p))
               (map fst xs)))" for xs :: "(string \<times> node) list"
    by (simp add: remdups_filter [symmetric] filter_map o_def)
  then show ?thesis
    using assms json_entries_tracked [of rt "files w"] json_entries_tracked [of rt "files v"]
    by (simp add: same_view_def)
qed

lemma listed_name_path:
  assumes h: "cwd rt = absolute_path segs" "segs \<noteq> []" "list_all plain segs"
    and n: "CHR ''/'' \<notin> set name" "suffix ''.json'' name"
  shows "tracked rt (path_join [instancesDir rt, name])"
proof -
  have p: "plain name" using n by (auto simp: plain_def suffix_def)
  have s: "segs @ [''instances''] \<noteq> []" "list_all plain (segs @ [''instances''])"
    using h(3) by simp_all
  show ?thesis
    using inside_dir(2) [OF s p n(2)] by (simp add: tracked_def dirs_absolute [OF h])
qed

lemma list_body_same_view:
  assumes h: "cwd rt = absolute_path segs" "segs \<noteq> []" "list_all plain segs"
    and sv: "same_view (tracked rt) w v"
  shows "fst (list_body rt w) = fst (list_body rt v)"
proof -
  have d: "map_of (files w) (instancesDir rt) = map_of (files v) (instancesDir rt)"
    using sv by (simp add: same_view_lookup tracked_dirs)
  let ?names = "\<lambda>w. filter (suffix ''.json'')
           (remdups (map (drop (length (instancesDir rt) + 1))
              (filter (\<lambda>p. prefix (instancesDir rt @ ''/'') p
                  \<and> CHR ''/'' \<notin> set (drop (length (instancesDir rt) + 1) p)
                  \<and> drop (length (instancesDir rt) + 1) p \<noteq> []) (map fst (files w)))))"
  have n: "?names w = ?names v"
    by (rule json_names_same_view [OF sv])
  have r: "read_all (map (\<lambda>name. path_join [instancesDir rt, name]) (?names w)) w
         = read_all (map (\<lambda>name. path_join [instancesDir rt, name]) (?names w)) v"
  proof (rule read_all_cong)
    fix p
    assume "p \<in> set (map (\<lambda>name. path_join [instancesDir rt, name]) (?names w))"
    then obtain name where p: "p = path_join [instancesDir rt, name]"
      and n: "CHR ''/'' \<notin> set name" "suffix ''.json'' name"
      by auto
    have "tracked rt p" unfolding p by (rule listed_name_path [OF h n])
    then show "readJson p w = readJson p v" by (rule same_view_readJson [OF sv])
  qed
  show ?thesis
    using d n r
    by (auto simp: list_body_def pathExists_def readdir_def split: option.splits node.splits sum.splits)
qed

lemma list_body_world: "snd (list_body rt w) = w"
  by (auto simp: list_body_def split: sum.splits)


lemma handled:
  assumes "h = caught \<or> h = rethrown"
  shows "snd (h (tagged K r)) = snd r"
    and "fst r = fst r' \<Longrightarrow> fst (h (tagged K r)) = fst (h (tagged K r'))"
  using assms
  by (cases r; cases r'; cases "fst r"; cases "fst r'";
      auto simp: caught_def rethrown_def tagged_def)+

lemma demo_body_and_then:
  "demo_body rt =
     and_then_opt (returning (initInstance rt (Some ''demo-instance''))) (\<lambda>instance.
     and_then_opt (returning (deployContract rt (obj_of instance) ''ParallelCounter''))
       (\<lambda>deployedInstance.
     and_then_opt (runBenchmark rt defaultEVVMConfig (obj_of deployedInstance) ''serial'' (Some 50))
       (\<lambda>serialResult.
     and_then_opt (runBenchmark rt defaultEVVMConfig (obj_of deployedInstance) ''parallel'' (Some 50))
       (\<lambda>parallelResult.
     and_then_opt (runBenchmark rt defaultEVVMConfig (obj_of deployedInstance) ''evvm-async'' (Some 50))
       (\<lambda>evvmResult. returning (Pair (Inr [serialResult, parallelResult, evvmResult])))))))"
  by (auto simp: fun_eq_iff demo_body_def and_then_opt_def returning_def case_prod_beta Let_def
           split: option.splits)

lemma stream_only_opt_demo_body: "stream_only_opt (demo_body rt)"
  unfolding demo_body_and_then
  by (intro stream_only_opt_and_then stream_only_opt_returning stream_only_return
        stream_only_initInstance stream_only_deployContract stream_only_opt_runBenchmark)

lemma action_init_bound:
  fixes w v :: "'e world_scheme"
  assumes h: "cwd rt = absolute_path segs" "segs \<noteq> []" "list_all plain segs"
    and r: "\<And>r. CHR ''/'' \<notin> set (toString_radix rt 36 r)"
    and c: "h = caught \<or> h = rethrown"
  shows "action_init h rt args w = Some (out, w') \<Longrightarrow> outside_untouched (tracked rt) w w'"
    and "same_view (tracked rt) w v \<Longrightarrow>
           map_option fst (action_init h rt args w) = map_option fst (action_init h rt args v)"
proof -
  let ?name = "or_default (nth_arg args 0) ''test-instance''"
  note fb = file_bound_init_body [OF h r, of ?name]
  show "outside_untouched (tracked rt) w w'" if "action_init h rt args w = Some (out, w')"
    using that file_boundD(1) [OF fb, of w] handled(1) [OF c, of Instance "init_body rt ?name w"]
    by (auto simp: action_init_def)
  show "map_option fst (action_init h rt args w) = map_option fst (action_init h rt args v)"
    if "same_view (tracked rt) w v"
    using file_boundD(2) [OF fb that]
      handled(2) [OF c, of "init_body rt ?name w" "init_body rt ?name v" Instance]
    by (simp add: action_init_def)
qed

lemma action_deploy_bound:
  fixes w v :: "'e world_scheme"
  assumes h: "cwd rt = absolute_path segs" "segs \<noteq> []" "list_all plain segs"
    and i: "\<And>i. nth_arg args 0 = Some i \<Longrightarrow> CHR ''/'' \<notin> set i"
    and c: "h = caught \<or> h = rethrown"
  shows "action_deploy h rt args w = Some (out, w') \<Longrightarrow> outside_untouched (tracked rt) w w'"
    and "same_view (tracked rt) w v \<Longrightarrow>
           map_option fst (action_deploy h rt args w) = map_option fst (action_deploy h rt args v)"
proof -
  let ?c = "or_default (nth_arg args 1) ''ParallelCounter''"
  show "outside_untouched (tracked rt) w w'" if run: "action_deploy h rt args w = Some (out, w')"
  proof (cases "nth_arg args 0")
    case None
    then show ?thesis using run by (auto simp: action_deploy_def)
  next
    case (Some i)
    note fb = file_bound_deploy_body [OF h i [OF Some], of ?c]
    show ?thesis
      using run Some file_boundD(1) [OF fb, of w]
        handled(1) [OF c, of Instance "deploy_body rt i ?c w"]
      by (auto simp: action_deploy_def)
  qed
  show "map_option fst (action_deploy h rt args w) = map_option fst (action_deploy h rt args v)"
    if sv: "same_view (tracked rt) w v"
  proof (cases "nth_arg args 0")
    case None
    then show ?thesis by (simp add: action_deploy_def)
  next
    case (Some i)
    note fb = file_bound_deploy_body [OF h i [OF Some], of ?c]
    show ?thesis
      using Some file_boundD(2) [OF fb sv]
        handled(2) [OF c, of "deploy_body rt i ?c w" "deploy_body rt i ?c v" Instance]
      by (simp add: action_deploy_def)
  qed
qed

lemma action_benchmark_bound:
  fixes w v :: "'e world_scheme"
  assumes h: "cwd rt = absolute_path segs" "segs \<noteq> []" "list_all plain segs"
    and i: "\<And>i. nth_arg args 0 = Some i \<Longrightarrow> CHR ''/'' \<notin> set i"
    and ok: "\<And>i j. nth_arg args 0 = Some i \<Longrightarrow> readJson (instanceFile rt i) w = Inr j \<Longrightarrow>
               CHR ''/'' \<notin> set (template_string (o_id (instance_fields j)))"
    and c: "h = caught \<or> h = rethrown"
  shows "action_benchmark h rt args w = Some (out, w') \<Longrightarrow> outside_untouched (tracked rt) w w'"
    and "same_view (tracked rt) w v \<Longrightarrow>
           map_option fst (action_benchmark h rt args w)
             = map_option fst (action_benchmark h rt args v)"
proof -
  let ?m = "or_default (opt_mode args) ''all''"
  let ?n = "or_default (opt_txCount args) 100"
  let ?d = "opt_demo args"
  show "outside_untouched (tracked rt) w w'"
    if run: "action_benchmark h rt args w = Some (out, w')"
  proof (cases "nth_arg args 0")
    case None
    then show ?thesis using run by (auto simp: action_benchmark_def)
  next
    case (Some i)
    from run Some obtain r where b: "benchmark_body rt i ?m ?n ?d w = Some r"
      and o: "h (tagged Results r) = (out, w')"
      by (auto simp: action_benchmark_def)
    have "outside_untouched (tracked rt) w (snd r)"
      using benchmark_body_bound(1) [OF h i [OF Some] ok [OF Some],
          where m = ?m and txCount = ?n and demo = ?d and y = "fst r" and ?w1.0 = "snd r"] b
      by simp
    then show ?thesis
      using o handled(1) [OF c, of Results r] by simp
  qed
  show "map_option fst (action_benchmark h rt args w)
          = map_option fst (action_benchmark h rt args v)"
    if sv: "same_view (tracked rt) w v"
  proof (cases "nth_arg args 0")
    case None
    then show ?thesis by (simp add: action_benchmark_def)
  next
    case (Some i)
    have e: "map_option fst (benchmark_body rt i ?m ?n ?d w)
               = map_option fst (benchmark_body rt i ?m ?n ?d v)"
      by (rule benchmark_body_bound(2) [OF h i [OF Some] ok [OF Some] sv])
    show ?thesis
    proof (cases "benchmark_body rt i ?m ?n ?d w")
      case None
      then show ?thesis using e Some by (simp add: action_benchmark_def)
    next
      case (Some r)
      with e obtain r' where r': "benchmark_body rt i ?m ?n ?d v = Some r'" "fst r = fst r'"
        by (cases "benchmark_body rt i ?m ?n ?d v") auto
      show ?thesis
        using Some r' \<open>nth_arg args 0 = Some i\<close> handled(2) [OF c r'(2), of Results]
        by (simp add: action_benchmark_def)
    qed
  qed
qed

lemma action_list_bound:
  assumes h: "cwd rt = absolute_path segs" "segs \<noteq> []" "list_all plain segs"
  shows "action_list rt args w = Some (out, w') \<Longrightarrow> w' = w"
    and "same_view (tracked rt) w v \<Longrightarrow>
           map_option fst (action_list rt args w) = map_option fst (action_list rt args v)"
proof -
  have c: "rethrown = caught \<or> rethrown = rethrown" by simp
  show "w' = w" if "action_list rt args w = Some (out, w')"
    using that handled(1) [OF c, of Instances "list_body rt w"] list_body_world [of rt w]
    by (auto simp: action_list_def)
  show "map_option fst (action_list rt args w) = map_option fst (action_list rt args v)"
    if sv: "same_view (tracked rt) w v"
    using handled(2) [OF c list_body_same_view [OF h sv], of Instances]
    by (simp add: action_list_def)
qed

lemma action_demo_bound:
  fixes w v :: "'e world_scheme"
  assumes c: "h = caught \<or> h = rethrown"
  shows "action_demo h rt args w = Some (out, w') \<Longrightarrow>
           files w' = files w \<and> world.more w' = world.more w"
    and "same_streams w v \<Longrightarrow>
           map_option fst (action_demo h rt args w) = map_option fst (action_demo h rt args v)"
proof -
  note so = stream_only_opt_demo_body [of rt]
  show "files w' = files w \<and> world.more w' = world.more w"
    if run: "action_demo h rt args w = Some (out, w')"
  proof -
    from run obtain r where b: "demo_body rt w = Some r" and o: "h (tagged Results r) = (out, w')"
      by (auto simp: action_demo_def)
    have ss: "same_streams w w" by (simp add: same_streams_def)
    have "demo_body rt w = Some (fst r, snd r)" using b by simp
    with so ss have "files (snd r) = files w \<and> world.more (snd r) = world.more w"
      unfolding stream_only_opt_def by blast
    then show ?thesis using o handled(1) [OF c, of Results r] by simp
  qed
  show "map_option fst (action_demo h rt args w) = map_option fst (action_demo h rt args v)"
    if ss: "same_streams w v"
  proof (cases "demo_body rt w")
    case None
    have "map_option fst (demo_body rt w) = map_option fst (demo_body rt v)"
      using so ss unfolding stream_only_opt_def by blast
    with None have "demo_body rt v = None" by simp
    with None show ?thesis by (simp add: action_demo_def)
  next
    case (Some r)
    have "map_option fst (demo_body rt w) = map_option fst (demo_body rt v)"
      using so ss unfolding stream_only_opt_def by blast
    with Some obtain r' where r': "demo_body rt v = Some r'" "fst r = fst r'"
      by (cases "demo_body rt v") auto
    show ?thesis
      using Some r' handled(2) [OF c r'(2), of Results] by (simp add: action_demo_def)
  qed
qed
section \<open>The counters of the benchmark results\<close>

text \<open>
  Claim C8. Every result that \<^verbatim>\<open>EVVMPlugin.runBenchmark\<close> returns, in every mode and for
  every count, has \<open>successfulTransactions + failedTransactions = totalTransactions\<close>, and
  \<open>totalTransactions\<close> is the requested count (the configured default when none is
  given); with a configuration built by \<^verbatim>\<open>EVVMConfig\<close> it always returns. Both results
  that \<^verbatim>\<open>ArcologyClient.runBenchmark\<close> returns satisfy the same two equations, with the
  number of transactions as the count, and it returns for every concurrency of at least 1.
\<close>

theorem benchmark_counts_add_up:
  "(\<forall>r w'. runBenchmark rt config inst m n w = Some (r, w') \<longrightarrow>
       successfulTransactions r + failedTransactions r = totalTransactions r
       \<and> totalTransactions r = (case n of None \<Rightarrow> defaultTxCount config | Some k \<Rightarrow> k))
   \<and> (\<exists>r w'. runBenchmark rt (EVVMConfig_new args) inst m n w = Some (r, w'))
   \<and> (\<forall>b w'. Arcology_runBenchmark rt txs c w = Some (b, w') \<longrightarrow>
       a_successfulTransactions (ab_serial b) + a_failedTransactions (ab_serial b)
         = a_totalTransactions (ab_serial b)
       \<and> a_totalTransactions (ab_serial b) = int (length txs)
       \<and> a_successfulTransactions (ab_parallel b) + a_failedTransactions (ab_parallel b)
         = a_totalTransactions (ab_parallel b)
       \<and> a_totalTransactions (ab_parallel b) = int (length txs))
   \<and> (1 \<le> k \<longrightarrow> (\<exists>b w'. Arcology_runBenchmark rt txs (Some k) w = Some (b, w')))"
proof (intro conjI allI impI)
  fix r w'
  assume "runBenchmark rt config inst m n w = Some (r, w')"
  from runBenchmark_counts [OF this]
  show "successfulTransactions r + failedTransactions r = totalTransactions r"
    and "totalTransactions r = (case n of None \<Rightarrow> defaultTxCount config | Some k \<Rightarrow> k)"
    by auto
next
  obtain t' w2 where "run_mode (EVVMConfig_new args) m
      (case n of None \<Rightarrow> defaultTxCount (EVVMConfig_new args) | Some k \<Rightarrow> k)
      \<lparr>t_errors = [], t_successfulTxs = 0, t_totalGasUsed = 0\<rparr> (snd (Date_now w)) = Some (t', w2)"
    using run_mode_Some [OF EVVMConfig_new_nonzero] by blast
  from runBenchmark_returns [OF this]
  show "\<exists>r w'. runBenchmark rt (EVVMConfig_new args) inst m n w = Some (r, w')" .
next
  fix b w'
  assume run: "Arcology_runBenchmark rt txs c w = Some (b, w')"
  note parts = Arcology_runBenchmark_parts [OF run]
  from parts have
    s: "ab_serial b = fst (calculateBenchmarkResult rt Serial (fst (executeSerial rt txs w))
                      (int (length txs)) (snd (executeSerial rt txs w)))"
    by (rule conjunct1)
  from parts obtain rs w3 where
    p: "executeParallel rt txs c
           (snd (calculateBenchmarkResult rt Serial (fst (executeSerial rt txs w))
                      (int (length txs)) (snd (executeSerial rt txs w)))) = Some (rs, w3)"
    and q: "ab_parallel b = fst (calculateBenchmarkResult rt Parallel rs (int (length txs)) w3)"
    by (elim conjE exE)
  show "a_successfulTransactions (ab_serial b) + a_failedTransactions (ab_serial b)
         = a_totalTransactions (ab_serial b)"
    unfolding s by (simp add: calculateBenchmarkResult_sum calculateBenchmarkResult_total executeSerial_length)
  show "a_totalTransactions (ab_serial b) = int (length txs)"
    unfolding s by (simp add: calculateBenchmarkResult_total)
  show "a_successfulTransactions (ab_parallel b) + a_failedTransactions (ab_parallel b)
         = a_totalTransactions (ab_parallel b)"
    unfolding q by (simp add: calculateBenchmarkResult_sum calculateBenchmarkResult_total executeParallel_length [OF p])
  show "a_totalTransactions (ab_parallel b) = int (length txs)"
    unfolding q by (simp add: calculateBenchmarkResult_total)
next
  assume "1 \<le> k"
  then show "\<exists>b w'. Arcology_runBenchmark rt txs (Some k) w = Some (b, w')"
    by (rule Arcology_runBenchmark_returns)
qed

theorem benchmark_counts_add_up_witness:
  "(\<exists>r w'. runBenchmark demo_runtime defaultEVVMConfig demo_instance ''parallel'' (Some 10) demo_world
       = Some (r, w')
     \<and> successfulTransactions r + failedTransactions r = totalTransactions r
     \<and> totalTransactions r = 10)
   \<and> (1::int) \<le> 2
   \<and> (\<exists>b w'. Arcology_runBenchmark demo_runtime [demo_tx, demo_tx, demo_tx] (Some 2) demo_world
       = Some (b, w')
     \<and> a_successfulTransactions (ab_parallel b) + a_failedTransactions (ab_parallel b)
         = a_totalTransactions (ab_parallel b)
     \<and> a_totalTransactions (ab_parallel b) = 3)"
  using benchmark_counts_add_up [of demo_runtime defaultEVVMConfig demo_instance "''parallel''"
      "Some 10" demo_world
      "\<lparr>arg_defaultTxCount = None, arg_defaultConcurrency = None, arg_defaultTimeout = None\<rparr>"
      "[demo_tx, demo_tx, demo_tx]" "Some 2" 2]
  unfolding defaultEVVMConfig_def [symmetric]
  by (auto simp del: js_div.simps)

section \<open>Failed transactions and their error strings\<close>

text \<open>
  Claim C3, as amended. In a run of \<^verbatim>\<open>ArcologyClient.executeSerial\<close> a transaction draws
  its delay and then its success draw, and it fails exactly when the success draw is at
  most \<open>0.05\<close>; a successful transaction has consumed four draws and a failed one two, so
  the success draw of transaction \<open>i\<close> is the draw after those that the transactions
  before it have consumed, plus one. In a run of \<^verbatim>\<open>executeParallel\<close> the transactions
  of a group first draw their delays, one each, and then resume in the order in which
  their timers fire, each with its success draw first; the transaction that resumes at
  place \<open>k\<close> fails exactly when the draw at that position is at most \<open>0.01\<close>. A result
  carries an error string exactly when it failed. In the two results of
  \<^verbatim>\<open>ArcologyClient.runBenchmark\<close>, \<open>failedTransactions\<close> is the number of failed
  transactions of the serial and of the parallel run, the list of errors holds the error
  string of each failed transaction, in order, and so has \<open>failedTransactions\<close> entries.
  \<^verbatim>\<open>EVVMPlugin.runBenchmark\<close> has no failure threshold: in the modes \<^verbatim>\<open>serial\<close>,
  \<^verbatim>\<open>parallel\<close> and \<^verbatim>\<open>evvm-async\<close>, for a count that is not negative and a default
  concurrency of at least 1, no transaction fails whatever is drawn, \<open>failedTransactions\<close>
  is 0 and the list of errors is empty.
\<close>

theorem failures_and_error_strings:
  fixes w :: "'e world_scheme"
  shows
  "(\<forall>i < length txs.
       \<not> success (fst (executeSerial rt txs w) ! i)
         \<longleftrightarrow> random_src w !! (draws_of 4 2 (take i (fst (executeSerial rt txs w))) + 1) \<le> 5 / 100)
   \<and> (\<forall>groups rs w' g k.
        createConflictFreeGroups txs (case c of None \<Rightarrow> 4 | Some n \<Rightarrow> n) = Some groups
        \<and> executeParallel rt txs c w = Some (rs, w')
        \<and> g < length groups \<and> k < length (groups ! g) \<longrightarrow>
        (let before = length (concat (take g groups));
             base = draws_of 4 2 (take before rs);
             order = firing_order (map (\<lambda>j. random_src w !! (base + j) * 15 + 5)
                                     [0..<length (groups ! g)])
         in \<not> success (rs ! (before + order ! k))
              \<longleftrightarrow> random_src w !! (base + length (groups ! g)
                     + draws_of 3 1 (map (\<lambda>k'. rs ! (before + order ! k')) [0..<k]))
                    \<le> 1 / 100))
   \<and> (\<forall>r \<in> set (fst (executeSerial rt txs w)). error r \<noteq> None \<longleftrightarrow> \<not> success r)
   \<and> (\<forall>rs w'. executeParallel rt txs c w = Some (rs, w') \<longrightarrow>
        (\<forall>r \<in> set rs. error r \<noteq> None \<longleftrightarrow> \<not> success r))
   \<and> (\<forall>b w'. Arcology_runBenchmark rt txs c w = Some (b, w') \<longrightarrow>
        a_failedTransactions (ab_serial b)
          = int (length (filter (\<lambda>r. \<not> success r) (fst (executeSerial rt txs w))))
        \<and> a_errors (ab_serial b)
          = map (\<lambda>r. the (error r)) (filter (\<lambda>r. \<not> success r) (fst (executeSerial rt txs w)))
        \<and> int (length (a_errors (ab_serial b))) = a_failedTransactions (ab_serial b)
        \<and> (\<exists>rs (w1 :: 'e world_scheme) w2. executeParallel rt txs c w1 = Some (rs, w2)
              \<and> random_src w1 = sdrop (draws_of 4 2 (fst (executeSerial rt txs w))) (random_src w)
              \<and> a_failedTransactions (ab_parallel b)
                   = int (length (filter (\<lambda>r. \<not> success r) rs))
              \<and> a_errors (ab_parallel b)
                   = map (\<lambda>r. the (error r)) (filter (\<lambda>r. \<not> success r) rs))
        \<and> int (length (a_errors (ab_parallel b))) = a_failedTransactions (ab_parallel b))
   \<and> (1 \<le> defaultConcurrency config \<and> 0 \<le> N
        \<and> (m = ''serial'' \<or> m = ''parallel'' \<or> m = ''evvm-async'') \<longrightarrow>
        (\<exists>r w'. runBenchmark rt config inst m (Some N) w = Some (r, w')
           \<and> failedTransactions r = 0 \<and> errors r = []
           \<and> int (length (errors r)) = failedTransactions r))"
proof (intro conjI allI impI ballI)
  fix i
  assume "i < length txs"
  then show "\<not> success (fst (executeSerial rt txs w) ! i)
         \<longleftrightarrow> random_src w !! (draws_of 4 2 (take i (fst (executeSerial rt txs w))) + 1) \<le> 5 / 100"
    by (rule executeSerial_draws(2))
next
  fix groups rs w' g k
  assume "createConflictFreeGroups txs (case c of None \<Rightarrow> 4 | Some n \<Rightarrow> n) = Some groups
        \<and> executeParallel rt txs c w = Some (rs, w')
        \<and> g < length groups \<and> k < length (groups ! g)"
  then show "let before = length (concat (take g groups));
             base = draws_of 4 2 (take before rs);
             order = firing_order (map (\<lambda>j. random_src w !! (base + j) * 15 + 5)
                                     [0..<length (groups ! g)])
         in \<not> success (rs ! (before + order ! k))
              \<longleftrightarrow> random_src w !! (base + length (groups ! g)
                     + draws_of 3 1 (map (\<lambda>k'. rs ! (before + order ! k')) [0..<k]))
                    \<le> 1 / 100"
    unfolding Let_def using executeParallel_draws [of rt txs c w rs w' groups g k] by blast
next
  fix r
  assume "r \<in> set (fst (executeSerial rt txs w))"
  then show "error r \<noteq> None \<longleftrightarrow> \<not> success r"
    using executeSerial_errors [of rt txs w] by auto
next
  fix rs w' r
  assume "executeParallel rt txs c w = Some (rs, w')" "r \<in> set rs"
  then show "error r \<noteq> None \<longleftrightarrow> \<not> success r"
    using executeParallel_errors [of rt txs c w rs w'] by auto
next
  fix b w'
  assume run: "Arcology_runBenchmark rt txs c w = Some (b, w')"
  let ?w1 = "snd (calculateBenchmarkResult rt Serial (fst (executeSerial rt txs w))
                      (int (length txs)) (snd (executeSerial rt txs w)))"
  note parts = Arcology_runBenchmark_parts [OF run]
  from parts have
    s: "ab_serial b = fst (calculateBenchmarkResult rt Serial (fst (executeSerial rt txs w))
                      (int (length txs)) (snd (executeSerial rt txs w)))"
    by (rule conjunct1)
  from parts obtain rs w3 where
    p: "executeParallel rt txs c ?w1 = Some (rs, w3)"
    and q: "ab_parallel b = fst (calculateBenchmarkResult rt Parallel rs (int (length txs)) w3)"
    by (elim conjE exE)
  show "a_failedTransactions (ab_serial b)
          = int (length (filter (\<lambda>r. \<not> success r) (fst (executeSerial rt txs w))))"
    unfolding s by (rule calculateBenchmarkResult_failed)
  show es: "a_errors (ab_serial b)
          = map (\<lambda>r. the (error r)) (filter (\<lambda>r. \<not> success r) (fst (executeSerial rt txs w)))"
    unfolding s by (rule failed_errors) (rule executeSerial_errors)
  show "int (length (a_errors (ab_serial b))) = a_failedTransactions (ab_serial b)"
    unfolding s by (simp add: calculateBenchmarkResult_failed calculateBenchmarkResult_errors)
  have src: "random_src ?w1 = sdrop (draws_of 4 2 (fst (executeSerial rt txs w))) (random_src w)"
    by (simp only: random_src_calculateBenchmarkResult executeSerial_draws(1))
  have fp: "a_failedTransactions (ab_parallel b) = int (length (filter (\<lambda>r. \<not> success r) rs))"
    unfolding q by (rule calculateBenchmarkResult_failed)
  have ep: "a_errors (ab_parallel b) = map (\<lambda>r. the (error r)) (filter (\<lambda>r. \<not> success r) rs)"
    unfolding q by (rule failed_errors) (rule executeParallel_errors [OF p])
  from p src fp ep
  show "\<exists>rs (w1 :: 'e world_scheme) w2. executeParallel rt txs c w1 = Some (rs, w2)
              \<and> random_src w1 = sdrop (draws_of 4 2 (fst (executeSerial rt txs w))) (random_src w)
              \<and> a_failedTransactions (ab_parallel b)
                   = int (length (filter (\<lambda>r. \<not> success r) rs))
              \<and> a_errors (ab_parallel b)
                   = map (\<lambda>r. the (error r)) (filter (\<lambda>r. \<not> success r) rs)"
    by blast
  show "int (length (a_errors (ab_parallel b))) = a_failedTransactions (ab_parallel b)"
    unfolding q by (simp add: calculateBenchmarkResult_failed calculateBenchmarkResult_errors)
next
  assume "1 \<le> defaultConcurrency config \<and> 0 \<le> N
        \<and> (m = ''serial'' \<or> m = ''parallel'' \<or> m = ''evvm-async'')"
  then obtain r w' where "runBenchmark rt config inst m (Some N) w = Some (r, w')"
    "failedTransactions r = 0" "errors r = []"
    using runBenchmark_no_failure [of config N m rt inst w] by blast
  then show "\<exists>r w'. runBenchmark rt config inst m (Some N) w = Some (r, w')
           \<and> failedTransactions r = 0 \<and> errors r = []
           \<and> int (length (errors r)) = failedTransactions r"
    by simp
qed

theorem failures_and_error_strings_witness:
  "(1::nat) < length [demo_tx, demo_tx, demo_tx]
   \<and> \<not> success (fst (executeSerial demo_runtime [demo_tx, demo_tx, demo_tx]
                      (constant_world (1 / 50))) ! 1)
   \<and> success (fst (executeSerial demo_runtime [demo_tx, demo_tx, demo_tx]
                      (constant_world (1 / 10))) ! 1)
   \<and> createConflictFreeGroups [demo_tx, demo_tx, demo_tx] 2 = Some [[demo_tx, demo_tx], [demo_tx]]
   \<and> (\<exists>rs w'. executeParallel demo_runtime [demo_tx, demo_tx, demo_tx] (Some 2)
                 (constant_world (1 / 50)) = Some (rs, w') \<and> success (rs ! 2))
   \<and> (\<exists>rs w'. executeParallel demo_runtime [demo_tx, demo_tx, demo_tx] (Some 2)
                 (constant_world (1 / 200)) = Some (rs, w') \<and> \<not> success (rs ! 2))
   \<and> (\<exists>b w'. Arcology_runBenchmark demo_runtime [demo_tx, demo_tx, demo_tx] (Some 2)
                (constant_world (1 / 50)) = Some (b, w')
        \<and> int (length (a_errors (ab_serial b))) = a_failedTransactions (ab_serial b)
        \<and> int (length (a_errors (ab_parallel b))) = a_failedTransactions (ab_parallel b))
   \<and> 1 \<le> defaultConcurrency defaultEVVMConfig \<and> (0::int) \<le> 7
   \<and> (\<exists>r w'. runBenchmark demo_runtime defaultEVVMConfig demo_instance ''parallel'' (Some 7)
                (constant_world (1 / 50)) = Some (r, w')
        \<and> failedTransactions r = 0 \<and> errors r = [])"
proof -
  let ?txs = "[demo_tx, demo_tx, demo_tx]"
  note a = failures_and_error_strings [of ?txs demo_runtime "constant_world (1 / 50)"
      "Some 2" defaultEVVMConfig 7 "''parallel''" demo_instance]
  note b = failures_and_error_strings [of ?txs demo_runtime "constant_world (1 / 10)"
      "Some 2" defaultEVVMConfig 7 "''parallel''" demo_instance]
  note c = failures_and_error_strings [of ?txs demo_runtime "constant_world (1 / 200)"
      "Some 2" defaultEVVMConfig 7 "''parallel''" demo_instance]
  have s1: "\<not> success (fst (executeSerial demo_runtime ?txs (constant_world (1 / 50))) ! 1)"
    using a [THEN conjunct1, rule_format, of 1]
    unfolding random_src_constant_world by simp
  have s2: "success (fst (executeSerial demo_runtime ?txs (constant_world (1 / 10))) ! 1)"
    using b [THEN conjunct1, rule_format, of 1]
    unfolding random_src_constant_world by simp
  obtain rs w' where p: "executeParallel demo_runtime ?txs (Some 2) (constant_world (1 / 50))
       = Some (rs, w')"
    using executeParallel_returns [of 2 demo_runtime ?txs "constant_world (1 / 50)"] by auto
  have p2: "success (rs ! 2)"
    using a [THEN conjunct2, THEN conjunct1, rule_format, of "[[demo_tx, demo_tx], [demo_tx]]"
        rs w' 1 0] demo_groups p
    unfolding Let_def random_src_constant_world by (simp add: firing_order_def numeral_2_eq_2)
  obtain rs' w'' where q: "executeParallel demo_runtime ?txs (Some 2) (constant_world (1 / 200))
       = Some (rs', w'')"
    using executeParallel_returns [of 2 demo_runtime ?txs "constant_world (1 / 200)"] by auto
  have q2: "\<not> success (rs' ! 2)"
    using c [THEN conjunct2, THEN conjunct1, rule_format, of "[[demo_tx, demo_tx], [demo_tx]]"
        rs' w'' 1 0] demo_groups q
    unfolding Let_def random_src_constant_world by (simp add: firing_order_def numeral_2_eq_2)
  obtain bb w3 where r: "Arcology_runBenchmark demo_runtime ?txs (Some 2)
                (constant_world (1 / 50)) = Some (bb, w3)"
    using Arcology_runBenchmark_returns [of 2 demo_runtime ?txs "constant_world (1 / 50)"] by auto
  have r2: "int (length (a_errors (ab_serial bb))) = a_failedTransactions (ab_serial bb)"
    "int (length (a_errors (ab_parallel bb))) = a_failedTransactions (ab_parallel bb)"
    using a [THEN conjunct2, THEN conjunct2, THEN conjunct2, THEN conjunct2, THEN conjunct1,
        rule_format, OF r] by simp_all
  have pl: "\<exists>r w'. runBenchmark demo_runtime defaultEVVMConfig demo_instance ''parallel'' (Some 7)
                (constant_world (1 / 50)) = Some (r, w')
        \<and> failedTransactions r = 0 \<and> errors r = []"
    using a [THEN conjunct2, THEN conjunct2, THEN conjunct2, THEN conjunct2, THEN conjunct2]
    by (auto simp: defaultEVVMConfig_concurrency)
  show ?thesis
    using s1 s2 demo_groups p p2 q q2 r r2 pl by (simp add: defaultEVVMConfig_concurrency)
qed

text \<open>
  The claim as first stated fails for \<^verbatim>\<open>EVVMPlugin.runBenchmark\<close>: with every draw equal
  to 0, below each threshold of the clients, and with every draw equal to 0.999, above each
  of them, the serial benchmark of three transactions counts no failure.
\<close>

theorem runBenchmark_never_fails_counterexample:
  "failedTransactions (fst (the (runBenchmark demo_runtime defaultEVVMConfig demo_instance
        ''serial'' (Some 3) (constant_world 0)))) = 0
   \<and> errors (fst (the (runBenchmark demo_runtime defaultEVVMConfig demo_instance
        ''serial'' (Some 3) (constant_world 0)))) = []
   \<and> failedTransactions (fst (the (runBenchmark demo_runtime defaultEVVMConfig demo_instance
        ''serial'' (Some 3) (constant_world (999 / 1000))))) = 0
   \<and> errors (fst (the (runBenchmark demo_runtime defaultEVVMConfig demo_instance
        ''serial'' (Some 3) (constant_world (999 / 1000))))) = []"
  using runBenchmark_no_failure [of defaultEVVMConfig 3 "''serial''" demo_runtime demo_instance
      "constant_world 0"]
    runBenchmark_no_failure [of defaultEVVMConfig 3 "''serial''" demo_runtime demo_instance
      "constant_world (999 / 1000)"]
  by (auto simp: defaultEVVMConfig_concurrency)

section \<open>The error for a missing instance\<close>

text \<open>
  Claim C5. The \<^verbatim>\<open>deploy\<close> and \<^verbatim>\<open>benchmark\<close> actions throw the error
  \<^verbatim>\<open>Instance <id> not found\<close> exactly when nothing exists at the path that
  \<^verbatim>\<open>path.join\<close> makes of the working directory, \<^verbatim>\<open>instances\<close> and \<^verbatim>\<open><id>.json\<close>,
  and then they change nothing: the world after the action is the world before it. This
  holds for the \<^verbatim>\<open>try\<close> blocks, for the commander commands, which catch the error and
  exit with code 1, and for the hardhat tasks, which throw it again. Every other error of
  the two actions is a system error, a syntax error of the file or a type error. The path
  is normalised as \<^verbatim>\<open>path.join\<close> does it: the id \<^verbatim>\<open>../evvm-1\<close> names the file
  \<^verbatim>\<open>evvm-1.json\<close> of the working directory.
\<close>

theorem instance_not_found:
  "(fst (deploy_body rt i c w) = Inl (Error (''Instance '' @ i @ '' not found''))
      \<longleftrightarrow> map_of (files w) (instanceFile rt i) = None)
   \<and> (map_of (files w) (instanceFile rt i) = None \<longrightarrow> snd (deploy_body rt i c w) = w)
   \<and> (\<exists>r w'. benchmark_body rt i m n d w = Some (r, w')
     \<and> (r = Inl (Error (''Instance '' @ i @ '' not found''))
          \<longleftrightarrow> map_of (files w) (instanceFile rt i) = None)
     \<and> (map_of (files w) (instanceFile rt i) = None \<longrightarrow> w' = w))
   \<and> (nth_arg args 0 = Some i \<longrightarrow>
       (\<exists>out w'. program_parse rt ''deploy'' args w = Some (out, w')
          \<and> (out = Exit1 (Error (''Instance '' @ i @ '' not found''))
               \<longleftrightarrow> map_of (files w) (instanceFile rt i) = None)
          \<and> (map_of (files w) (instanceFile rt i) = None \<longrightarrow> w' = w))
       \<and> (\<exists>out w'. program_parse rt ''benchmark'' args w = Some (out, w')
          \<and> (out = Exit1 (Error (''Instance '' @ i @ '' not found''))
               \<longleftrightarrow> map_of (files w) (instanceFile rt i) = None)
          \<and> (map_of (files w) (instanceFile rt i) = None \<longrightarrow> w' = w))
       \<and> (\<exists>task out w'. map_of tasks ''evvm:deploy'' = Some task
          \<and> task rt args w = Some (out, w')
          \<and> (out = Thrown (Error (''Instance '' @ i @ '' not found''))
               \<longleftrightarrow> map_of (files w) (instanceFile rt i) = None)
          \<and> (map_of (files w) (instanceFile rt i) = None \<longrightarrow> w' = w))
       \<and> (\<exists>task out w'. map_of tasks ''evvm:benchmark'' = Some task
          \<and> task rt args w = Some (out, w')
          \<and> (out = Thrown (Error (''Instance '' @ i @ '' not found''))
               \<longleftrightarrow> map_of (files w) (instanceFile rt i) = None)
          \<and> (map_of (files w) (instanceFile rt i) = None \<longrightarrow> w' = w)))"
  using deploy_body_not_found [of rt i c w] benchmark_body_not_found [of rt i m n d w]
    action_deploy_not_found [of args i rt w] action_benchmark_not_found [of args i rt w]
  by (simp add: program_parse_def program_lookup tasks_lookup)

theorem instance_not_found_witness:
  "nth_arg demo_args 0 = Some ''evvm-1''
   \<and> map_of (files demo_world) (instanceFile demo_runtime ''evvm-1'') = None
   \<and> program_parse demo_runtime ''deploy'' demo_args demo_world
       = Some (Exit1 (Error ''Instance evvm-1 not found''), demo_world)
   \<and> program_parse demo_runtime ''benchmark'' demo_args demo_world
       = Some (Exit1 (Error ''Instance evvm-1 not found''), demo_world)
   \<and> map_of (files disk_world) (instanceFile demo_runtime ''evvm-1'') \<noteq> None
   \<and> fst (deploy_body demo_runtime ''evvm-1'' ''Counter'' disk_world)
       \<noteq> Inl (Error ''Instance evvm-1 not found'')
   \<and> map_of (files disk_world) (instanceFile demo_runtime ''../evvm-1'') = None
   \<and> fst (deploy_body demo_runtime ''../evvm-1'' ''Counter'' disk_world)
       = Inl (Error ''Instance ../evvm-1 not found'')
   \<and> map_of (files (disk_world\<lparr>files := [(''/work/evvm-1.json'', File (JInstance demo_instance))]\<rparr>))
        (instanceFile demo_runtime ''../evvm-1'') \<noteq> None
   \<and> fst (deploy_body demo_runtime ''../evvm-1'' ''Counter''
        (disk_world\<lparr>files := [(''/work/evvm-1.json'', File (JInstance demo_instance))]\<rparr>))
       \<noteq> Inl (Error ''Instance ../evvm-1 not found'')"
proof -
  have a: "nth_arg demo_args 0 = Some ''evvm-1''" by (simp add: nth_arg_def demo_args_def)
  have n: "map_of (files demo_world) (instanceFile demo_runtime ''evvm-1'') = None"
    by (simp add: demo_world_def)
  have p: "map_of (files disk_world) (instanceFile demo_runtime ''evvm-1'') \<noteq> None"
    by (simp add: disk_world_def demo_paths)
  have q: "map_of (files disk_world) (instanceFile demo_runtime ''../evvm-1'') = None"
    by (simp add: disk_world_def demo_paths)
  have r: "map_of (files (disk_world\<lparr>files := [(''/work/evvm-1.json'', File (JInstance demo_instance))]\<rparr>))
        (instanceFile demo_runtime ''../evvm-1'') \<noteq> None"
    by (simp add: demo_paths)
  show ?thesis
    using a n p q r
      instance_not_found [of demo_runtime "''evvm-1''" "''Counter''" demo_world "''serial''" 3
        False demo_args]
      instance_not_found [of demo_runtime "''evvm-1''" "''Counter''" disk_world "''serial''" 3
        False demo_args]
      instance_not_found [of demo_runtime "''../evvm-1''" "''Counter''" disk_world "''serial''" 3
        False demo_args]
      instance_not_found [of demo_runtime "''../evvm-1''" "''Counter''"
        "disk_world\<lparr>files := [(''/work/evvm-1.json'', File (JInstance demo_instance))]\<rparr>"
        "''serial''" 3 False demo_args]
    by auto
qed
section \<open>The benchmarks read nothing but the two streams\<close>

text \<open>
  Claim C2. With \<^verbatim>\<open>Math.random()\<close> and the clock as input streams,
  \<^verbatim>\<open>EVVMPlugin.runBenchmark\<close>, \<^verbatim>\<open>ArcologyClient.executeSerial\<close>,
  \<^verbatim>\<open>ArcologyClient.executeParallel\<close> and \<^verbatim>\<open>ArcologyClient.runBenchmark\<close> are functions
  of the streams and of their arguments: run in two worlds that offer the same draws and
  the same clock readings, whatever their disks and the rest of their environments hold,
  each returns the same value (or returns in neither), and each leaves the disk and the
  rest of the environment as it found them. The order in which the timers of one
  \<^verbatim>\<open>Promise.all\<close> fire is part of the model of the event loop and is computed from the
  delays drawn.
\<close>

theorem benchmarks_read_only_the_streams:
  fixes w w' :: "'e world_scheme"
  assumes "random_src w = random_src w'" and "clock w = clock w'"
  shows "map_option fst (runBenchmark rt config inst m n w)
           = map_option fst (runBenchmark rt config inst m n w')
     \<and> fst (executeSerial rt txs w) = fst (executeSerial rt txs w')
     \<and> map_option fst (executeParallel rt txs c w) = map_option fst (executeParallel rt txs c w')
     \<and> map_option fst (Arcology_runBenchmark rt txs c w)
           = map_option fst (Arcology_runBenchmark rt txs c w')
     \<and> (\<forall>r w1. runBenchmark rt config inst m n w = Some (r, w1) \<longrightarrow>
           files w1 = files w \<and> world.more w1 = world.more w)
     \<and> files (snd (executeSerial rt txs w)) = files w
     \<and> world.more (snd (executeSerial rt txs w)) = world.more w
     \<and> (\<forall>r w1. executeParallel rt txs c w = Some (r, w1) \<longrightarrow>
           files w1 = files w \<and> world.more w1 = world.more w)
     \<and> (\<forall>r w1. Arcology_runBenchmark rt txs c w = Some (r, w1) \<longrightarrow>
           files w1 = files w \<and> world.more w1 = world.more w)"
proof -
  from assms have s: "same_streams w w'" by (simp add: same_streams_def)
  show ?thesis
    using stream_only_optD [OF stream_only_opt_runBenchmark s, of rt config inst m n]
      stream_onlyD(1) [OF stream_only_executeSerial s, of rt txs]
      stream_only_optD [OF stream_only_opt_executeParallel s, of rt txs c]
      stream_only_optD [OF stream_only_opt_Arcology_runBenchmark s, of rt txs c]
      stream_only_opt_frame [OF stream_only_opt_runBenchmark, of rt config inst m n w]
      stream_onlyD(3,4) [OF stream_only_executeSerial, of rt txs w]
      stream_only_opt_frame [OF stream_only_opt_executeParallel, of rt txs c w]
      stream_only_opt_frame [OF stream_only_opt_Arcology_runBenchmark, of rt txs c w]
    by blast
qed

theorem benchmarks_read_only_the_streams_witness:
  "random_src demo_world = random_src disk_world
   \<and> clock demo_world = clock disk_world
   \<and> files demo_world \<noteq> files disk_world
   \<and> map_option fst (runBenchmark demo_runtime defaultEVVMConfig demo_instance ''parallel''
          (Some 6) demo_world)
       = map_option fst (runBenchmark demo_runtime defaultEVVMConfig demo_instance ''parallel''
          (Some 6) disk_world)
   \<and> fst (executeSerial demo_runtime [demo_tx, demo_tx] demo_world)
       = fst (executeSerial demo_runtime [demo_tx, demo_tx] disk_world)
   \<and> map_option fst (executeParallel demo_runtime [demo_tx, demo_tx] (Some 2) demo_world)
       = map_option fst (executeParallel demo_runtime [demo_tx, demo_tx] (Some 2) disk_world)"
proof -
  have r: "random_src demo_world = random_src disk_world"
    and c: "clock demo_world = clock disk_world"
    and f: "files demo_world \<noteq> files disk_world"
    by (simp_all add: demo_world_def disk_world_def)
  from benchmarks_read_only_the_streams [OF r c, of demo_runtime defaultEVVMConfig demo_instance
      "''parallel''" "Some 6" "[demo_tx, demo_tx]" "Some 2"] r c f
  show ?thesis by simp
qed

end
